(* ===== verification/Go_Prelude.thy ===== *)
theory Go_Prelude
  imports Main "HOL-Library.AList" "HOL-Library.Signed_Division" "HOL-Library.Word"
    "HOL-Library.Multiset"
begin

text \<open>
  The fragment of Go that every component uses: signed 64-bit integers, instants and
  durations, byte strings with the two string functions the sources call everywhere
  (\<open>strings.TrimSpace\<close>, \<open>strings.ToLower\<close>), maps as association lists, and the generic
  contracts (invariants of operation sequences) the component theories interpret.

  \<^item> \<open>int\<close> and \<open>int64\<close> are HOL integers; \<open>i64\<close> is the two's complement wrap and is written
    where a value that is not bounded by construction is computed.
  \<^item> \<open>time.Time\<close> is the number of nanoseconds since 1 January of year 1 UTC, so that the
    zero value \<open>time.Time{}\<close> is \<open>0\<close>.
  \<^item> A Go map is an association list with distinct keys. Its order is the order in which a
    \<open>range\<close> loop happens to visit the map: a theorem about every list is a theorem about
    every iteration order.
\<close>

named_theorems go_defs \<open>definitions unfolded by the component proofs\<close>
named_theorems go_inv \<open>preservation of the component invariants\<close>


section \<open>Signed 64-bit integers\<close>

definition i64 :: "int \<Rightarrow> int" where
  "i64 x = signed_take_bit 63 x"

definition max_i64 :: int where "max_i64 = 9223372036854775807"
definition min_i64 :: int where "min_i64 = - 9223372036854775808"

definition fits_i64 :: "int \<Rightarrow> bool" where
  "fits_i64 x \<longleftrightarrow> min_i64 \<le> x \<and> x \<le> max_i64"

lemma i64_bounds: "min_i64 \<le> i64 x" "i64 x \<le> max_i64"
  using signed_take_bit_int_greater_eq_minus_exp [of 63 x] signed_take_bit_int_less_exp [of 63 x]
  by (simp_all add: i64_def min_i64_def max_i64_def)

lemma i64_fits [simp]: "fits_i64 (i64 x)"
  by (simp add: fits_i64_def i64_bounds)

lemma i64_id [simp]: "fits_i64 x \<Longrightarrow> i64 x = x"
  by (simp add: i64_def fits_i64_def min_i64_def max_i64_def signed_take_bit_int_eq_self)

lemma fits_i64_between: "fits_i64 a \<Longrightarrow> fits_i64 b \<Longrightarrow> a \<le> x \<Longrightarrow> x \<le> b \<Longrightarrow> fits_i64 x"
  by (auto simp: fits_i64_def)

text \<open>Go's \<open>/\<close> and \<open>%\<close> truncate towards zero; on non-negative operands they are \<open>div\<close> and \<open>mod\<close>.\<close>

lemma sdiv_nonneg: "0 \<le> a \<Longrightarrow> 0 \<le> b \<Longrightarrow> a sdiv b = a div (b::int)"
  by (auto simp: signed_divide_int_def sgn_if)

lemma smod_nonneg: "0 \<le> a \<Longrightarrow> 0 \<le> b \<Longrightarrow> a smod b = a mod (b::int)"
  by (auto simp: signed_modulo_int_def sgn_if)


section \<open>Time\<close>

type_synonym time = int
type_synonym duration = int

definition Second :: duration where "Second = 1000000000"
definition Minute :: duration where "Minute = 60 * Second"
definition Hour :: duration where "Hour = 60 * Minute"

lemmas duration_defs = Second_def Minute_def Hour_def

definition IsZero :: "time \<Rightarrow> bool" where
  "IsZero t \<longleftrightarrow> t = 0"

text \<open>\<open>t.Sub(u)\<close> saturates at the ends of \<open>time.Duration\<close>.\<close>

definition Sub :: "time \<Rightarrow> time \<Rightarrow> duration" where
  "Sub t u = max min_i64 (min max_i64 (t - u))"

lemma Sub_mono: "t \<le> t' \<Longrightarrow> Sub t u \<le> Sub t' u"
  by (auto simp: Sub_def)

lemma Sub_le_iff: "min_i64 \<le> d \<Longrightarrow> d < max_i64 \<Longrightarrow> Sub t u \<le> d \<longleftrightarrow> t - u \<le> d"
  by (auto simp: Sub_def min_def max_def min_i64_def max_i64_def)


section \<open>Byte strings\<close>

definition ascii_space :: "char \<Rightarrow> bool" where
  "ascii_space c \<longleftrightarrow> c \<in> {CHR 0x09, CHR 0x0A, CHR 0x0B, CHR 0x0C, CHR 0x0D, CHR 0x20}"

text \<open>The multi-byte UTF-8 encodings of the runes for which \<open>unicode.IsSpace\<close> holds.\<close>

definition space2 :: "char \<Rightarrow> char \<Rightarrow> bool" where
  "space2 a b \<longleftrightarrow> a = CHR 0xC2 \<and> b \<in> {CHR 0x85, CHR 0xA0}"

definition space3 :: "char \<Rightarrow> char \<Rightarrow> char \<Rightarrow> bool" where
  "space3 a b c \<longleftrightarrow>
     (a = CHR 0xE1 \<and> b = CHR 0x9A \<and> c = CHR 0x80) \<or>
     (a = CHR 0xE2 \<and> b = CHR 0x80 \<and>
        (of_char c \<in> {0x80..(0x8A::nat)} \<or> c \<in> {CHR 0xA8, CHR 0xA9, CHR 0xAF})) \<or>
     (a = CHR 0xE2 \<and> b = CHR 0x81 \<and> c = CHR 0x9F) \<or>
     (a = CHR 0xE3 \<and> b = CHR 0x80 \<and> c = CHR 0x80)"

fun leading_space :: "string \<Rightarrow> nat" where
  "leading_space (a # b # c # r) =
     (if ascii_space a then 1 else if space2 a b then 2 else if space3 a b c then 3 else 0)"
| "leading_space [a, b] = (if ascii_space a then 1 else if space2 a b then 2 else 0)"
| "leading_space [a] = (if ascii_space a then 1 else 0)"
| "leading_space [] = 0"

text \<open>The same on the reversed string, for the right end.\<close>

fun trailing_space :: "string \<Rightarrow> nat" where
  "trailing_space (a # b # c # r) =
     (if ascii_space a then 1 else if space2 b a then 2 else if space3 c b a then 3 else 0)"
| "trailing_space [a, b] = (if ascii_space a then 1 else if space2 b a then 2 else 0)"
| "trailing_space [a] = (if ascii_space a then 1 else 0)"
| "trailing_space [] = 0"

lemma leading_space_le: "leading_space s \<le> length s"
  by (induction s rule: leading_space.induct) auto

lemma trailing_space_le: "trailing_space s \<le> length s"
  by (induction s rule: trailing_space.induct) auto

function drop_spaces :: "(string \<Rightarrow> nat) \<Rightarrow> string \<Rightarrow> string" where
  "drop_spaces w s =
     (if w s = 0 \<or> length s < w s then s else drop_spaces w (drop (w s) s))"
  by auto
termination by (relation "measure (length \<circ> snd)") auto

declare drop_spaces.simps [simp del]

definition TrimSpace :: "string \<Rightarrow> string" where
  "TrimSpace s = rev (drop_spaces trailing_space (rev (drop_spaces leading_space s)))"

definition lower_char :: "char \<Rightarrow> char" where
  "lower_char c = (if of_char c \<in> {65..(90::nat)} then char_of (of_char c + (32::nat)) else c)"

definition ToLower :: "string \<Rightarrow> string" where
  "ToLower s = map lower_char s"

definition EqualFold :: "string \<Rightarrow> string \<Rightarrow> bool" where
  "EqualFold s t \<longleftrightarrow> ToLower s = ToLower t"

definition HasPrefix :: "string \<Rightarrow> string \<Rightarrow> bool" where
  "HasPrefix s p \<longleftrightarrow> take (length p) s = p"

definition TrimPrefix :: "string \<Rightarrow> string \<Rightarrow> string" where
  "TrimPrefix s p = (if HasPrefix s p then drop (length p) s else s)"

definition HasSuffix :: "string \<Rightarrow> string \<Rightarrow> bool" where
  "HasSuffix s p \<longleftrightarrow> HasPrefix (rev s) (rev p)"

definition TrimSuffix :: "string \<Rightarrow> string \<Rightarrow> string" where
  "TrimSuffix s p = (if HasSuffix s p then take (length s - length p) s else s)"

lemma drop_spaces_Nil [simp]: "drop_spaces w [] = []"
  by (simp add: drop_spaces.simps)

lemma TrimSpace_Nil [simp]: "TrimSpace [] = []"
  by (simp add: TrimSpace_def)

lemma drop_spaces_stop: "w s = 0 \<Longrightarrow> drop_spaces w s = s"
  by (simp add: drop_spaces.simps)

lemma drop_spaces_done: "w (drop_spaces w s) = 0 \<or> length (drop_spaces w s) < w (drop_spaces w s)"
  by (induction w s rule: drop_spaces.induct) (subst (1 2 3) drop_spaces.simps, auto)

lemma drop_spaces_suffix: "\<exists>n. drop_spaces w s = drop n s"
proof (induction w s rule: drop_spaces.induct)
  case (1 w s)
  show ?case
  proof (cases "w s = 0 \<or> length s < w s")
    case True
    then show ?thesis by (metis drop0 drop_spaces.simps)
  next
    case False
    with 1 obtain n where "drop_spaces w (drop (w s) s) = drop n (drop (w s) s)" by blast
    with False show ?thesis by (metis drop_drop drop_spaces.simps)
  qed
qed

lemma lower_char_idem [simp]: "lower_char (lower_char c) = lower_char c"
proof (cases "of_char c \<in> {65..(90::nat)}")
  case True
  then have "of_char (char_of (of_char c + (32::nat)) :: char) = of_char c + (32::nat)"
    by (simp add: of_char_of)
  with True show ?thesis by (simp add: lower_char_def)
qed (auto simp: lower_char_def)

lemma ToLower_idem [simp]: "ToLower (ToLower s) = ToLower s"
  by (simp add: ToLower_def)

lemma EqualFold_refl [simp]: "EqualFold s s"
  by (simp add: EqualFold_def)

lemma EqualFold_sym: "EqualFold s t \<longleftrightarrow> EqualFold t s"
  by (auto simp: EqualFold_def)

lemma EqualFold_trans: "EqualFold s t \<Longrightarrow> EqualFold t u \<Longrightarrow> EqualFold s u"
  by (simp add: EqualFold_def)

lemma leading_space_take: "leading_space s = 0 \<Longrightarrow> leading_space (take n s) = 0"
  by (cases s rule: leading_space.cases; cases n; cases "n - 1"; cases "n - 2")
    (auto split: if_splits simp: numeral_2_eq_2 take_Cons' )

lemma rev_drop_rev: "rev (drop n (rev s)) = take (length s - n) s"
  by (simp add: rev_drop)

lemma leading_space_drop_spaces: "leading_space (drop_spaces leading_space s) = 0"
  using drop_spaces_done [of leading_space s] leading_space_le [of "drop_spaces leading_space s"]
  by linarith

lemma trailing_space_drop_spaces: "trailing_space (drop_spaces trailing_space s) = 0"
  using drop_spaces_done [of trailing_space s] trailing_space_le [of "drop_spaces trailing_space s"]
  by linarith

lemma TrimSpace_idem [simp]: "TrimSpace (TrimSpace s) = TrimSpace s"
proof -
  define x where "x = drop_spaces leading_space s"
  obtain n where n: "drop_spaces trailing_space (rev x) = drop n (rev x)"
    using drop_spaces_suffix by blast
  then have t: "TrimSpace s = take (length x - n) x"
    by (simp add: TrimSpace_def x_def [symmetric] rev_drop_rev)
  have "leading_space (TrimSpace s) = 0"
    unfolding t by (rule leading_space_take) (simp add: x_def leading_space_drop_spaces)
  then have "drop_spaces leading_space (TrimSpace s) = TrimSpace s"
    by (rule drop_spaces_stop)
  moreover have "drop_spaces trailing_space (rev (TrimSpace s)) = rev (TrimSpace s)"
    by (rule drop_spaces_stop) (simp add: TrimSpace_def trailing_space_drop_spaces)
  ultimately show ?thesis by (metis TrimSpace_def rev_rev_ident)
qed



section \<open>Maps as association lists\<close>

lemma map_of_update [simp]: "map_of (AList.update k v xs) j = (if j = k then Some v else map_of xs j)"
  by (simp add: update_conv')

lemma map_of_delete [simp]: "map_of (AList.delete k xs) j = (if j = k then None else map_of xs j)"
  by (simp add: delete_conv')

lemmas alist_distinct = distinct_update distinct_delete

lemma map_of_filter_keys: "map_of (filter (\<lambda>(k, v). P k) xs) k = (if P k then map_of xs k else None)"
  by (induction xs) auto

lemma lookup_kept:
  assumes "distinct (map fst es)"
  shows "map_of (filter Q es) key =
    (case map_of es key of Some w \<Rightarrow> (if Q (key, w) then Some w else None) | None \<Rightarrow> None)"
  using assms
proof (induction es)
  case (Cons e es)
  then show ?case
    by (cases "fst e = key") (auto simp: map_of_eq_None_iff split: option.split dest: map_of_SomeD)
qed simp

lemma distinct_filter_fst: "distinct (map fst xs) \<Longrightarrow> distinct (map fst (filter P xs))"
  by (induction xs) auto

lemma alist_length:
  "length (AList.update key x es) = (if key \<notin> fst ` set es then length es + 1 else length es)"
  by (induction es) auto

lemma length_delete_le: "length (AList.delete k xs) \<le> length xs"
  by (simp add: AList.delete_eq)

lemma length_delete_less: "k \<in> fst ` set xs \<Longrightarrow> length (AList.delete k xs) < length xs"
  by (auto simp: AList.delete_eq intro: length_filter_less)

lemma keys_update: "fst ` set (AList.update k v xs) = insert k (fst ` set xs)"
  by (induction xs) auto

lemma set_update_subset: "set (AList.update k v xs) \<subseteq> insert (k, v) (set xs)"
  by (induction xs) auto

lemma keys_delete: "fst ` set (AList.delete k xs) = fst ` set xs - {k}"
  by (auto simp: AList.delete_eq)


section \<open>Contracts shared by the components\<close>

text \<open>A component whose operations run one at a time (each under the component's mutex): an
  interleaving of callers is a list of operations, \<open>legal\<close> is what the callers guarantee about an
  operation in the state it runs in, and every operation keeps the invariant.\<close>

fun legal_run :: "('op \<Rightarrow> 's \<Rightarrow> 's) \<Rightarrow> ('op \<Rightarrow> 's \<Rightarrow> bool) \<Rightarrow> 'op list \<Rightarrow> 's \<Rightarrow> bool" where
  "legal_run exec legal [] s = True"
| "legal_run exec legal (x # xs) s = (legal x s \<and> legal_run exec legal xs (exec x s))"

lemma legal_run_append:
  "legal_run exec legal (xs @ ys) s \<longleftrightarrow> legal_run exec legal xs s \<and> legal_run exec legal ys (fold exec xs s)"
  by (induction xs arbitrary: s) auto

locale op_system =
  fixes exec :: "'op \<Rightarrow> 's \<Rightarrow> 's"
    and legal :: "'op \<Rightarrow> 's \<Rightarrow> bool"
    and inv :: "'s \<Rightarrow> bool"
  assumes step_inv: "inv s \<Longrightarrow> legal x s \<Longrightarrow> inv (exec x s)"
begin

lemma run_inv: "inv s \<Longrightarrow> legal_run exec legal xs s \<Longrightarrow> inv (fold exec xs s)"
  by (induction xs arbitrary: s) (auto intro: step_inv)

text \<open>A further property that every legal step from an invariant state keeps holds at the end too.\<close>

lemma run_preserves:
  assumes "inv s" "legal_run exec legal xs s" "P s"
    and "\<And>x s. x \<in> set xs \<Longrightarrow> inv s \<Longrightarrow> legal x s \<Longrightarrow> P s \<Longrightarrow> P (exec x s)"
  shows "P (fold exec xs s)"
  using assms by (induction xs arbitrary: s) (auto intro: step_inv)

end

text \<open>A component that keeps a bounded table: the invariant implies the bound and no operation changes
  the capacity.\<close>

locale bounded_store = op_system exec legal inv
  for exec :: "'op \<Rightarrow> 's \<Rightarrow> 's" and legal :: "'op \<Rightarrow> 's \<Rightarrow> bool" and inv :: "'s \<Rightarrow> bool" +
  fixes used :: "'s \<Rightarrow> int" and capacity :: "'s \<Rightarrow> int"
  assumes inv_bound: "inv s \<Longrightarrow> used s \<le> capacity s"
    and capacity_const: "capacity (exec x s) = capacity s"
begin

lemma run_capacity: "capacity (fold exec xs s) = capacity s"
  by (induction xs arbitrary: s) (simp_all add: capacity_const)

lemma run_bounded: "inv s \<Longrightarrow> legal_run exec legal xs s \<Longrightarrow> used (fold exec xs s) \<le> capacity s"
  using inv_bound [OF run_inv] by (simp add: run_capacity)

end

end
