(* ===== verification/Capacity_Clamp.thy ===== *)
theory Capacity_Clamp
  imports Go_Prelude
begin

text \<open>
  The operator ceiling on provider-reported capacity
  (\<open>phase4-coordinator/internal/pool/capacity_clamp.go\<close>): the triple
  (max_concurrency, slots_total, slots_free) a provider claims is clamped before it reaches
  the registry. \<open>used\<close> is a machine subtraction of two unchecked wire values and wraps.
\<close>

record ClampedCapacity =
  cc_MaxConcurrency :: int
  cc_SlotsTotal :: int
  cc_SlotsFree :: int
  cc_OverClaimed :: bool
  cc_ReportedMax :: int

definition ClampCapacity :: "int \<Rightarrow> int \<Rightarrow> int \<Rightarrow> int \<Rightarrow> ClampedCapacity" where
  "ClampCapacity maxConcurrency slotsTotal slotsFree ceiling =
     (if ceiling \<le> 0
      then \<lparr>cc_MaxConcurrency = maxConcurrency, cc_SlotsTotal = slotsTotal,
            cc_SlotsFree = slotsFree, cc_OverClaimed = False, cc_ReportedMax = maxConcurrency\<rparr>
      else
        let over = maxConcurrency > ceiling \<or> slotsTotal > ceiling \<or> maxConcurrency < 1;
            mc = (if maxConcurrency > ceiling then ceiling else maxConcurrency);
            mc = (if mc < 1 then 1 else mc);
            used = i64 (slotsTotal - slotsFree);
            used = (if used < 0 then 0 else used);
            total = (if slotsTotal > mc then mc else slotsTotal);
            total = (if total < 0 then 0 else total);
            used = (if used > total then total else used);
            free = (if total - used < slotsFree then total - used else slotsFree);
            free = (if free < 0 then 0 else free)
        in \<lparr>cc_MaxConcurrency = mc, cc_SlotsTotal = total, cc_SlotsFree = free,
            cc_OverClaimed = over, cc_ReportedMax = maxConcurrency\<rparr>)"

text \<open>A report is coherent when \<open>0 \<le> free \<le> total \<le> max\<close> and at least one slot is claimed.\<close>

definition coherent_capacity :: "int \<Rightarrow> int \<Rightarrow> int \<Rightarrow> bool" where
  "coherent_capacity m t f \<longleftrightarrow> 1 \<le> m \<and> 0 \<le> f \<and> f \<le> t \<and> t \<le> m"

lemma if_gt_min: "(if b < a then b else a) = min a (b::int)"
  by simp

lemma if_lt_max: "(if a < b then b else a) = max a (b::int)"
  by simp

lemma ClampCapacity_min_max:
  "0 < c \<Longrightarrow> ClampCapacity m t f c =
     (let mc = max (min m c) 1; total = max (min t mc) 0;
          used = min (max (i64 (t - f)) 0) total
      in \<lparr>cc_MaxConcurrency = mc, cc_SlotsTotal = total, cc_SlotsFree = max (min f (total - used)) 0,
          cc_OverClaimed = (m > c \<or> t > c \<or> m < 1), cc_ReportedMax = m\<rparr>)"
  unfolding ClampCapacity_def if_gt_min if_lt_max Let_def
  by (rule if_not_P) simp

lemma ClampCapacity_coherent:
  assumes "0 < c"
  shows "coherent_capacity (cc_MaxConcurrency (ClampCapacity m t f c))
     (cc_SlotsTotal (ClampCapacity m t f c)) (cc_SlotsFree (ClampCapacity m t f c))"
proof -
  define mc where "mc = max (min m c) 1"
  define total where "total = max (min t mc) 0"
  define used where "used = min (max (i64 (t - f)) 0) total"
  have "1 \<le> mc" by (simp add: mc_def)
  moreover have "0 \<le> total" "total \<le> mc" using \<open>1 \<le> mc\<close> by (simp_all add: total_def)
  moreover have "0 \<le> used" using \<open>0 \<le> total\<close> by (simp add: used_def)
  moreover have "ClampCapacity m t f c = \<lparr>cc_MaxConcurrency = mc, cc_SlotsTotal = total,
      cc_SlotsFree = max (min f (total - used)) 0,
      cc_OverClaimed = (m > c \<or> t > c \<or> m < 1), cc_ReportedMax = m\<rparr>"
    using assms by (simp only: ClampCapacity_min_max mc_def total_def used_def Let_def)
  ultimately show ?thesis by (simp add: coherent_capacity_def)
qed

lemma ClampCapacity_le_ceiling: "0 < c \<Longrightarrow> cc_MaxConcurrency (ClampCapacity m t f c) \<le> c"
  by (simp only: ClampCapacity_min_max Let_def ClampedCapacity.select_convs)

lemma ClampCapacity_disabled:
  "c \<le> 0 \<Longrightarrow> ClampCapacity m t f c = \<lparr>cc_MaxConcurrency = m, cc_SlotsTotal = t, cc_SlotsFree = f,
     cc_OverClaimed = False, cc_ReportedMax = m\<rparr>"
  by (simp add: ClampCapacity_def)

lemma coherent_used_fits:
  "coherent_capacity m t f \<Longrightarrow> fits_i64 t \<Longrightarrow> i64 (t - f) = t - f"
  by (rule i64_id) (auto simp: coherent_capacity_def fits_i64_def min_i64_def)

lemma ClampCapacity_honest:
  assumes "0 < c" "coherent_capacity m t f" "fits_i64 t"
  shows "ClampCapacity m t f c =
    \<lparr>cc_MaxConcurrency = min m c, cc_SlotsTotal = min t c,
     cc_SlotsFree = min t c - min (t - f) (min t c),
     cc_OverClaimed = (m > c), cc_ReportedMax = m\<rparr>"
proof -
  have "max (min m c) 1 = min m c" "max (min t (min m c)) 0 = min t c"
    "max (i64 (t - f)) 0 = t - f"
    using assms coherent_used_fits [OF assms(2,3)] by (auto simp: coherent_capacity_def)
  moreover have "max (min f (min t c - min (t - f) (min t c))) 0 = min t c - min (t - f) (min t c)"
    using assms by (auto simp: coherent_capacity_def)
  moreover have "(m > c \<or> t > c \<or> m < 1) = (m > c)"
    using assms by (auto simp: coherent_capacity_def)
  ultimately show ?thesis using assms(1) by (simp only: ClampCapacity_min_max Let_def)
qed

text \<open>C8. With the clamp active every effective triple is coherent and below the ceiling, whatever
  the provider reported: \<open>1 \<le> max_concurrency \<le> ceiling\<close> and
  \<open>0 \<le> slots_free \<le> slots_total \<le> max_concurrency\<close>. A coherent report keeps its number of used slots
  up to saturation of the clamped total, and a coherent report under the ceiling is unchanged.\<close>

theorem clamp_capacity_sound:
  assumes "0 < ceiling"
  shows "coherent_capacity (cc_MaxConcurrency (ClampCapacity m t f ceiling))
           (cc_SlotsTotal (ClampCapacity m t f ceiling)) (cc_SlotsFree (ClampCapacity m t f ceiling))
       \<and> cc_MaxConcurrency (ClampCapacity m t f ceiling) \<le> ceiling
       \<and> (coherent_capacity m t f \<and> fits_i64 t \<longrightarrow>
           cc_SlotsTotal (ClampCapacity m t f ceiling) - cc_SlotsFree (ClampCapacity m t f ceiling)
             = min (t - f) (cc_SlotsTotal (ClampCapacity m t f ceiling)))
       \<and> (coherent_capacity m t f \<and> fits_i64 t \<and> m \<le> ceiling \<longrightarrow>
           ClampCapacity m t f ceiling = \<lparr>cc_MaxConcurrency = m, cc_SlotsTotal = t, cc_SlotsFree = f,
             cc_OverClaimed = False, cc_ReportedMax = m\<rparr>)"
proof (intro conjI impI)
  assume h: "coherent_capacity m t f \<and> fits_i64 t \<and> m \<le> ceiling"
  then have "min m ceiling = m" "min t ceiling = t" "min (t - f) t = t - f"
    by (auto simp: coherent_capacity_def)
  with h assms show "ClampCapacity m t f ceiling = \<lparr>cc_MaxConcurrency = m, cc_SlotsTotal = t,
      cc_SlotsFree = f, cc_OverClaimed = False, cc_ReportedMax = m\<rparr>"
    by (simp add: ClampCapacity_honest)
qed (use assms in \<open>simp_all add: ClampCapacity_coherent ClampCapacity_le_ceiling ClampCapacity_honest\<close>)

theorem clamp_capacity_sound_witness:
  "cc_SlotsTotal (ClampCapacity 9999 9999 9996 8) - cc_SlotsFree (ClampCapacity 9999 9999 9996 8) = 3
   \<and> cc_MaxConcurrency (ClampCapacity 9999 9999 9996 8) \<le> 8
   \<and> ClampCapacity 4 4 1 8 = \<lparr>cc_MaxConcurrency = 4, cc_SlotsTotal = 4, cc_SlotsFree = 1,
        cc_OverClaimed = False, cc_ReportedMax = 4\<rparr>"
  using clamp_capacity_sound [of 8 9999 9999 9996] clamp_capacity_sound [of 8 4 4 1]
  by (simp add: coherent_capacity_def fits_i64_def min_i64_def max_i64_def ClampCapacity_honest)

end
