(* ===== verification/Version_Floor.thy ===== *)
theory Version_Floor
  imports Go_Prelude
begin

text \<open>
  Dotted version comparison and the per-model minimum-binary-version gate
  (\<open>phase4-coordinator/internal/versionfloor/versionfloor.go\<close>), with the load-time validation of
  the floors (\<open>internal/config/config.go\<close>, \<open>validateAdvertisedVersions\<close>). The map of floors is an
  association list in the order a \<open>range\<close> loop visits it.
\<close>

fun split_on :: "char \<Rightarrow> string \<Rightarrow> string list" where
  "split_on c [] = [[]]"
| "split_on c (x # xs) =
     (if x = c then [] # split_on c xs
      else case split_on c xs of [] \<Rightarrow> [[x]] | w # ws \<Rightarrow> (x # w) # ws)"

definition is_digit :: "char \<Rightarrow> bool" where
  "is_digit c \<longleftrightarrow> of_char c \<in> {48..(57::nat)}"

definition digits_value :: "string \<Rightarrow> int" where
  "digits_value s = foldl (\<lambda>n c. 10 * n + (of_char c - 48)) 0 s"

text \<open>\<open>strconv.Atoi\<close> on a non-empty digit string: only the range check can fail.\<close>

definition Atoi :: "string \<Rightarrow> int option" where
  "Atoi s = (if digits_value s \<le> max_i64 then Some (digits_value s) else None)"

definition parse_field :: "string \<Rightarrow> int option" where
  "parse_field field =
     (let field = TrimSpace field in
      if field = [] then None
      else if \<exists>c \<in> set field. \<not> is_digit c then None
      else Atoi field)"

fun parse_fields :: "string list \<Rightarrow> int list option" where
  "parse_fields [] = Some []"
| "parse_fields (f # fs) =
     (case parse_field f of None \<Rightarrow> None
      | Some n \<Rightarrow> (case parse_fields fs of None \<Rightarrow> None | Some ns \<Rightarrow> Some (n # ns)))"

definition parts :: "string \<Rightarrow> int list option" where
  "parts value =
     (let value = dropWhile (\<lambda>c. c = CHR ''v'' \<or> c = CHR ''V'') (TrimSpace value) in
      if value = [] then None
      else let fields = split_on (CHR ''.'') value in
        if length fields > 3 then None
        else map_option (\<lambda>out. out @ replicate (3 - length out) 0) (parse_fields fields))"

definition Valid :: "string \<Rightarrow> bool" where
  "Valid value \<longleftrightarrow> parts value \<noteq> None"

fun compare_loop :: "int list \<Rightarrow> int list \<Rightarrow> int" where
  "compare_loop [] [] = 0"
| "compare_loop ls rs =
     (let l = (case ls of [] \<Rightarrow> 0 | x # _ \<Rightarrow> x);
          r = (case rs of [] \<Rightarrow> 0 | x # _ \<Rightarrow> x)
      in if l < r then -1 else if l > r then 1 else compare_loop (tl ls) (tl rs))"

text \<open>\<open>Compare\<close> returns the ordering, or \<open>None\<close> where the code returns \<open>(0, false)\<close>.\<close>

definition Compare :: "string \<Rightarrow> string \<Rightarrow> int option" where
  "Compare lhs rhs =
     (case (parts lhs, parts rhs) of
        (Some l, Some r) \<Rightarrow> Some (compare_loop l r)
      | _ \<Rightarrow> None)"

record Result =
  res_Allowed :: bool
  res_Floor :: string
  res_Malformed :: bool

type_synonym floors = "(string \<times> string) list"

definition lookup :: "floors \<Rightarrow> string \<Rightarrow> string" where
  "lookup floors modelID =
     (case map_of floors modelID of
        Some v \<Rightarrow> TrimSpace v
      | None \<Rightarrow>
         (let target = ToLower (TrimSpace modelID) in
          if target = [] then []
          else (case find (\<lambda>kv. ToLower (TrimSpace (fst kv)) = target) floors of
                  Some kv \<Rightarrow> TrimSpace (snd kv)
                | None \<Rightarrow> [])))"

definition Check :: "floors \<Rightarrow> string \<Rightarrow> string \<Rightarrow> Result" where
  "Check floors modelID binaryVersion =
     (if floors = [] then \<lparr>res_Allowed = True, res_Floor = [], res_Malformed = False\<rparr>
      else let floor = lookup floors modelID in
        if floor = [] then \<lparr>res_Allowed = True, res_Floor = [], res_Malformed = False\<rparr>
        else (case Compare binaryVersion floor of
                None \<Rightarrow> \<lparr>res_Allowed = False, res_Floor = floor, res_Malformed = True\<rparr>
              | Some cmp \<Rightarrow>
                  if cmp < 0 then \<lparr>res_Allowed = False, res_Floor = floor, res_Malformed = False\<rparr>
                  else \<lparr>res_Allowed = True, res_Floor = floor, res_Malformed = False\<rparr>))"

text \<open>Load-time validation; \<open>False\<close> where the code returns an error.\<close>

record AdvertisedVersion =
  av_Required :: string
  av_Latest :: string
  av_PerModel :: floors

definition validateAdvertisedVersions :: "AdvertisedVersion \<Rightarrow> bool" where
  "validateAdvertisedVersions a \<longleftrightarrow>
     \<not> (TrimSpace (av_Required a) \<noteq> [] \<and> \<not> Valid (TrimSpace (av_Required a))) \<and>
     \<not> (TrimSpace (av_Latest a) \<noteq> [] \<and> \<not> Valid (TrimSpace (av_Latest a))) \<and>
     (\<forall>(modelID, floor) \<in> set (av_PerModel a). TrimSpace modelID \<noteq> [] \<and> Valid floor)"


section \<open>The comparison is the lexicographic order of the padded components\<close>

lemma parse_fields_length: "parse_fields fs = Some ns \<Longrightarrow> length ns = length fs"
  by (induction fs arbitrary: ns) (auto split: option.splits)

lemma parts_length: "parts v = Some xs \<Longrightarrow> length xs = 3"
  by (auto simp: parts_def Let_def split: if_splits dest: parse_fields_length)

lemma parts_TrimSpace [simp]: "parts (TrimSpace v) = parts v"
  by (simp add: parts_def)

lemma compare_loop_lex:
  "length xs = length ys \<Longrightarrow>
     compare_loop xs ys = (if xs = ys then 0 else if lexordp_eq xs ys then -1 else 1)"
  by (induction xs ys rule: list_induct2) auto

lemma Compare_lex:
  assumes "parts a = Some x" "parts b = Some y"
  shows "Compare a b = Some (if x = y then 0 else if lexordp_eq x y then -1 else 1)"
  using assms parts_length [OF assms(1)] parts_length [OF assms(2)]
  by (simp add: Compare_def compare_loop_lex)

lemma Compare_None: "Compare a b = None \<longleftrightarrow> \<not> Valid a \<or> \<not> Valid b"
  by (auto simp: Compare_def Valid_def split: option.splits)

lemma Compare_nonneg:
  assumes "parts a = Some x" "parts b = Some y"
  shows "Compare a b = Some c \<Longrightarrow> 0 \<le> c \<longleftrightarrow> lexordp_eq y x"
  using Compare_lex [OF assms]
  by (auto split: if_splits dest: lexordp_eq_antisym intro: lexordp_eq_refl)
    (use lexordp_eq_linear in blast)

lemma lookup_Nil [simp]: "lookup [] m = []"
  by (simp add: lookup_def Let_def)

lemma Check_Allowed:
  "res_Allowed (Check floors m v) \<longleftrightarrow> lookup floors m = [] \<or>
     (\<exists>x y. parts v = Some x \<and> parts (lookup floors m) = Some y \<and> lexordp_eq y x)"
proof (cases "parts v = None \<or> parts (lookup floors m) = None")
  case True
  then show ?thesis by (auto simp: Check_def Compare_def Let_def split: option.splits)
next
  case False
  then obtain x y where xy: "parts v = Some x" "parts (lookup floors m) = Some y" by auto
  then obtain c where c: "Compare v (lookup floors m) = Some c" using Compare_lex by blast
  from Compare_nonneg [OF xy c] show ?thesis
    by (auto simp: Check_def Let_def c xy)
qed

lemma Check_Malformed:
  "res_Malformed (Check floors m v) \<longleftrightarrow>
     lookup floors m \<noteq> [] \<and> (\<not> Valid v \<or> \<not> Valid (lookup floors m))"
  using Compare_None [of v "lookup floors m"]
  by (auto simp: Check_def Let_def split: option.splits)

lemma lookup_cases:
  "lookup floors m = [] \<or> (\<exists>k v. (k, v) \<in> set floors \<and> lookup floors m = TrimSpace v)"
  by (auto simp: lookup_def Let_def find_Some_iff split: option.splits dest: map_of_SomeD)
    (metis nth_mem surjective_pairing)

lemma validated_floor_Valid:
  assumes "validateAdvertisedVersions a" "lookup (av_PerModel a) m \<noteq> []"
  shows "Valid (lookup (av_PerModel a) m)"
  using assms lookup_cases [of "av_PerModel a" m]
  by (auto simp: validateAdvertisedVersions_def Valid_def)


section \<open>Order independence\<close>

definition norm_key :: "string \<times> string \<Rightarrow> string" where
  "norm_key kv = ToLower (TrimSpace (fst kv))"

lemma find_unique:
  assumes "inj_on f (set xs)" "mset xs = mset ys"
  shows "find (\<lambda>z. f z = t) xs = find (\<lambda>z. f z = t) ys"
proof -
  have same: "set xs = set ys" using assms(2) by (rule mset_eq_setD)
  show ?thesis
  proof (cases "find (\<lambda>z. f z = t) xs")
    case None
    then have "find (\<lambda>z. f z = t) ys = None" using same by (auto simp: find_None_iff)
    with None show ?thesis by simp
  next
    case (Some a)
    then have a: "f a = t" "a \<in> set xs" by (auto simp: find_Some_iff)
    then have "find (\<lambda>z. f z = t) ys \<noteq> None" using same by (auto simp: find_None_iff)
    then obtain b where b: "find (\<lambda>z. f z = t) ys = Some b" by auto
    then have "f b = t" "b \<in> set ys" by (auto simp: find_Some_iff)
    with a same assms(1) have "a = b" by (auto dest: inj_onD)
    with b Some show ?thesis by simp
  qed
qed

lemma lookup_perm:
  assumes "distinct (map fst xs)" "inj_on norm_key (set xs)" "mset xs = mset ys"
  shows "lookup xs m = lookup ys m"
proof -
  have "distinct (map fst ys)" using assms(1,3) by (metis mset_eq_imp_distinct_iff mset_map)
  then have "map_of xs m = map_of ys m"
    using assms(1) mset_eq_setD [OF assms(3)] map_of_eqI by (metis map_of_inject_set)
  moreover have "find (\<lambda>kv. ToLower (TrimSpace (fst kv)) = t) xs
      = find (\<lambda>kv. ToLower (TrimSpace (fst kv)) = t) ys" for t
    using find_unique [OF assms(2,3), of t] by (simp add: norm_key_def)
  ultimately show ?thesis unfolding lookup_def by presburger
qed


section \<open>Properties of the gate\<close>

text \<open>C12. On a configuration that passed load-time validation the per-model gate admits a provider
  exactly when no floor applies to its model or its reported version parses and is at least the
  floor in the lexicographic order of the padded components; the verdict is marked malformed exactly
  when a floor applies and the provider's own version does not parse (the malformed-floor branch is
  unreachable), and a malformed version is never admitted.\<close>

theorem version_floor_gate:
  assumes "validateAdvertisedVersions a"
  shows "(res_Allowed (Check (av_PerModel a) m v) \<longleftrightarrow> lookup (av_PerModel a) m = [] \<or>
            (\<exists>x y. parts v = Some x \<and> parts (lookup (av_PerModel a) m) = Some y \<and> lexordp_eq y x))
       \<and> (res_Malformed (Check (av_PerModel a) m v) \<longleftrightarrow>
            lookup (av_PerModel a) m \<noteq> [] \<and> \<not> Valid v)
       \<and> \<not> (res_Malformed (Check (av_PerModel a) m v) \<and> res_Allowed (Check (av_PerModel a) m v))"
  using validated_floor_Valid [OF assms, of m]
  by (auto simp: Check_Allowed Check_Malformed Valid_def)

theorem version_floor_gate_witness:
  "\<not> res_Allowed (Check [(''Foo'', ''1.8.65'')] ''foo'' ''v1.8.7'')
   \<and> res_Allowed (Check [(''Foo'', ''1.8.65'')] ''foo'' ''1.9'')
   \<and> res_Malformed (Check [(''Foo'', ''1.8.65'')] ''foo'' ''dev'')"
proof -
  have valid: "validateAdvertisedVersions \<lparr>av_Required = '' '', av_Latest = [],
      av_PerModel = [(''Foo'', ''1.8.65'')]\<rparr>" by code_simp
  have facts: "lookup [(''Foo'', ''1.8.65'')] ''foo'' = ''1.8.65''" "\<not> Valid ''dev''"
    "parts ''1.8.65'' = Some [1, 8, 65]" "parts ''v1.8.7'' = Some [1, 8, 7]"
    "parts ''1.9'' = Some [1, 9, 0]" by code_simp+
  show ?thesis
    using version_floor_gate [OF valid, of "''foo''" "''v1.8.7''"]
      version_floor_gate [OF valid, of "''foo''" "''1.9''"]
      version_floor_gate [OF valid, of "''foo''" "''dev''"]
    by (simp add: facts)
qed

text \<open>The gate is monotone in the version: if a build passes the gate for a model, then every
  build that compares at least as new passes it too.\<close>

theorem version_floor_monotone:
  assumes "res_Allowed (Check floors m v)" "Compare w v = Some c" "0 \<le> c"
  shows "res_Allowed (Check floors m w)"
proof (cases "lookup floors m = []")
  case False
  with assms(1) obtain x y where
    xy: "parts v = Some x" "parts (lookup floors m) = Some y" "lexordp_eq y x"
    by (auto simp: Check_Allowed)
  from assms(2) obtain z where z: "parts w = Some z"
    by (auto simp: Compare_def split: option.splits)
  from Compare_nonneg [OF z xy(1) assms(2)] assms(3) xy(3) have "lexordp_eq y z"
    by (auto intro: lexordp_eq_trans)
  with xy(2) z show ?thesis by (auto simp: Check_Allowed)
qed (simp add: Check_Allowed)

theorem version_floor_monotone_witness:
  "res_Allowed (Check [(''m'', ''1.8'')] ''M'' ''1.9.3'')"
  by (rule version_floor_monotone [of _ _ "''1.8.0''" _ 1]) code_simp+

text \<open>C13. When the configured model ids are pairwise different up to case and surrounding space, the
  verdict does not depend on the order in which the floor map is visited, so every call site of the
  gate reaches the same verdict.\<close>

theorem version_floor_order_independent:
  assumes "distinct (map fst xs)" "inj_on norm_key (set xs)" "mset xs = mset ys"
  shows "Check xs m v = Check ys m v"
proof -
  have "xs = [] \<longleftrightarrow> ys = []" using assms(3) by auto
  then show ?thesis using lookup_perm [OF assms] by (simp add: Check_def)
qed

theorem version_floor_order_independent_witness:
  "Check [(''a'', ''2''), (''B'', ''3'')] ''b'' ''2.5'' = Check [(''B'', ''3''), (''a'', ''2'')] ''b'' ''2.5''"
proof (rule version_floor_order_independent)
  have "norm_key (''a'', ''2'') = ''a''" "norm_key (''B'', ''3'') = ''b''" by code_simp+
  then show "inj_on norm_key (set [(''a'', ''2''), (''B'', ''3'')])" by (simp add: inj_on_def)
qed simp_all

text \<open>Validation accepts two keys that differ only in case, and then the verdict for a third
  spelling depends on the iteration order of the map.\<close>

lemma version_floor_order_dependent:
  "\<exists>a ys. validateAdvertisedVersions a \<and> distinct (map fst (av_PerModel a)) \<and>
     mset (av_PerModel a) = mset ys \<and>
     res_Allowed (Check (av_PerModel a) ''foo'' ''1.5'') \<noteq> res_Allowed (Check ys ''foo'' ''1.5'')"
proof -
  let ?a = "\<lparr>av_Required = [], av_Latest = [], av_PerModel = [(''Foo'', ''1''), (''FOO'', ''2'')]\<rparr>"
  have "validateAdvertisedVersions ?a" by code_simp
  moreover have "res_Allowed (Check [(''Foo'', ''1''), (''FOO'', ''2'')] ''foo'' ''1.5'')"
    "\<not> res_Allowed (Check [(''FOO'', ''2''), (''Foo'', ''1'')] ''foo'' ''1.5'')" by code_simp+
  ultimately show ?thesis
    by (intro exI [of _ ?a] exI [of _ "[(''FOO'', ''2''), (''Foo'', ''1'')]"]) simp
qed

end
