(* ===== verification/Billing_Formula.thy ===== *)
theory Billing_Formula
  imports Go_Prelude "HOL-Library.Monad_Syntax"
begin

text \<open>
  The credit formula (\<open>phase4-coordinator/internal/billing/formula.go\<close>): rate-card lookup, model-key
  normalisation, checked 64-bit arithmetic, half-even rounding and the computation of one billed row.
  All amounts are \<open>int64\<close>; every operation that can leave the range is written with \<open>i64\<close>.
  A \<open>*int64\<close> is an \<open>int option\<close>.
\<close>

abbreviation UsageProviderReported :: string where "UsageProviderReported \<equiv> ''provider_reported''"
abbreviation UsageByteEstimated :: string where "UsageByteEstimated \<equiv> ''byte_estimated''"
abbreviation UsageNullError :: string where "UsageNullError \<equiv> ''null_error''"
abbreviation FaultNone :: string where "FaultNone \<equiv> ''none''"
abbreviation FaultBreakerQualifying :: string where "FaultBreakerQualifying \<equiv> ''breaker_qualifying''"
abbreviation FaultNullUsageError :: string where "FaultNullUsageError \<equiv> ''null_usage_error''"

definition globalMultiplierDenom :: int where "globalMultiplierDenom = 1000000"
definition tokensPerMillion :: int where "tokensPerMillion = 1000000"
definition providerShareDenom :: int where "providerShareDenom = 10000"
definition maxBillableTokens :: int where "maxBillableTokens = 10000000"

lemmas billing_consts = globalMultiplierDenom_def tokensPerMillion_def providerShareDenom_def
  maxBillableTokens_def

record RateCardEntry =
  PromptCreditsPerMtok :: int
  PromptCacheHitCreditsPerMtok :: int
  CompletionCreditsPerMtok :: int
  promptCacheHitRateSet :: bool

definition zeroRate :: RateCardEntry where
  "zeroRate = \<lparr>PromptCreditsPerMtok = 0, PromptCacheHitCreditsPerMtok = 0,
     CompletionCreditsPerMtok = 0, promptCacheHitRateSet = False\<rparr>"

definition EffectivePromptCacheHitCreditsPerMtok :: "RateCardEntry \<Rightarrow> int" where
  "EffectivePromptCacheHitCreditsPerMtok e =
     (if promptCacheHitRateSet e \<or> PromptCacheHitCreditsPerMtok e \<noteq> 0 \<or> PromptCreditsPerMtok e = 0
      then PromptCacheHitCreditsPerMtok e else PromptCreditsPerMtok e)"

record BilledRow =
  GrossCredits :: int
  ProviderCredits :: int
  OperatorCredits :: int
  br_UsageSource :: string
  br_FaultFlag :: string
  br_PromptTokens :: "int option"
  br_CachedPromptTokens :: "int option"
  br_CompletionTokens :: "int option"
  br_EstimatedCompTokens :: "int option"
  PromptRatePerMtok :: int
  PromptCacheHitRatePerMtok :: int
  CompletionRatePerMtok :: int
  GlobalMultiplierPPM :: int
  ProviderShareBps :: int

definition knownModelNamespace :: "string \<Rightarrow> bool" where
  "knownModelNamespace ns \<longleftrightarrow>
     ns \<in> {''mlx-community'', ''openai'', ''google'', ''meta-llama'', ''nvidia'', ''qwen''}"

definition NormalizeModelKey :: "string \<Rightarrow> string" where
  "NormalizeModelKey model =
     (let key = ToLower (TrimSpace model);
          namespace = (if CHR ''/'' \<in> set key then takeWhile (\<lambda>c. c \<noteq> CHR ''/'') key else []);
          key = (if CHR ''/'' \<in> set key \<and> knownModelNamespace namespace
                 then tl (dropWhile (\<lambda>c. c \<noteq> CHR ''/'') key) else key);
          key = foldl TrimSuffix key [''-mxfp4-q8'', ''-4bit'', ''-8bit'']
      in if namespace = ''meta-llama'' \<and> HasPrefix key ''llama-'' then ''meta-llama/'' @ key
         else if HasPrefix key ''meta-llama-'' then ''meta-llama/'' @ TrimPrefix key ''meta-''
         else if HasPrefix key ''nvidia-nemotron-'' then TrimPrefix key ''nvidia-''
         else if HasPrefix key ''gpt-oss-'' then ''openai/'' @ key
         else key)"

definition RateFor :: "(string \<times> RateCardEntry) list \<Rightarrow> string \<Rightarrow> RateCardEntry" where
  "RateFor rateCard model =
     (case map_of rateCard model of
        Some entry \<Rightarrow> entry
      | None \<Rightarrow>
         (let normalized = NormalizeModelKey model in
          case (if normalized \<noteq> model then map_of rateCard normalized else None) of
            Some entry \<Rightarrow> entry
          | None \<Rightarrow> (case map_of rateCard ''default'' of Some entry \<Rightarrow> entry | None \<Rightarrow> zeroRate)))"

definition RoundHalfEven :: "int \<Rightarrow> int \<Rightarrow> int" where
  "RoundHalfEven numerator denominator =
     (if denominator \<le> 0 then 0
      else let q = numerator sdiv denominator;
               r = numerator smod denominator;
               r = (if r < 0 then - r else r);
               twice = i64 (r * 2)
           in if twice < denominator then q
              else if twice > denominator then (if numerator \<ge> 0 then i64 (q + 1) else i64 (q - 1))
              else if q smod 2 = 0 then q
              else if numerator \<ge> 0 then i64 (q + 1) else i64 (q - 1))"

text \<open>\<open>None\<close> stands for \<open>(0, false)\<close>.\<close>

definition checkedMul :: "int \<Rightarrow> int \<Rightarrow> int option" where
  "checkedMul a b =
     (if a < 0 \<or> b < 0 then None
      else if a = 0 \<or> b = 0 then Some 0
      else if a > max_i64 sdiv b then None
      else Some (i64 (a * b)))"

definition checkedAdd :: "int \<Rightarrow> int \<Rightarrow> int option" where
  "checkedAdd a b =
     (if a < 0 \<or> b < 0 then None
      else if a > i64 (max_i64 - b) then None
      else Some (i64 (a + b)))"

definition zeroCredits :: "BilledRow \<Rightarrow> BilledRow" where
  "zeroCredits row =
     (let row = row\<lparr>GrossCredits := 0, ProviderCredits := 0, OperatorCredits := 0\<rparr>
      in if br_FaultFlag row = FaultNullUsageError
         then row\<lparr>br_PromptTokens := None, br_CachedPromptTokens := None,
                  br_CompletionTokens := None, br_EstimatedCompTokens := None\<rparr>
         else row)"

text \<open>The triple of the code \<open>(tokens, ok, clampedToEstimate)\<close>; \<open>None\<close> when \<open>ok\<close> is false.\<close>

definition billableCompletion :: "string \<Rightarrow> int option \<Rightarrow> int option \<Rightarrow> (int \<times> bool) option" where
  "billableCompletion usageSource completionTokens estimatedCompletionTokens =
     (if usageSource = UsageByteEstimated then
        (case estimatedCompletionTokens of
           None \<Rightarrow> Some (0, False)
         | Some estimate \<Rightarrow>
             if estimate < 0 then None
             else (case completionTokens of
                     None \<Rightarrow> Some (estimate, False)
                   | Some reported \<Rightarrow>
                       if reported < 0 then None
                       else if reported < estimate then Some (reported, False)
                       else Some (estimate, False)))
      else
        (case completionTokens of
           None \<Rightarrow> (case estimatedCompletionTokens of
                      None \<Rightarrow> Some (0, False)
                    | Some estimate \<Rightarrow> Some (estimate, True))
         | Some reported \<Rightarrow>
             if reported < 0 then None
             else (case estimatedCompletionTokens of
                     None \<Rightarrow> Some (reported, False)
                   | Some estimate \<Rightarrow>
                       if estimate < 0 then None
                       else if estimate < reported then Some (estimate, True)
                       else Some (reported, False))))"

definition invalidBillableTokenCount :: "int \<Rightarrow> bool" where
  "invalidBillableTokenCount v \<longleftrightarrow> v < 0 \<or> v > maxBillableTokens"

definition usageFor :: "string \<Rightarrow> int option \<Rightarrow> string" where
  "usageFor errorCode estimatedCompletionTokens =
     (if errorCode \<in> {''error_model_not_loaded'', ''error_context_exceeded'', ''error_queue_full'',
         ''error_internal''} then UsageNullError
      else if estimatedCompletionTokens \<noteq> None then UsageByteEstimated
      else UsageProviderReported)"

text \<open>The arithmetic of the code between the token checks and the returned row: \<open>None\<close> as soon as
  one of the checked operations fails, and otherwise the gross and provider credits.\<close>

definition creditsFor ::
  "int \<Rightarrow> int \<Rightarrow> int \<Rightarrow> int \<Rightarrow> int \<Rightarrow> int \<Rightarrow> int \<Rightarrow> int \<Rightarrow> (int \<times> int) option" where
  "creditsFor uncached cached completion promptRate cacheRate completionRate multiplierPPM shareBps =
     do {
       uncachedPromptNumerator \<leftarrow> checkedMul uncached promptRate;
       cachedPromptNumerator \<leftarrow> checkedMul cached cacheRate;
       promptNumerator \<leftarrow> checkedAdd uncachedPromptNumerator cachedPromptNumerator;
       completionNumerator \<leftarrow> checkedMul completion completionRate;
       baseNumerator \<leftarrow> checkedAdd promptNumerator completionNumerator;
       rateScaled \<leftarrow> checkedMul baseNumerator multiplierPPM;
       let gross = RoundHalfEven rateScaled (globalMultiplierDenom * tokensPerMillion);
       providerNumerator \<leftarrow> checkedMul gross shareBps;
       Some (gross, RoundHalfEven providerNumerator providerShareDenom)
     }"

definition deref0 :: "int option \<Rightarrow> int" where
  "deref0 p = (case p of None \<Rightarrow> 0 | Some v \<Rightarrow> v)"

definition ComputeCreditsWithCache ::
  "int option \<Rightarrow> int option \<Rightarrow> int option \<Rightarrow> int option \<Rightarrow> string \<Rightarrow> string \<Rightarrow> RateCardEntry
     \<Rightarrow> int \<Rightarrow> int \<Rightarrow> BilledRow" where
  "ComputeCreditsWithCache promptTokens cachedPromptTokens completionTokens estimatedCompletionTokens
     usageSource faultFlag rateEntry multiplierPPM providerShareBps =
   (let usageSource = (if usageSource = [] then UsageProviderReported else usageSource);
        faultFlag = (if faultFlag = [] then FaultNone else faultFlag);
        row = \<lparr>GrossCredits = 0, ProviderCredits = 0, OperatorCredits = 0,
               br_UsageSource = usageSource, br_FaultFlag = faultFlag,
               br_PromptTokens = promptTokens, br_CachedPromptTokens = cachedPromptTokens,
               br_CompletionTokens = completionTokens,
               br_EstimatedCompTokens = estimatedCompletionTokens,
               PromptRatePerMtok = PromptCreditsPerMtok rateEntry,
               PromptCacheHitRatePerMtok = EffectivePromptCacheHitCreditsPerMtok rateEntry,
               CompletionRatePerMtok = CompletionCreditsPerMtok rateEntry,
               GlobalMultiplierPPM = multiplierPPM, ProviderShareBps = providerShareBps\<rparr>;
        nullError = zeroCredits (row\<lparr>br_FaultFlag := FaultNullUsageError,
                                     br_UsageSource := UsageNullError\<rparr>)
    in if br_FaultFlag row = FaultBreakerQualifying then row
       else if br_UsageSource row = UsageNullError then row\<lparr>br_FaultFlag := FaultNullUsageError\<rparr>
       else
         (let prompt = deref0 promptTokens;
              cached = deref0 cachedPromptTokens
          in case billableCompletion (br_UsageSource row) completionTokens estimatedCompletionTokens of
               None \<Rightarrow> nullError
             | Some (completion, clampedToEstimate) \<Rightarrow>
                 (let row = row\<lparr>br_UsageSource :=
                        (if br_UsageSource row = UsageByteEstimated then br_UsageSource row
                         else if clampedToEstimate then UsageByteEstimated
                         else UsageProviderReported)\<rparr>
                  in if invalidBillableTokenCount prompt \<or> invalidBillableTokenCount cached
                        \<or> cached > prompt \<or> invalidBillableTokenCount completion
                     then nullError
                     else (case creditsFor (prompt - cached) cached completion
                                  (PromptCreditsPerMtok rateEntry) (PromptCacheHitRatePerMtok row)
                                  (CompletionCreditsPerMtok rateEntry) multiplierPPM
                                  providerShareBps of
                             None \<Rightarrow> nullError
                           | Some (gross, provider) \<Rightarrow>
                               row\<lparr>GrossCredits := gross, ProviderCredits := provider,
                                   OperatorCredits := i64 (gross - provider)\<rparr>))))"

definition ComputeCredits ::
  "int option \<Rightarrow> int option \<Rightarrow> int option \<Rightarrow> string \<Rightarrow> string \<Rightarrow> RateCardEntry
     \<Rightarrow> int \<Rightarrow> int \<Rightarrow> BilledRow" where
  "ComputeCredits promptTokens completionTokens estimatedCompletionTokens usageSource faultFlag
     rateEntry multiplierPPM providerShareBps =
   ComputeCreditsWithCache promptTokens None completionTokens estimatedCompletionTokens usageSource
     faultFlag rateEntry multiplierPPM providerShareBps"


section \<open>Checked arithmetic and rounding\<close>

lemma le_div_iff_int: "0 < b \<Longrightarrow> a \<le> n div b \<longleftrightarrow> a * b \<le> (n::int)"
proof
  assume "0 < b" "a \<le> n div b"
  then have "a * b \<le> n div b * b" by (simp add: mult_right_mono)
  also have "\<dots> \<le> n" using \<open>0 < b\<close> by (simp add: minus_mod_eq_div_mult [symmetric])
  finally show "a * b \<le> n" .
next
  assume "0 < b" "a * b \<le> n"
  then show "a \<le> n div b" using zdiv_mono1 [of "a * b" n b] by simp
qed

lemma checkedMul_Some:
  assumes "fits_i64 a" "fits_i64 b"
  shows "checkedMul a b = Some c \<longleftrightarrow> 0 \<le> a \<and> 0 \<le> b \<and> a * b \<le> max_i64 \<and> c = a * b"
proof (cases "a \<le> 0 \<or> b \<le> 0")
  case True
  then show ?thesis by (auto simp: checkedMul_def max_i64_def)
next
  case False
  then have "a \<le> max_i64 sdiv b \<longleftrightarrow> a * b \<le> max_i64"
    by (simp add: sdiv_nonneg max_i64_def le_div_iff_int)
  moreover have "a * b \<le> max_i64 \<Longrightarrow> i64 (a * b) = a * b"
    using False by (auto simp: fits_i64_def min_i64_def intro!: i64_id order_trans [OF _ mult_nonneg_nonneg])
  ultimately show ?thesis using False by (auto simp: checkedMul_def not_less)
qed

lemma checkedAdd_Some:
  assumes "fits_i64 a" "fits_i64 b"
  shows "checkedAdd a b = Some c \<longleftrightarrow> 0 \<le> a \<and> 0 \<le> b \<and> a + b \<le> max_i64 \<and> c = a + b"
proof (cases "a < 0 \<or> b < 0")
  case False
  then have "i64 (max_i64 - b) = max_i64 - b" "a + b \<le> max_i64 \<Longrightarrow> i64 (a + b) = a + b"
    using assms by (auto simp: fits_i64_def min_i64_def max_i64_def intro!: i64_id)
  with False show ?thesis by (auto simp: checkedAdd_def)
qed (auto simp: checkedAdd_def)

lemma checkedMul_fits: "checkedMul a b = Some c \<Longrightarrow> fits_i64 c"
  by (auto simp: checkedMul_def split: if_splits) (simp_all add: fits_i64_def min_i64_def max_i64_def)

lemma checkedAdd_fits: "checkedAdd a b = Some c \<Longrightarrow> fits_i64 c"
  by (auto simp: checkedAdd_def split: if_splits)

text \<open>\<open>q\<close> is the half-even rounding of \<open>n / d\<close>.\<close>

definition is_half_even :: "int \<Rightarrow> int \<Rightarrow> int \<Rightarrow> bool" where
  "is_half_even n d q \<longleftrightarrow> 2 * \<bar>n - d * q\<bar> \<le> d \<and> (2 * \<bar>n - d * q\<bar> = d \<longrightarrow> even q)"

lemma abs_two_close:
  fixes n x y d :: int
  assumes "2 * \<bar>n - x\<bar> \<le> d" "2 * \<bar>n - y\<bar> \<le> d"
  shows "\<bar>x - y\<bar> \<le> d" and "\<bar>x - y\<bar> = d \<Longrightarrow> 2 * \<bar>n - x\<bar> = d \<and> 2 * \<bar>n - y\<bar> = d"
  using assms by (simp_all add: abs_if split: if_splits)

lemma is_half_even_unique:
  assumes "0 < d" "is_half_even n d p" "is_half_even n d q"
  shows "p = q"
proof (rule ccontr)
  assume "p \<noteq> q"
  have close: "2 * \<bar>n - d * p\<bar> \<le> d" "2 * \<bar>n - d * q\<bar> \<le> d"
    using assms(2,3) by (simp_all add: is_half_even_def)
  then have "\<bar>d * p - d * q\<bar> \<le> d * 1" using abs_two_close(1) by simp
  moreover have dist: "\<bar>d * p - d * q\<bar> = d * \<bar>p - q\<bar>"
    using assms(1) by (simp add: right_diff_distrib [symmetric] abs_mult)
  ultimately have "\<bar>p - q\<bar> \<le> 1" using assms(1) by (simp only: mult_le_cancel_left_pos)
  with \<open>p \<noteq> q\<close> have one: "\<bar>p - q\<bar> = 1" by linarith
  with dist have "2 * \<bar>n - d * p\<bar> = d" "2 * \<bar>n - d * q\<bar> = d"
    using abs_two_close(2) [OF close] by simp_all
  then have "even p" "even q" using assms(2,3) by (simp_all add: is_half_even_def)
  moreover have "p = q + 1 \<or> q = p + 1" using one by linarith
  ultimately show False by auto
qed

definition rhe :: "int \<Rightarrow> int \<Rightarrow> int" where
  "rhe a d = (let q = a div d; r = a mod d in
     if 2 * r < d then q else if 2 * r > d then q + 1 else if even q then q else q + 1)"

lemma rhe_half_even:
  assumes "0 \<le> a" "0 < d"
  shows "is_half_even a d (rhe a d)" "0 \<le> rhe a d" "rhe a d \<le> a"
proof -
  define q r where "q = a div d" and "r = a mod d"
  have a: "a = d * q + r" "0 \<le> r" "r < d" "0 \<le> q"
    using assms by (simp_all add: q_def r_def pos_imp_zdiv_nonneg_iff)
  have eq: "rhe a d = (if 2 * r < d then q else if 2 * r > d then q + 1 else if even q then q else q + 1)"
    by (simp add: rhe_def q_def r_def Let_def)
  have diff: "a - d * q = r" "a - d * (q + 1) = r - d" using a(1) by (simp_all add: algebra_simps)
  show "is_half_even a d (rhe a d)" using a(2,3) by (auto simp: eq is_half_even_def diff)
  show "0 \<le> rhe a d" unfolding eq using a(4) by simp
  have "1 * q \<le> d * q" using a(4) assms(2) by (intro mult_right_mono) auto
  moreover have "d \<le> 2 * r \<Longrightarrow> 1 \<le> r" using assms(2) by linarith
  ultimately show "rhe a d \<le> a" unfolding eq using a(1,2) by auto
qed

lemma RoundHalfEven_rhe:
  assumes "fits_i64 n" "0 < d" "d \<le> 4611686018427387904"
  shows "RoundHalfEven n d = (if 0 \<le> n then rhe n d else - rhe (- n) d)"
proof -
  define q r where "q = \<bar>n\<bar> div d" and "r = \<bar>n\<bar> mod d"
  have a: "\<bar>n\<bar> = d * q + r" "0 \<le> r" "r < d" "0 \<le> q"
    using assms by (simp_all add: q_def r_def pos_imp_zdiv_nonneg_iff)
  have sq: "n sdiv d = (if 0 \<le> n then q else - q)" "n smod d = (if 0 \<le> n then r else - r)"
    using assms by (auto simp: signed_divide_int_def signed_modulo_int_def q_def r_def sgn_if)
  have tw: "i64 (r * 2) = r * 2" "0 < r \<Longrightarrow> i64 (- r * 2) = - r * 2"
    using a assms by (auto intro!: i64_id simp: fits_i64_def min_i64_def max_i64_def)
  have "1 * q \<le> d * q" using a(4) assms(2) by (intro mult_right_mono) auto
  then have "0 < r \<Longrightarrow> q + 1 \<le> \<bar>n\<bar>" using a by linarith
  then have q1: "0 < r \<Longrightarrow> 0 \<le> n \<Longrightarrow> i64 (q + 1) = q + 1" "0 < r \<Longrightarrow> n < 0 \<Longrightarrow> i64 (- q - 1) = - q - 1"
    using assms(1) a(4) by (auto intro!: i64_id simp: fits_i64_def min_i64_def max_i64_def)
  have par: "q smod 2 = 0 \<longleftrightarrow> even q" "(- q) smod 2 = 0 \<longleftrightarrow> even q"
    using a(4) by (auto simp: signed_modulo_int_def sgn_if even_iff_mod_2_eq_zero)
  have pos: "d \<le> r * 2 \<Longrightarrow> 0 < r" using assms(2) by linarith
  show ?thesis
  proof (cases "0 \<le> n")
    case True
    then have "n div d = q" "n mod d = r" by (simp_all add: q_def r_def)
    with True show ?thesis using assms(2) a(2) tw q1 par pos
      by (auto simp: RoundHalfEven_def rhe_def Let_def sq mult.commute)
  next
    case False
    then have "- n div d = q" "- n mod d = r" by (simp_all add: q_def r_def)
    with False show ?thesis using assms(2) a(2) tw q1 par pos
      by (auto simp: RoundHalfEven_def rhe_def Let_def sq mult.commute)
  qed
qed

lemma is_half_even_minus: "is_half_even (- n) d (- q) \<longleftrightarrow> is_half_even n d q"
  by (simp add: is_half_even_def abs_minus_commute)

lemma RoundHalfEven_half_even:
  assumes "fits_i64 n" "0 < d" "d \<le> 4611686018427387904"
  shows "is_half_even n d (RoundHalfEven n d)"
  using rhe_half_even(1) [of n d] rhe_half_even(1) [of "- n" d] assms
    is_half_even_minus [of n d "- rhe (- n) d"]
  by (simp add: RoundHalfEven_rhe)

lemma RoundHalfEven_nonneg:
  assumes "0 \<le> n" "fits_i64 n" "0 < d" "d \<le> 4611686018427387904"
  shows "0 \<le> RoundHalfEven n d" "RoundHalfEven n d \<le> n" "fits_i64 (RoundHalfEven n d)"
  using rhe_half_even(2,3) [of n d] assms by (auto simp: RoundHalfEven_rhe fits_i64_def min_i64_def)

lemma is_half_even_mono:
  assumes "0 < d" "is_half_even n d p" "is_half_even n' d q" "n \<le> n'"
  shows "p \<le> q"
proof (rule ccontr)
  assume "\<not> p \<le> q"
  then have "d * (q + 1) \<le> d * p" using assms(1) by simp
  then have "d * q + d \<le> d * p" by (simp add: algebra_simps)
  moreover have "2 * (d * p - n) \<le> d" "2 * (n' - d * q) \<le> d"
    using assms(2,3) by (auto simp: is_half_even_def abs_if split: if_splits)
  ultimately have "2 * n' \<le> 2 * n" by (simp add: algebra_simps)
  then have "n' = n" using assms(4) by simp
  with assms is_half_even_unique \<open>\<not> p \<le> q\<close> show False by blast
qed

lemma is_half_even_exact: "0 < d \<Longrightarrow> is_half_even (g * d) d g"
  by (simp add: is_half_even_def)


section \<open>The billed row\<close>

lemma creditsFor_exact:
  assumes "creditsFor u c k pr cr kr m s = Some (g, p)"
    and "fits_i64 u" "fits_i64 c" "fits_i64 k" "fits_i64 pr" "fits_i64 cr" "fits_i64 kr"
    and "fits_i64 m" "fits_i64 s"
  shows "is_half_even ((u * pr + c * cr + k * kr) * m) (globalMultiplierDenom * tokensPerMillion) g"
    and "is_half_even (g * s) providerShareDenom p"
    and "0 \<le> g" "0 \<le> p" "fits_i64 g" "fits_i64 p" "0 \<le> s"
proof -
  from assms(1) obtain a b ab kk base scaled pn where
    steps: "checkedMul u pr = Some a" "checkedMul c cr = Some b" "checkedAdd a b = Some ab"
      "checkedMul k kr = Some kk" "checkedAdd ab kk = Some base" "checkedMul base m = Some scaled"
    and g: "g = RoundHalfEven scaled (globalMultiplierDenom * tokensPerMillion)"
    and pn: "checkedMul g s = Some pn" and p: "p = RoundHalfEven pn providerShareDenom"
    by (auto simp: creditsFor_def Let_def split: Option.bind_splits)
  have fit: "fits_i64 a" "fits_i64 b" "fits_i64 ab" "fits_i64 kk" "fits_i64 base" "fits_i64 scaled"
    using steps by (auto dest: checkedMul_fits checkedAdd_fits)
  have scaled: "scaled = (u * pr + c * cr + k * kr) * m" "0 \<le> scaled"
    using steps assms fit by (auto simp: checkedMul_Some checkedAdd_Some)
  show g1: "is_half_even ((u * pr + c * cr + k * kr) * m) (globalMultiplierDenom * tokensPerMillion) g"
    using fit(6) RoundHalfEven_half_even [of scaled "globalMultiplierDenom * tokensPerMillion"]
    by (simp add: g scaled billing_consts)
  show "0 \<le> g" and fg: "fits_i64 g"
    using fit(6) scaled(2) RoundHalfEven_nonneg [of scaled "globalMultiplierDenom * tokensPerMillion"]
    by (simp_all add: g billing_consts)
  have pn': "pn = g * s" "0 \<le> pn" "0 \<le> s" "fits_i64 pn"
    using pn fg assms(9) checkedMul_fits [OF pn] by (auto simp: checkedMul_Some)
  show "is_half_even (g * s) providerShareDenom p"
    using pn'(1,4) RoundHalfEven_half_even [of pn providerShareDenom] by (simp add: p billing_consts)
  show "0 \<le> p" "fits_i64 p"
    using pn' RoundHalfEven_nonneg [of pn providerShareDenom] by (simp_all add: p billing_consts)
  show "0 \<le> s" by (rule pn'(3))
qed

lemma provider_le_gross:
  assumes "is_half_even (g * s) providerShareDenom p" "0 \<le> g" "s \<le> providerShareDenom"
  shows "p \<le> g"
  using assms is_half_even_mono [OF _ assms(1) is_half_even_exact, of g]
  by (simp add: billing_consts mult_left_mono)

definition fault_row :: "BilledRow \<Rightarrow> bool" where
  "fault_row r \<longleftrightarrow> GrossCredits r = 0 \<and> ProviderCredits r = 0 \<and> OperatorCredits r = 0 \<and>
     br_FaultFlag r \<in> {FaultBreakerQualifying, FaultNullUsageError}"

definition billable_tokens :: "int option \<Rightarrow> int option \<Rightarrow> int \<Rightarrow> bool" where
  "billable_tokens prompt cached k \<longleftrightarrow>
     \<not> invalidBillableTokenCount (deref0 prompt) \<and> \<not> invalidBillableTokenCount (deref0 cached) \<and>
     deref0 cached \<le> deref0 prompt \<and> \<not> invalidBillableTokenCount k"

lemma ComputeCredits_fault:
  assumes "fault = FaultBreakerQualifying \<or> usage = UsageNullError \<or>
     billableCompletion (if usage = [] then UsageProviderReported else usage) completion estimate = None"
  shows "fault_row (ComputeCreditsWithCache prompt cached completion estimate usage fault entry m s)"
  using assms
  by (auto simp: ComputeCreditsWithCache_def Let_def fault_row_def zeroCredits_def)

lemma ComputeCredits_invalid:
  assumes "billableCompletion (if usage = [] then UsageProviderReported else usage) completion estimate
      = Some (k, e)" "\<not> billable_tokens prompt cached k"
  shows "fault_row (ComputeCreditsWithCache prompt cached completion estimate usage fault entry m s)"
proof (cases "fault = FaultBreakerQualifying \<or> usage = UsageNullError")
  case False
  have "invalidBillableTokenCount (deref0 prompt) \<or> invalidBillableTokenCount (deref0 cached) \<or>
      deref0 cached > deref0 prompt \<or> invalidBillableTokenCount k"
    using assms(2) by (auto simp: billable_tokens_def)
  with assms(1) False show ?thesis
    by (simp add: ComputeCreditsWithCache_def Let_def fault_row_def zeroCredits_def)
qed (auto intro: ComputeCredits_fault)

lemma ComputeCredits_overflow:
  assumes "billableCompletion (if usage = [] then UsageProviderReported else usage) completion estimate
      = Some (k, e)" "billable_tokens prompt cached k"
    "creditsFor (deref0 prompt - deref0 cached) (deref0 cached) k (PromptCreditsPerMtok entry)
       (EffectivePromptCacheHitCreditsPerMtok entry) (CompletionCreditsPerMtok entry) m s = None"
  shows "fault_row (ComputeCreditsWithCache prompt cached completion estimate usage fault entry m s)"
proof (cases "fault = FaultBreakerQualifying \<or> usage = UsageNullError")
  case False
  with assms show ?thesis
    by (simp add: ComputeCreditsWithCache_def Let_def fault_row_def zeroCredits_def
        billable_tokens_def)
qed (auto intro: ComputeCredits_fault)

lemma ComputeCredits_billed:
  assumes "fault \<noteq> FaultBreakerQualifying" "usage \<noteq> UsageNullError"
    "billableCompletion (if usage = [] then UsageProviderReported else usage) completion estimate
      = Some (k, e)" "billable_tokens prompt cached k"
    "creditsFor (deref0 prompt - deref0 cached) (deref0 cached) k (PromptCreditsPerMtok entry)
       (EffectivePromptCacheHitCreditsPerMtok entry) (CompletionCreditsPerMtok entry) m s = Some (g, p)"
  defines "row \<equiv> ComputeCreditsWithCache prompt cached completion estimate usage fault entry m s"
  shows "GrossCredits row = g" "ProviderCredits row = p" "OperatorCredits row = i64 (g - p)"
    "br_FaultFlag row = (if fault = [] then FaultNone else fault)"
  using assms(1-5) unfolding row_def
  by (simp_all add: ComputeCreditsWithCache_def Let_def billable_tokens_def)


lemma billableCompletion_le:
  "billableCompletion u completion estimate = Some (k, e) \<Longrightarrow>
     (\<forall>r. completion = Some r \<longrightarrow> k \<le> max 0 r) \<and> (\<forall>x. estimate = Some x \<longrightarrow> k \<le> max 0 x)"
  by (auto simp: billableCompletion_def split: option.splits if_splits)

lemma tokens_fit: "\<not> invalidBillableTokenCount v \<Longrightarrow> fits_i64 v"
  by (simp add: invalidBillableTokenCount_def fits_i64_def min_i64_def max_i64_def billing_consts)

lemma billable_tokens_fit:
  assumes "billable_tokens prompt cached k"
  shows "fits_i64 (deref0 prompt - deref0 cached)" "fits_i64 (deref0 cached)" "fits_i64 k"
proof -
  show "fits_i64 (deref0 cached)" "fits_i64 k"
    using assms by (simp_all add: billable_tokens_def tokens_fit)
  have "\<not> invalidBillableTokenCount (deref0 prompt - deref0 cached)"
    using assms by (auto simp: billable_tokens_def invalidBillableTokenCount_def)
  then show "fits_i64 (deref0 prompt - deref0 cached)" by (rule tokens_fit)
qed

lemma EffectiveRate_fits:
  "fits_i64 (PromptCreditsPerMtok e) \<Longrightarrow> fits_i64 (PromptCacheHitCreditsPerMtok e) \<Longrightarrow>
     fits_i64 (EffectivePromptCacheHitCreditsPerMtok e)"
  by (simp add: EffectivePromptCacheHitCreditsPerMtok_def)

definition fits_entry :: "RateCardEntry \<Rightarrow> bool" where
  "fits_entry e \<longleftrightarrow> fits_i64 (PromptCreditsPerMtok e) \<and> fits_i64 (PromptCacheHitCreditsPerMtok e) \<and>
     fits_i64 (CompletionCreditsPerMtok e)"

text \<open>Every row is a fault row, or carries the exactly rounded amounts.\<close>

lemma billed_row_cases:
  fixes prompt cached completion estimate usage fault entry m s
  defines "row \<equiv> ComputeCreditsWithCache prompt cached completion estimate usage fault entry m s"
  assumes "fits_entry entry" "fits_i64 m" "fits_i64 s"
  obtains (fault) "fault_row row"
  | (billed) k e g p where
      "billableCompletion (if usage = [] then UsageProviderReported else usage) completion estimate
         = Some (k, e)"
      "billable_tokens prompt cached k"
      "GrossCredits row = g" "ProviderCredits row = p" "OperatorCredits row = g - p"
      "0 \<le> g" "0 \<le> p" "0 \<le> s"
      "is_half_even (((deref0 prompt - deref0 cached) * PromptCreditsPerMtok entry
          + deref0 cached * EffectivePromptCacheHitCreditsPerMtok entry
          + k * CompletionCreditsPerMtok entry) * m) (globalMultiplierDenom * tokensPerMillion) g"
      "is_half_even (g * s) providerShareDenom p"
proof -
  let ?b = "billableCompletion (if usage = [] then UsageProviderReported else usage) completion estimate"
  consider "fault_row row" | k e g p where "fault \<noteq> FaultBreakerQualifying" "usage \<noteq> UsageNullError"
    "?b = Some (k, e)" "billable_tokens prompt cached k"
    "creditsFor (deref0 prompt - deref0 cached) (deref0 cached) k (PromptCreditsPerMtok entry)
       (EffectivePromptCacheHitCreditsPerMtok entry) (CompletionCreditsPerMtok entry) m s = Some (g, p)"
    unfolding row_def
    by (metis ComputeCredits_fault ComputeCredits_invalid ComputeCredits_overflow option.exhaust surj_pair)
  then show thesis
  proof cases
    case (2 k e g p)
    note fits = billable_tokens_fit [OF 2(4)] assms(2-4) EffectiveRate_fits [of entry]
    have ex: "is_half_even (((deref0 prompt - deref0 cached) * PromptCreditsPerMtok entry
          + deref0 cached * EffectivePromptCacheHitCreditsPerMtok entry
          + k * CompletionCreditsPerMtok entry) * m) (globalMultiplierDenom * tokensPerMillion) g"
      "is_half_even (g * s) providerShareDenom p" "0 \<le> g" "0 \<le> p" "fits_i64 g" "fits_i64 p" "0 \<le> s"
      using creditsFor_exact [OF 2(5)] fits by (simp_all add: fits_entry_def)
    then have "i64 (g - p) = g - p" by (intro i64_id) (auto simp: fits_i64_def min_i64_def max_i64_def)
    with 2 ex billed [of k e g p] show thesis
      using ComputeCredits_billed [OF 2] by (simp add: row_def)
  qed (rule fault)
qed


section \<open>Properties\<close>

text \<open>C9. Every billed row splits its gross credits exactly: provider and operator credits add up to the
  gross, neither is negative and the provider never receives more than the gross, for every 64-bit
  rate card, multiplier and share of at most 100 percent, including fault and overflow rows.\<close>

theorem billing_split_conserved:
  fixes prompt cached completion estimate usage fault
  assumes "fits_entry entry" "fits_i64 m" "fits_i64 s" "s \<le> providerShareDenom"
  defines "row \<equiv> ComputeCreditsWithCache prompt cached completion estimate usage fault entry m s"
  shows "GrossCredits row = ProviderCredits row + OperatorCredits row
       \<and> 0 \<le> ProviderCredits row \<and> ProviderCredits row \<le> GrossCredits row"
proof (cases rule: billed_row_cases [OF assms(1-3), of prompt cached completion estimate usage fault])
  case (2 k e g p)
  then show ?thesis
    using provider_le_gross [OF _ _ assms(4), of g p] by (simp add: row_def)
qed (simp add: fault_row_def row_def)

theorem billing_split_conserved_witness:
  "GrossCredits (ComputeCreditsWithCache (Some 10) (Some 3) (Some 7) (Some 6) [] []
     \<lparr>PromptCreditsPerMtok = 1000000, PromptCacheHitCreditsPerMtok = 0,
      CompletionCreditsPerMtok = 3000000, promptCacheHitRateSet = False\<rparr> 1500000 7000) = 42
   \<and> ProviderCredits (ComputeCreditsWithCache (Some 10) (Some 3) (Some 7) (Some 6) [] []
     \<lparr>PromptCreditsPerMtok = 1000000, PromptCacheHitCreditsPerMtok = 0,
      CompletionCreditsPerMtok = 3000000, promptCacheHitRateSet = False\<rparr> 1500000 7000)
   + OperatorCredits (ComputeCreditsWithCache (Some 10) (Some 3) (Some 7) (Some 6) [] []
     \<lparr>PromptCreditsPerMtok = 1000000, PromptCacheHitCreditsPerMtok = 0,
      CompletionCreditsPerMtok = 3000000, promptCacheHitRateSet = False\<rparr> 1500000 7000) = 42"
  (is "GrossCredits ?row = 42 \<and> _")
proof -
  have "GrossCredits ?row = 42" by code_simp
  then show ?thesis
    using billing_split_conserved [of "\<lparr>PromptCreditsPerMtok = 1000000, PromptCacheHitCreditsPerMtok = 0,
      CompletionCreditsPerMtok = 3000000, promptCacheHitRateSet = False\<rparr>" 1500000 7000
      "Some 10" "Some 3" "Some 7" "Some 6" "[]" "[]"]
    by (simp add: fits_entry_def fits_i64_def min_i64_def max_i64_def billing_consts)
qed

text \<open>C10. A row that carries no fault is exact: no intermediate product or sum wrapped, the gross is the
  half-even rounding of the exact rational price of the uncached prompt, cached prompt and completion
  tokens, the provider credit is the half-even rounding of its share, and the completion tokens
  charged exceed neither the provider's own count nor the coordinator's estimate.\<close>

theorem billing_row_exact:
  fixes prompt cached completion estimate usage fault
  assumes "fits_entry entry" "fits_i64 m" "fits_i64 s"
  defines "row \<equiv> ComputeCreditsWithCache prompt cached completion estimate usage fault entry m s"
  assumes "br_FaultFlag row \<notin> {FaultBreakerQualifying, FaultNullUsageError}"
  shows "\<exists>k. is_half_even (((deref0 prompt - deref0 cached) * PromptCreditsPerMtok entry
               + deref0 cached * EffectivePromptCacheHitCreditsPerMtok entry
               + k * CompletionCreditsPerMtok entry) * m)
               (globalMultiplierDenom * tokensPerMillion) (GrossCredits row)
       \<and> is_half_even (GrossCredits row * s) providerShareDenom (ProviderCredits row)
       \<and> 0 \<le> k \<and> k \<le> maxBillableTokens
       \<and> (\<forall>r. completion = Some r \<longrightarrow> k \<le> max 0 r) \<and> (\<forall>x. estimate = Some x \<longrightarrow> k \<le> max 0 x)"
proof (cases rule: billed_row_cases [OF assms(1-3), of prompt cached completion estimate usage fault])
  case 1
  with assms(5) show ?thesis by (simp add: fault_row_def row_def)
next
  case (2 k e g p)
  then show ?thesis
    using billableCompletion_le [OF 2(1)]
    by (intro exI [of _ k]) (simp add: row_def billable_tokens_def invalidBillableTokenCount_def not_less)
qed

theorem billing_row_exact_witness:
  "\<exists>k. is_half_even (((10 - 3) * 1000000 + 3 * 1000000 + k * 3000000) * 1500000) 1000000000000
     (GrossCredits (ComputeCreditsWithCache (Some 10) (Some 3) (Some 7) (Some 6) [] []
       \<lparr>PromptCreditsPerMtok = 1000000, PromptCacheHitCreditsPerMtok = 0,
        CompletionCreditsPerMtok = 3000000, promptCacheHitRateSet = False\<rparr> 1500000 7000))
   \<and> k \<le> 6"
  (is "\<exists>k. is_half_even (?n k) _ (GrossCredits ?row) \<and> _")
proof -
  have flag: "br_FaultFlag ?row = FaultNone" by code_simp
  have eff: "EffectivePromptCacheHitCreditsPerMtok \<lparr>PromptCreditsPerMtok = 1000000,
      PromptCacheHitCreditsPerMtok = 0, CompletionCreditsPerMtok = 3000000,
      promptCacheHitRateSet = False\<rparr> = 1000000" by code_simp
  show ?thesis
    using billing_row_exact [of "\<lparr>PromptCreditsPerMtok = 1000000, PromptCacheHitCreditsPerMtok = 0,
      CompletionCreditsPerMtok = 3000000, promptCacheHitRateSet = False\<rparr>" 1500000 7000
      "Some 10" "Some 3" "Some 7" "Some 6" "[]" "[]"] flag
    by (auto simp: fits_entry_def fits_i64_def min_i64_def max_i64_def billing_consts deref0_def eff)
qed

text \<open>C11. \<open>RoundHalfEven\<close> returns the unique nearest integer with ties to even, for positive and negative
  64-bit numerators and every denominator up to \<open>2^62\<close>.\<close>

theorem round_half_even_correct:
  assumes "fits_i64 n" "0 < d" "d \<le> 4611686018427387904"
  shows "is_half_even n d q \<longleftrightarrow> q = RoundHalfEven n d"
  using RoundHalfEven_half_even [OF assms] is_half_even_unique [OF assms(2)] by blast

theorem round_half_even_correct_witness: "RoundHalfEven (- 7) 2 = - 4 \<and> RoundHalfEven 5 2 = 2"
  using round_half_even_correct [of "- 7" 2 "- 4"] round_half_even_correct [of 5 2 2]
  by (simp add: is_half_even_def fits_i64_def min_i64_def max_i64_def)

end
