(* ===== verification/Go_Float.thy ===== *)
theory Go_Float
  imports Complex_Main Go_Prelude
begin

text \<open>
  Go's \<open>float64\<close>: the IEEE 754 binary64 values as rationals together with the two infinities and
  NaN, arithmetic by exact rational computation followed by round-to-nearest-even, and the IEEE
  comparisons, which are all false when an operand is NaN. The two zeros are not distinguished: a
  division by zero takes its sign from the numerator.
\<close>

datatype f64 = NaN | PInf | NInf | Fin rat

definition IsNaN :: "f64 \<Rightarrow> bool" where "IsNaN x \<longleftrightarrow> x = NaN"
definition IsInf :: "f64 \<Rightarrow> bool" where "IsInf x \<longleftrightarrow> x = PInf \<or> x = NInf"

text \<open>\<open>bitlen n\<close> is the number of binary digits of a positive \<open>n\<close>.\<close>

function bitlen :: "int \<Rightarrow> nat" where
  "bitlen n = (if n \<le> 0 then 0 else Suc (bitlen (n div 2)))"
  by auto
termination by (relation "measure nat") auto

declare bitlen.simps [simp del]

definition pow2 :: "int \<Rightarrow> rat" where
  "pow2 e = (if 0 \<le> e then 2 ^ nat e else 1 / 2 ^ nat (- e))"

text \<open>The exponent \<open>e\<close> of a positive rational \<open>n / d\<close>: \<open>2^e \<le> n / d < 2^(e+1)\<close>.\<close>

definition exponent :: "rat \<Rightarrow> int" where
  "exponent a =
     (let (n, d) = quotient_of a; k = int (bitlen n) - int (bitlen d)
      in if pow2 k \<le> a then k else k - 1)"

definition round_even :: "rat \<Rightarrow> int" where
  "round_even a =
     (let q = floor a; r = a - of_int q
      in if r < 1/2 then q else if r > 1/2 then q + 1 else if even q then q else q + 1)"

definition rnd_abs :: "rat \<Rightarrow> rat" where
  "rnd_abs a = (let u = pow2 (max (exponent a - 52) (- 1074)) in of_int (round_even (a / u)) * u)"

definition rnd :: "rat \<Rightarrow> f64" where
  "rnd x =
     (if x = 0 then Fin 0
      else let a = rnd_abs \<bar>x\<bar>
           in if a \<ge> pow2 1024 then (if x > 0 then PInf else NInf)
              else Fin (if x > 0 then a else - a))"

fun fneg :: "f64 \<Rightarrow> f64" where
  "fneg NaN = NaN" | "fneg PInf = NInf" | "fneg NInf = PInf" | "fneg (Fin x) = Fin (- x)"

fun fadd :: "f64 \<Rightarrow> f64 \<Rightarrow> f64" where
  "fadd NaN _ = NaN" | "fadd _ NaN = NaN"
| "fadd (Fin x) (Fin y) = rnd (x + y)"
| "fadd PInf NInf = NaN" | "fadd NInf PInf = NaN"
| "fadd PInf _ = PInf" | "fadd _ PInf = PInf"
| "fadd NInf _ = NInf" | "fadd _ NInf = NInf"

definition fsub :: "f64 \<Rightarrow> f64 \<Rightarrow> f64" where
  "fsub x y = fadd x (fneg y)"

definition finf :: "bool \<Rightarrow> f64" where
  "finf pos = (if pos then PInf else NInf)"

fun fsgn :: "f64 \<Rightarrow> int" where
  "fsgn NaN = 0" | "fsgn PInf = 1" | "fsgn NInf = - 1"
| "fsgn (Fin x) = (if x > 0 then 1 else if x < 0 then - 1 else 0)"

fun fmul :: "f64 \<Rightarrow> f64 \<Rightarrow> f64" where
  "fmul NaN _ = NaN" | "fmul _ NaN = NaN"
| "fmul (Fin x) (Fin y) = rnd (x * y)"
| "fmul x y = (if fsgn x * fsgn y = 0 then NaN else finf (fsgn x * fsgn y > 0))"

fun fdiv :: "f64 \<Rightarrow> f64 \<Rightarrow> f64" where
  "fdiv NaN _ = NaN" | "fdiv _ NaN = NaN"
| "fdiv (Fin x) (Fin y) = (if y = 0 then (if x = 0 then NaN else finf (x > 0)) else rnd (x / y))"
| "fdiv (Fin x) _ = Fin 0"
| "fdiv x (Fin y) = finf (fsgn x * (if y < 0 then - 1 else 1) > 0)"
| "fdiv _ _ = NaN"

fun flt :: "f64 \<Rightarrow> f64 \<Rightarrow> bool" where
  "flt NaN _ = False" | "flt _ NaN = False"
| "flt (Fin x) (Fin y) = (x < y)"
| "flt NInf y = (y \<noteq> NInf)" | "flt PInf y = False"
| "flt (Fin x) PInf = True" | "flt (Fin x) NInf = False"

definition feq :: "f64 \<Rightarrow> f64 \<Rightarrow> bool" where
  "feq x y \<longleftrightarrow> x \<noteq> NaN \<and> x = y"

definition fle :: "f64 \<Rightarrow> f64 \<Rightarrow> bool" where
  "fle x y \<longleftrightarrow> flt x y \<or> feq x y"

lemma flt_NaN [simp]: "\<not> flt x NaN" "\<not> flt NaN x"
  by (cases x; simp)+

lemma flt_irrefl [simp]: "\<not> flt x x"
  by (cases x) auto

lemma flt_trans: "flt x y \<Longrightarrow> flt y z \<Longrightarrow> flt x z"
  by (cases x; cases y; cases z) auto

lemma flt_asym: "flt x y \<Longrightarrow> \<not> flt y x"
  using flt_trans flt_irrefl by blast

lemma flt_linear: "x \<noteq> NaN \<Longrightarrow> y \<noteq> NaN \<Longrightarrow> flt x y \<or> x = y \<or> flt y x"
  by (cases x; cases y) auto

lemma not_flt_trans:
  "x \<noteq> NaN \<Longrightarrow> y \<noteq> NaN \<Longrightarrow> z \<noteq> NaN \<Longrightarrow> \<not> flt x y \<Longrightarrow> \<not> flt y z \<Longrightarrow> \<not> flt x z"
  by (cases x; cases y; cases z) auto

end
