(* ===== verification/Pool_Types.thy ===== *)
theory Pool_Types
  imports Go_Float
begin

text \<open>
  The provider entry of the pool (\<open>phase4-coordinator/internal/pool/provider.go\<close>): its enumerations,
  its fields and the predicates over one entry. The string enumerations are datatypes with one
  constructor per constant and one for the zero value; the frame handlers reject every other string
  before it reaches the pool (\<open>validState\<close>). The fields are grouped into sub-records by the operations
  that write them; fields that no operation of the pool reads or writes after registration
  (\<open>Hostname\<close>, \<open>ConnectedAt\<close>, the catalog release identifiers, the admitted hardware tuple and the
  admission cap) are left out. Byte slices are \<open>string\<close>, with \<open>nil\<close> the empty list, and a pointer to
  an immutable value is an \<open>option\<close>.
\<close>

datatype State = StateUnset | StateReady | StateBusy | StateDegraded | StateDraining | StateUnavailable

datatype Tier = TierUnset | TierPinned | TierProvisional | TierRejected

datatype InferencePath = InferencePathUnset | InferencePathHTTPForwarding | InferencePathWSTunneled

datatype RecoveryReason = RecoveryReasonBreaker | RecoveryReasonProviderFailure
  | RecoveryReasonCanary | RecoveryReasonOperatorClear

datatype HashStatus = HashStatusUnset | HashStatusVerified | HashStatusMismatch | HashStatusInvalid
  | HashStatusUncatalogued | HashStatusCatalogUnavailable

datatype AttestationStatus = AttestationStatusUnset | AttestationStatusAttested
  | AttestationStatusFailed | AttestationStatusStale | AttestationStatusUnsupported
  | AttestationStatusNotRequired

datatype AuthState = AuthUnset | AuthBearerValidated | AuthSelfMinted | AuthSelfMintedVerified
  | AuthBearerlessDuplicate | AuthMintFailed

record Capacity =
  ModelParamsB :: f64
  RAMGB :: int
  MaxContextTokens :: int
  MaxConcurrency :: int
  SlotsFree :: int
  SlotsTotal :: int
  ThroughputTPSEstimate :: f64
  RequestsServedSinceLast :: int
  ThroughputTPSSinceLast :: f64

record ModelIdentity =
  ModelHash :: string
  ModelHashAlgorithm :: string
  WeightsManifestSHA256 :: string
  WeightsHashAlgorithm :: string
  ExpectedModelHash :: string

record ReceiptPubkeyPrevious =
  rp_Pubkey :: string
  rp_RotatedAt :: time
  rp_ExpiresAt :: time

record ReceiptKeys =
  ReceiptPubkey :: string
  ReceiptPubkeyPrev :: "ReceiptPubkeyPrevious option"
  PendingReceiptPubkey :: string

record CanaryState =
  CanaryFailCount :: int
  CanaryLastCheckedAt :: "time option"
  CanaryLastFailedAt :: "time option"
  CanaryLastTTFTMS :: int
  CanaryLastSustainedTPS :: f64

record AdmissionGateFlags =
  AdmissionCeilingExcluded :: bool
  AdmissionEvidenceStale :: bool
  AdmissionSandboxed :: bool

record Attestation =
  p_AttestationStatus :: AttestationStatus
  SEPublicKey :: string
  AttestationTier :: string
  LastSELivenessAt :: "time option"
  SELivenessFailCount :: int

record ProviderHardwareCapacity =
  Chip :: string
  BandwidthGBPerSec :: int
  NetworkPowerKW :: f64
  GPUCoresTotal :: int
  CPUCoresTotal :: int

record Tier2Session =
  t2_C2PKey :: string
  t2_P2CKey :: string
  t2_C2PNonceBase :: string
  t2_P2CNonceBase :: string
  t2_KeyID :: string

record Provider =
  ProviderID :: string
  AssignedID :: string
  ModelID :: string
  EndpointURL :: string
  p_Tier :: Tier
  p_AuthState :: AuthState
  p_InferencePath :: InferencePath
  HTTPForwardingOnly :: bool
  p_State :: State
  LastHeartbeatAt :: time
  LastActivityAt :: time
  BinaryVersion :: string
  EncryptedLeg :: bool
  CatalogAdmissionMode :: string
  p_Capacity :: Capacity
  p_Identity :: ModelIdentity
  p_HashStatus :: HashStatus
  p_Receipt :: ReceiptKeys
  p_Canary :: CanaryState
  BenchmarkQuarantined :: bool
  p_Gate :: AdmissionGateFlags
  AdmissionSandboxCredentialBypassed :: bool
  LastBuyerSuccessAt :: "time option"
  LastAutoupdateEvent :: string
  HardwareCapacity :: "ProviderHardwareCapacity option"
  SafetyTelemetry :: "(string \<times> time) option"
  ModelClassOPoIPass :: "bool option"
  p_Attestation :: Attestation
  SupportedModels :: "string list"
  LastLoadingState :: bool
  LoadingStartedAt :: time
  p_Tier2Session :: "Tier2Session option"
  conn :: "nat option"

text \<open>The zero value \<open>Provider{}\<close>.\<close>

definition zeroProvider :: Provider where
  "zeroProvider = \<lparr>ProviderID = [], AssignedID = [], ModelID = [], EndpointURL = [],
     p_Tier = TierUnset, p_AuthState = AuthUnset, p_InferencePath = InferencePathUnset,
     HTTPForwardingOnly = False, p_State = StateUnset, LastHeartbeatAt = 0, LastActivityAt = 0,
     BinaryVersion = [], EncryptedLeg = False, CatalogAdmissionMode = [],
     p_Capacity = \<lparr>ModelParamsB = Fin 0, RAMGB = 0, MaxContextTokens = 0, MaxConcurrency = 0,
       SlotsFree = 0, SlotsTotal = 0, ThroughputTPSEstimate = Fin 0, RequestsServedSinceLast = 0,
       ThroughputTPSSinceLast = Fin 0\<rparr>,
     p_Identity = \<lparr>ModelHash = [], ModelHashAlgorithm = [], WeightsManifestSHA256 = [],
       WeightsHashAlgorithm = [], ExpectedModelHash = []\<rparr>,
     p_HashStatus = HashStatusUnset,
     p_Receipt = \<lparr>ReceiptPubkey = [], ReceiptPubkeyPrev = None, PendingReceiptPubkey = []\<rparr>,
     p_Canary = \<lparr>CanaryFailCount = 0, CanaryLastCheckedAt = None, CanaryLastFailedAt = None,
       CanaryLastTTFTMS = 0, CanaryLastSustainedTPS = Fin 0\<rparr>,
     BenchmarkQuarantined = False,
     p_Gate = \<lparr>AdmissionCeilingExcluded = False, AdmissionEvidenceStale = False,
       AdmissionSandboxed = False\<rparr>,
     AdmissionSandboxCredentialBypassed = False, LastBuyerSuccessAt = None,
     LastAutoupdateEvent = [], HardwareCapacity = None, SafetyTelemetry = None,
     ModelClassOPoIPass = None,
     p_Attestation = \<lparr>p_AttestationStatus = AttestationStatusUnset, SEPublicKey = [],
       AttestationTier = [], LastSELivenessAt = None, SELivenessFailCount = 0\<rparr>,
     SupportedModels = [], LastLoadingState = False, LoadingStartedAt = 0, p_Tier2Session = None,
     conn = None\<rparr>"

text \<open>The part \<open>RoutingEligible\<close> and \<open>ServingCapable\<close> share: no exclusion applies to the session.\<close>

definition not_excluded :: "Provider \<Rightarrow> bool" where
  "not_excluded p \<longleftrightarrow>
     \<not> (p_AuthState p = AuthBearerlessDuplicate \<or> p_AuthState p = AuthSelfMinted) \<and>
     \<not> (CatalogAdmissionMode p = ''legacy'' \<or> CatalogAdmissionMode p = ''update_bridge'') \<and>
     PendingReceiptPubkey (p_Receipt p) = [] \<and>
     \<not> BenchmarkQuarantined p \<and>
     \<not> (AdmissionCeilingExcluded (p_Gate p) \<or> AdmissionEvidenceStale (p_Gate p)
         \<or> AdmissionSandboxed (p_Gate p))"

definition RoutingEligible :: "Provider \<Rightarrow> bool" where
  "RoutingEligible p \<longleftrightarrow>
     not_excluded p \<and> p_State p = StateReady \<and> SlotsFree (p_Capacity p) > 0"

definition ServingCapable :: "Provider \<Rightarrow> bool" where
  "ServingCapable p \<longleftrightarrow> not_excluded p \<and> (p_State p = StateReady \<or> p_State p = StateBusy)"

definition CapacityEligible :: "Provider \<Rightarrow> bool" where
  "CapacityEligible p \<longleftrightarrow> ServingCapable p"

definition IsWSTunneled :: "Provider \<Rightarrow> bool" where
  "IsWSTunneled p \<longleftrightarrow> p_InferencePath p = InferencePathWSTunneled \<and> \<not> HTTPForwardingOnly p"

definition SortKey :: "Provider \<Rightarrow> string" where
  "SortKey p = ProviderID p @ ''/'' @ AssignedID p"

definition providerCredentialBearing :: "AuthState \<Rightarrow> bool" where
  "providerCredentialBearing auth \<longleftrightarrow>
     auth \<in> {AuthBearerValidated, AuthSelfMinted, AuthSelfMintedVerified}"

definition providerServesActiveModel :: "Provider \<Rightarrow> string \<Rightarrow> bool" where
  "providerServesActiveModel p modelID \<longleftrightarrow> EqualFold (ModelID p) modelID"

definition validState :: "State \<Rightarrow> bool" where
  "validState s \<longleftrightarrow> s \<noteq> StateUnset"

text \<open>Truncation to whole UTF-8 sequences. A \<open>range\<close> loop over a string visits the first byte of each
  decoded sequence; a byte that starts no valid sequence is a sequence of its own.\<close>

definition continuation :: "char \<Rightarrow> nat \<Rightarrow> nat \<Rightarrow> bool" where
  "continuation c lo hi \<longleftrightarrow> of_char c \<in> {lo..hi}"

definition rune_width :: "string \<Rightarrow> nat" where
  "rune_width s =
     (case s of [] \<Rightarrow> 0
      | a # r \<Rightarrow>
         (let x = of_char a :: nat;
              lo = (if x = 0xE0 then 0xA0 else if x = 0xF0 then 0x90 else 0x80);
              hi = (if x = 0xED then 0x9F else if x = 0xF4 then 0x8F else 0xBF);
              n = (if 0xC2 \<le> x \<and> x \<le> 0xDF then 2 else if 0xE0 \<le> x \<and> x \<le> 0xEF then 3
                   else if 0xF0 \<le> x \<and> x \<le> 0xF4 then 4 else 1)
          in if n \<le> length s \<and> (n > 1 \<longrightarrow> continuation (s ! 1) lo hi)
                \<and> (\<forall>i \<in> {2..<n}. continuation (s ! i) 0x80 0xBF)
             then n else 1))"

text \<open>The largest sequence start that is at most \<open>maxBytes\<close>, from the start \<open>i\<close>.\<close>

function last_start :: "nat \<Rightarrow> nat \<Rightarrow> nat \<Rightarrow> string \<Rightarrow> nat" where
  "last_start maxBytes i lst s =
     (if s = [] \<or> i > maxBytes then lst
      else last_start maxBytes (i + rune_width s) i (drop (rune_width s) s))"
  by pat_completeness auto
termination
proof (relation "measure (\<lambda>(_, _, _, s). length s)")
  fix maxBytes i lst :: nat and s :: string
  assume "\<not> (s = [] \<or> i > maxBytes)"
  then have "0 < rune_width s" "s \<noteq> []" by (auto simp: rune_width_def Let_def split: list.splits)
  then show "((maxBytes, i + rune_width s, i, drop (rune_width s) s), maxBytes, i, lst, s)
      \<in> measure (\<lambda>(_, _, _, s). length s)" by simp
qed simp

declare last_start.simps [simp del]

definition truncateUTF8Bytes :: "string \<Rightarrow> nat \<Rightarrow> string" where
  "truncateUTF8Bytes s maxBytes =
     (if maxBytes = 0 \<or> length s \<le> maxBytes then s
      else let lst = last_start maxBytes 0 0 s in if lst = 0 then [] else take lst s)"

definition clampInt :: "int \<Rightarrow> int \<Rightarrow> int" where
  "clampInt hi v = (if v < 0 then 0 else if v > hi then hi else v)"

definition sanitizeProviderHardwareCapacity ::
  "ProviderHardwareCapacity option \<Rightarrow> ProviderHardwareCapacity option" where
  "sanitizeProviderHardwareCapacity inp =
     (case inp of None \<Rightarrow> None
      | Some c \<Rightarrow>
         (let chip = TrimSpace (Chip c);
              chip = (if length chip > 120 then truncateUTF8Bytes chip 120 else chip);
              bw = clampInt 10000 (BandwidthGBPerSec c);
              kw = (let v = NetworkPowerKW c in
                    if flt v (Fin 0) \<or> IsNaN v \<or> IsInf v then Fin 0
                    else if flt (Fin 10) v then Fin 10 else v);
              gpu = clampInt 4096 (GPUCoresTotal c);
              cpu = clampInt 1024 (CPUCoresTotal c)
          in if chip = [] \<and> bw = 0 \<and> feq kw (Fin 0) \<and> gpu = 0 \<and> cpu = 0 then None
             else Some \<lparr>Chip = chip, BandwidthGBPerSec = bw, NetworkPowerKW = kw,
                        GPUCoresTotal = gpu, CPUCoresTotal = cpu\<rparr>))"

end
