(* ===== verification/Pool_Registry.thy ===== *)
theory Pool_Registry
  imports Pool_Types
begin

text \<open>
  The provider registry (\<open>phase4-coordinator/internal/pool/provider.go\<close>, type \<open>Registry\<close>). Every
  method runs under the registry mutex, so a method is a function from the registry to its next
  state and its result, and an interleaving of handlers is a sequence of methods.

  Go keeps \<open>*Provider\<close> pointers in two maps: \<open>providers\<close> (by provider id) and \<open>sessions\<close> (by assigned
  id). The objects live in an explicit heap, both maps hold addresses, and a method that updates
  \<open>*p\<close> updates the heap cell, so an update made through one map is seen through the other. The maps
  that a method iterates over are association lists, the others are functions. The emitters and the
  log lines are left out.
\<close>

type_synonym addr = nat

record recoveryHold =
  h_assignedID :: string
  h_reason :: RecoveryReason

record canarySanction =
  s_failCount :: int
  s_lastCheckedAt :: "time option"
  s_lastFailedAt :: "time option"

record Registry =
  heap :: "addr \<rightharpoonup> Provider"
  next_addr :: addr
  providers :: "(string \<times> addr) list"
  sessions :: "string \<rightharpoonup> addr"
  buyerServing :: "(Provider \<Rightarrow> bool) option"
  seenModelsByProvider :: "(string \<times> string list) list"
  seenModelsLifetime :: "string list"
  lifetimeContribByProvider :: "string \<Rightarrow> nat"
  lifetimeCapWarnedOnce :: bool
  lifetimeCapDroppedCount :: nat
  breakerFaults :: "string \<rightharpoonup> time list"
  recoveryHolds :: "string \<rightharpoonup> recoveryHold"
  canarySanctions :: "(string \<times> canarySanction) list"
  lastBreakerRecoveries :: "string \<rightharpoonup> time"
  hashVerifier :: "(string \<Rightarrow> string \<Rightarrow> HashStatus) option"
  modelIdentityVerifier :: "(string \<Rightarrow> string \<Rightarrow> string \<Rightarrow> string \<Rightarrow> HashStatus) option"

definition NewRegistry :: Registry where
  "NewRegistry = \<lparr>heap = Map.empty, next_addr = 0, providers = [], sessions = Map.empty,
     buyerServing = None, seenModelsByProvider = [], seenModelsLifetime = [],
     lifetimeContribByProvider = (\<lambda>_. 0), lifetimeCapWarnedOnce = False,
     lifetimeCapDroppedCount = 0, breakerFaults = Map.empty, recoveryHolds = Map.empty,
     canarySanctions = [], lastBreakerRecoveries = Map.empty, hashVerifier = None,
     modelIdentityVerifier = None\<rparr>"


section \<open>Access to the objects\<close>

text \<open>\<open>r.providers[providerID]\<close>, with the object it points to.\<close>

definition lookup_provider :: "Registry \<Rightarrow> string \<Rightarrow> (addr \<times> Provider) option" where
  "lookup_provider r providerID =
     (case map_of (providers r) providerID of
        None \<Rightarrow> None
      | Some a \<Rightarrow> map_option (Pair a) (heap r a))"

text \<open>The guard \<open>p == nil || p.AssignedID != assignedID\<close> of the session-scoped methods.\<close>

definition session_of :: "Registry \<Rightarrow> string \<Rightarrow> string \<Rightarrow> (addr \<times> Provider) option" where
  "session_of r providerID assignedID =
     (case lookup_provider r providerID of
        None \<Rightarrow> None
      | Some (a, p) \<Rightarrow> if AssignedID p = assignedID then Some (a, p) else None)"

definition put :: "addr \<Rightarrow> Provider \<Rightarrow> Registry \<Rightarrow> Registry" where
  "put a p r = r\<lparr>heap := (heap r)(a \<mapsto> p)\<rparr>"

text \<open>\<open>for _, p := range r.providers { *p = f(*p) }\<close>\<close>

definition update_all :: "(Provider \<Rightarrow> Provider) \<Rightarrow> Registry \<Rightarrow> Registry" where
  "update_all f r =
     fold (\<lambda>(k, a) r. case heap r a of None \<Rightarrow> r | Some p \<Rightarrow> put a (f p) r) (providers r) r"

definition all_providers :: "Registry \<Rightarrow> Provider list" where
  "all_providers r = List.map_filter (\<lambda>(k, a). heap r a) (providers r)"


section \<open>State changes and recovery holds\<close>

definition clearBreakerStateLocked :: "string \<Rightarrow> Registry \<Rightarrow> Registry" where
  "clearBreakerStateLocked providerID r =
     r\<lparr>breakerFaults := (breakerFaults r)(providerID := None),
       recoveryHolds := (recoveryHolds r)(providerID := None),
       lastBreakerRecoveries := (lastBreakerRecoveries r)(providerID := None)\<rparr>"

definition applyStateCleanupLocked :: "string \<Rightarrow> State \<Rightarrow> Registry \<Rightarrow> Registry" where
  "applyStateCleanupLocked providerID nxt r =
     (if nxt = StateUnavailable then clearBreakerStateLocked providerID r else r)"

definition setStateLocked :: "addr \<Rightarrow> State \<Rightarrow> Registry \<Rightarrow> Registry" where
  "setStateLocked a nxt r =
     (case heap r a of None \<Rightarrow> r
      | Some p \<Rightarrow> applyStateCleanupLocked (ProviderID p) nxt (put a (p\<lparr>p_State := nxt\<rparr>) r))"

definition hold :: "string \<Rightarrow> string \<Rightarrow> RecoveryReason \<Rightarrow> Registry \<Rightarrow> Registry" where
  "hold providerID assignedID reason r =
     r\<lparr>recoveryHolds := (recoveryHolds r)(providerID \<mapsto>
        \<lparr>h_assignedID = assignedID, h_reason = reason\<rparr>)\<rparr>"

definition held :: "Registry \<Rightarrow> Provider \<Rightarrow> bool" where
  "held r p \<longleftrightarrow>
     (case recoveryHolds r (ProviderID p) of None \<Rightarrow> False
      | Some h \<Rightarrow> h_assignedID h = AssignedID p)"

definition canary_held :: "Registry \<Rightarrow> string \<Rightarrow> string \<Rightarrow> bool" where
  "canary_held r providerID assignedID \<longleftrightarrow>
     (case recoveryHolds r providerID of None \<Rightarrow> False
      | Some h \<Rightarrow> h_assignedID h = assignedID \<and> h_reason h = RecoveryReasonCanary)"

definition canSetCoordinatorStateLocked :: "Registry \<Rightarrow> Provider \<Rightarrow> State \<Rightarrow> bool" where
  "canSetCoordinatorStateLocked r p nxt \<longleftrightarrow>
     (if nxt \<noteq> StateReady then True
      else if held r p then False
      else p_State p \<noteq> StateUnavailable)"

definition canApplyProviderStateLocked :: "Registry \<Rightarrow> Provider \<Rightarrow> State \<Rightarrow> bool" where
  "canApplyProviderStateLocked r p nxt \<longleftrightarrow>
     (if held r p then nxt = StateDegraded
      else if nxt \<noteq> StateReady then True
      else p_State p \<noteq> StateUnavailable)"


section \<open>Seen models\<close>

definition maxSeenModelsPerProvider :: nat where "maxSeenModelsPerProvider = 32"
definition maxSeenModelsLifetime :: nat where "maxSeenModelsLifetime = 4096"
definition maxModelIDByteLen :: nat where "maxModelIDByteLen = 256"
definition maxLifetimeContribPerProvider :: nat where "maxLifetimeContribPerProvider = 128"

definition recordSeenModelLocked :: "string \<Rightarrow> string \<Rightarrow> Registry \<Rightarrow> Registry" where
  "recordSeenModelLocked providerID modelID r =
     (if providerID = [] \<or> modelID = [] then r
      else if length modelID > maxModelIDByteLen then r
      else
        let seen = (case map_of (seenModelsByProvider r) providerID of None \<Rightarrow> [] | Some s \<Rightarrow> s);
            seen = (if modelID \<notin> set seen \<and> length seen < maxSeenModelsPerProvider
                    then modelID # seen else seen);
            r = r\<lparr>seenModelsByProvider := AList.update providerID seen (seenModelsByProvider r)\<rparr>;
            canonical = ToLower modelID
        in if canonical \<in> set (seenModelsLifetime r) then r
           else if lifetimeContribByProvider r providerID \<ge> maxLifetimeContribPerProvider
           then r\<lparr>lifetimeCapDroppedCount := lifetimeCapDroppedCount r + 1\<rparr>
           else if length (seenModelsLifetime r) \<ge> maxSeenModelsLifetime
           then r\<lparr>lifetimeCapDroppedCount := lifetimeCapDroppedCount r + 1,
                  lifetimeCapWarnedOnce := True\<rparr>
           else r\<lparr>seenModelsLifetime := canonical # seenModelsLifetime r,
                  lifetimeContribByProvider := (lifetimeContribByProvider r)
                    (providerID := lifetimeContribByProvider r providerID + 1)\<rparr>)"

definition recordSeenModelsUnionLocked :: "string \<Rightarrow> string \<Rightarrow> string list \<Rightarrow> Registry \<Rightarrow> Registry" where
  "recordSeenModelsUnionLocked providerID modelID supportedModels r =
     fold (recordSeenModelLocked providerID) supportedModels (recordSeenModelLocked providerID modelID r)"

definition LifetimeCapStats :: "Registry \<Rightarrow> nat \<times> nat" where
  "LifetimeCapStats r = (length (seenModelsLifetime r), lifetimeCapDroppedCount r)"

definition ModelKnown :: "Registry \<Rightarrow> string \<Rightarrow> bool" where
  "ModelKnown r modelID \<longleftrightarrow>
     (if modelID = [] then False
      else if ToLower modelID \<in> set (seenModelsLifetime r) then True
      else if \<exists>stored \<in> set (seenModelsLifetime r). EqualFold stored modelID then True
      else if \<exists>p \<in> set (all_providers r). EqualFold (ModelID p) modelID then True
      else if \<exists>p \<in> set (all_providers r). \<exists>s \<in> set (SupportedModels p). EqualFold s modelID then True
      else \<exists>(k, seen) \<in> set (seenModelsByProvider r).
             modelID \<in> set seen \<or> (\<exists>stored \<in> set seen. EqualFold stored modelID))"


section \<open>Receipt key rotation\<close>

definition ReceiptRotationGrace :: duration where "ReceiptRotationGrace = 7 * 24 * Hour"

definition activeReceiptPubkeyPrev :: "ReceiptKeys \<Rightarrow> time \<Rightarrow> ReceiptPubkeyPrevious option" where
  "activeReceiptPubkeyPrev k now =
     (case ReceiptPubkeyPrev k of None \<Rightarrow> None
      | Some prev \<Rightarrow> if \<not> now < rp_ExpiresAt prev then None else Some prev)"

definition noReceipt :: ReceiptKeys where
  "noReceipt = \<lparr>ReceiptPubkey = [], ReceiptPubkeyPrev = None, PendingReceiptPubkey = []\<rparr>"

text \<open>The receipt fields the incoming session gets; \<open>None\<close> is the refusal
  \<open>receipt_rotation_grace_active\<close>.\<close>

definition stageReceiptPublicationLocked ::
  "ReceiptKeys option \<Rightarrow> ReceiptKeys \<Rightarrow> time \<Rightarrow> ReceiptKeys option" where
  "stageReceiptPublicationLocked existing incoming now =
     (let incomingKey = ReceiptPubkey incoming;
          incomingPrev = activeReceiptPubkeyPrev incoming now
      in case existing of
           None \<Rightarrow>
             (if incomingPrev \<noteq> None
              then Some (noReceipt\<lparr>ReceiptPubkey := incomingKey, ReceiptPubkeyPrev := incomingPrev\<rparr>)
              else Some (noReceipt\<lparr>PendingReceiptPubkey := incomingKey\<rparr>))
         | Some ex \<Rightarrow>
             (let activePrev = activeReceiptPubkeyPrev ex now
              in if incomingKey = [] then Some noReceipt
                 else if ReceiptPubkey ex = [] then
                   (if PendingReceiptPubkey ex \<noteq> [] then
                      (if PendingReceiptPubkey ex = incomingKey
                       then Some (noReceipt\<lparr>PendingReceiptPubkey := PendingReceiptPubkey ex\<rparr>)
                       else None)
                    else Some (noReceipt\<lparr>PendingReceiptPubkey := incomingKey\<rparr>))
                 else if ReceiptPubkey ex = incomingKey
                 then Some (noReceipt\<lparr>ReceiptPubkey := ReceiptPubkey ex, ReceiptPubkeyPrev := activePrev\<rparr>)
                 else if PendingReceiptPubkey ex \<noteq> [] then
                   (if PendingReceiptPubkey ex = incomingKey
                    then Some (noReceipt\<lparr>ReceiptPubkey := ReceiptPubkey ex,
                           ReceiptPubkeyPrev := activePrev,
                           PendingReceiptPubkey := PendingReceiptPubkey ex\<rparr>)
                    else None)
                 else if activePrev \<noteq> None then None
                 else Some (noReceipt\<lparr>PendingReceiptPubkey := incomingKey,
                        ReceiptPubkey := ReceiptPubkey ex\<rparr>)))"

definition commitPendingReceiptPubkeyLocked :: "ReceiptKeys \<Rightarrow> time \<Rightarrow> ReceiptKeys" where
  "commitPendingReceiptPubkeyLocked k now =
     (let k = (case ReceiptPubkeyPrev k of
                 Some prev \<Rightarrow> if \<not> now < rp_ExpiresAt prev then k\<lparr>ReceiptPubkeyPrev := None\<rparr> else k
               | None \<Rightarrow> k)
      in if PendingReceiptPubkey k = [] then k
         else let k = (if ReceiptPubkey k \<noteq> [] \<and> ReceiptPubkey k \<noteq> PendingReceiptPubkey k
                       then k\<lparr>ReceiptPubkeyPrev := Some \<lparr>rp_Pubkey = ReceiptPubkey k,
                                rp_RotatedAt = now, rp_ExpiresAt = now + ReceiptRotationGrace\<rparr>\<rparr>
                       else k)
              in k\<lparr>ReceiptPubkey := PendingReceiptPubkey k, PendingReceiptPubkey := []\<rparr>)"


section \<open>Registration\<close>

datatype RegisterRefusal = RegisterRefusalNone | RegisterRefusalBearerlessDuplicate
  | RegisterRefusalBearerDowngrade | RegisterRefusalSandboxCredentialBypass
  | RegisterRefusalReceiptRotationGraceActive

text \<open>\<open>sanction.failCount\<close> and times are restored on the object, which is degraded and held.\<close>

definition applyCanarySanctionLocked :: "addr \<Rightarrow> Registry \<Rightarrow> Registry" where
  "applyCanarySanctionLocked a r =
     (case heap r a of None \<Rightarrow> r
      | Some p \<Rightarrow>
         (case map_of (canarySanctions r) (ProviderID p) of
            None \<Rightarrow> r
          | Some s \<Rightarrow>
             if p_Tier p \<noteq> TierPinned then r
             else hold (ProviderID p) (AssignedID p) RecoveryReasonCanary
                    (setStateLocked a StateDegraded
                      (put a (p\<lparr>p_Canary := (p_Canary p)\<lparr>CanaryFailCount := s_failCount s,
                                 CanaryLastCheckedAt := s_lastCheckedAt s,
                                 CanaryLastFailedAt := s_lastFailedAt s\<rparr>\<rparr>) r))))"

text \<open>The checks of \<open>RegisterAtDetailed\<close> that refuse an incoming session; the receipt staging is the
  last of them.\<close>

definition registerRefusal :: "Provider option \<Rightarrow> Provider \<Rightarrow> time \<Rightarrow> RegisterRefusal" where
  "registerRefusal existing p now =
     (case existing of
        None \<Rightarrow>
          (if stageReceiptPublicationLocked None (p_Receipt p) now = None
           then RegisterRefusalReceiptRotationGraceActive else RegisterRefusalNone)
      | Some e \<Rightarrow>
          (if p_AuthState p = AuthBearerlessDuplicate then RegisterRefusalBearerlessDuplicate
           else if AdmissionSandboxCredentialBypassed p \<and> p_AuthState p \<noteq> AuthBearerValidated
                   \<and> providerCredentialBearing (p_AuthState e)
           then RegisterRefusalSandboxCredentialBypass
           else if p_AuthState e = AuthBearerValidated \<and> RoutingEligible e
                   \<and> p_AuthState p \<noteq> AuthBearerValidated
           then RegisterRefusalBearerDowngrade
           else if stageReceiptPublicationLocked (Some (p_Receipt e)) (p_Receipt p) now = None
           then RegisterRefusalReceiptRotationGraceActive
           else RegisterRefusalNone))"

text \<open>The object that is installed: staged receipt keys, connection, default tier and path.\<close>

definition admittedProvider :: "Provider option \<Rightarrow> Provider \<Rightarrow> nat \<Rightarrow> time \<Rightarrow> Provider" where
  "admittedProvider existing p c now =
     p\<lparr>p_Receipt := the (stageReceiptPublicationLocked (map_option p_Receipt existing) (p_Receipt p) now),
       conn := Some c,
       p_Tier := (if p_Tier p = TierUnset then TierPinned else p_Tier p),
       p_InferencePath := (if p_InferencePath p = InferencePathUnset
          then (if EndpointURL p \<noteq> [] then InferencePathHTTPForwarding else InferencePathWSTunneled)
          else p_InferencePath p)\<rparr>"

definition RegisterAtDetailed ::
  "Provider \<Rightarrow> nat \<Rightarrow> time \<Rightarrow> Registry \<Rightarrow> Registry \<times> nat option \<times> bool \<times> RegisterRefusal" where
  "RegisterAtDetailed p c now r =
     (let existing = map_option snd (lookup_provider r (ProviderID p));
          refusal = registerRefusal existing p now
      in if refusal \<noteq> RegisterRefusalNone then (r, None, False, refusal)
         else
           let old = (case existing of None \<Rightarrow> None | Some e \<Rightarrow> conn e);
               r = (case existing of None \<Rightarrow> r
                    | Some e \<Rightarrow> r\<lparr>sessions := (sessions r)(AssignedID e := None),
                                 seenModelsByProvider :=
                                   AList.delete (ProviderID p) (seenModelsByProvider r)\<rparr>);
               a = next_addr r;
               r = put a (admittedProvider existing p c now) (r\<lparr>next_addr := Suc a\<rparr>);
               r = r\<lparr>providers := AList.update (ProviderID p) a (providers r),
                     sessions := (sessions r)(AssignedID p \<mapsto> a)\<rparr>;
               r = recordSeenModelsUnionLocked (ProviderID p) (ModelID p) (SupportedModels p) r;
               r = clearBreakerStateLocked (ProviderID p) r;
               r = applyCanarySanctionLocked a r
           in (r, old, True, RegisterRefusalNone))"


section \<open>Session-scoped methods\<close>

text \<open>A method that updates one field group of the current session and nothing else.\<close>

definition update_session ::
  "string \<Rightarrow> string \<Rightarrow> (Provider \<Rightarrow> Provider) \<Rightarrow> Registry \<Rightarrow> Registry \<times> bool" where
  "update_session providerID assignedID f r =
     (case session_of r providerID assignedID of
        None \<Rightarrow> (r, False)
      | Some (a, p) \<Rightarrow> (put a (f p) r, True))"

text \<open>As \<open>update_session\<close>, reporting whether the value changed.\<close>

definition change_session ::
  "string \<Rightarrow> string \<Rightarrow> (Provider \<Rightarrow> bool) \<Rightarrow> (Provider \<Rightarrow> Provider) \<Rightarrow> Registry \<Rightarrow> Registry \<times> bool" where
  "change_session providerID assignedID same f r =
     (case session_of r providerID assignedID of
        None \<Rightarrow> (r, False)
      | Some (a, p) \<Rightarrow> if same p then (r, False) else (put a (f p) r, True))"

definition SetTier :: "string \<Rightarrow> Tier \<Rightarrow> Registry \<Rightarrow> Registry \<times> Provider option" where
  "SetTier providerID tier r =
     (case lookup_provider r providerID of
        None \<Rightarrow> (r, None)
      | Some (a, p) \<Rightarrow>
          (put a (p\<lparr>p_Tier := tier\<rparr>) r, Some (p\<lparr>p_Tier := tier, conn := None\<rparr>)))"

definition UpdateHashStatuses :: "(Provider \<Rightarrow> HashStatus) \<Rightarrow> Registry \<Rightarrow> Registry \<times> nat" where
  "UpdateHashStatuses statusFor r =
     (update_all (\<lambda>p. p\<lparr>p_HashStatus := statusFor (p\<lparr>conn := None\<rparr>)\<rparr>) r,
      length (filter (\<lambda>p. p_HashStatus p \<noteq> statusFor (p\<lparr>conn := None\<rparr>)) (all_providers r)))"

definition ExpireLegacyBridgeAdmissions :: "Registry \<Rightarrow> Registry \<times> nat" where
  "ExpireLegacyBridgeAdmissions r =
     (update_all (\<lambda>p. if CatalogAdmissionMode p = ''legacy_bridge''
                      then p\<lparr>CatalogAdmissionMode := ''legacy''\<rparr> else p) r,
      length (filter (\<lambda>p. CatalogAdmissionMode p = ''legacy_bridge'') (all_providers r)))"

definition ExpireLegacyModelHashAdmissions :: "Registry \<Rightarrow> Registry \<times> Provider list" where
  "ExpireLegacyModelHashAdmissions r =
     (update_all (\<lambda>p. if TrimSpace (ModelHashAlgorithm (p_Identity p)) \<noteq> [] then p
                      else p\<lparr>p_HashStatus := HashStatusInvalid\<rparr>) r,
      map (\<lambda>p. p\<lparr>conn := None\<rparr>)
        (filter (\<lambda>p. TrimSpace (ModelHashAlgorithm (p_Identity p)) = []) (all_providers r)))"

definition MarkHashStatusIfSession ::
  "string \<Rightarrow> string \<Rightarrow> HashStatus \<Rightarrow> Registry \<Rightarrow> Registry \<times> bool" where
  "MarkHashStatusIfSession providerID assignedID status =
     update_session providerID assignedID (\<lambda>p. p\<lparr>p_HashStatus := status\<rparr>)"

definition MarkHTTPForwardingOnly :: "string \<Rightarrow> string \<Rightarrow> Registry \<Rightarrow> Registry \<times> bool" where
  "MarkHTTPForwardingOnly providerID assignedID =
     update_session providerID assignedID (\<lambda>p. p\<lparr>HTTPForwardingOnly := True\<rparr>)"

definition MarkState :: "string \<Rightarrow> string \<Rightarrow> State \<Rightarrow> Registry \<Rightarrow> Registry \<times> bool" where
  "MarkState providerID assignedID state r =
     (case session_of r providerID assignedID of
        None \<Rightarrow> (r, False)
      | Some (a, p) \<Rightarrow>
          if \<not> canSetCoordinatorStateLocked r p state then (r, False)
          else (setStateLocked a state r, True))"

definition MarkDegradedForRecovery ::
  "string \<Rightarrow> string \<Rightarrow> RecoveryReason \<Rightarrow> Registry \<Rightarrow> Registry \<times> bool" where
  "MarkDegradedForRecovery providerID assignedID reason r =
     (case session_of r providerID assignedID of
        None \<Rightarrow> (r, False)
      | Some (a, p) \<Rightarrow>
          if canary_held r providerID assignedID then (r, False)
          else (hold providerID assignedID reason (setStateLocked a StateDegraded r), True))"

text \<open>\<open>time.Now()\<close> where the caller passed the zero time.\<close>

definition at_or_now :: "time \<Rightarrow> time \<Rightarrow> time" where
  "at_or_now now t = (if IsZero t then now else t)"

definition MarkRecovered :: "string \<Rightarrow> string \<Rightarrow> time \<Rightarrow> time \<Rightarrow> Registry \<Rightarrow> Registry \<times> bool" where
  "MarkRecovered providerID assignedID t now r =
     (let t = at_or_now now t in
      case session_of r providerID assignedID of
        None \<Rightarrow> (r, False)
      | Some (a, p) \<Rightarrow>
          (case recoveryHolds r providerID of
             None \<Rightarrow> (r, False)
           | Some h \<Rightarrow>
               if h_assignedID h \<noteq> assignedID then (r, False)
               else if h_reason h = RecoveryReasonCanary then (r, False)
               else
                 let r = setStateLocked a StateReady r;
                     r = r\<lparr>breakerFaults := (breakerFaults r)(providerID := None),
                           recoveryHolds := (recoveryHolds r)(providerID := None)\<rparr>;
                     r = (if h_reason h = RecoveryReasonBreaker
                          then r\<lparr>lastBreakerRecoveries := (lastBreakerRecoveries r)(providerID \<mapsto> t)\<rparr>
                          else r)
                 in (r, True)))"

definition CanaryRecoveryEligible :: "Registry \<Rightarrow> string \<Rightarrow> string \<Rightarrow> bool" where
  "CanaryRecoveryEligible r providerID assignedID = canary_held r providerID assignedID"



section \<open>Canary results, breaker and probes\<close>

datatype BreakerTripState = BreakerTripNone | BreakerTripDegraded | BreakerTripUnavailable

record BreakerFaultResult =
  bf_Count :: int
  bf_Threshold :: int
  bf_Tripped :: BreakerTripState

datatype CanaryTripState = CanaryTripNone | CanaryTripDegraded | CanaryTripUnavailable
  | CanaryTripFloorHeld

record CanaryResult =
  cr_Current :: bool
  cr_Passed :: bool
  cr_Count :: int
  cr_Threshold :: int
  cr_Tier :: Tier
  cr_Tripped :: CanaryTripState
  cr_SanctionCleared :: bool

definition isBuyerServingLocked :: "Registry \<Rightarrow> Provider \<Rightarrow> bool" where
  "isBuyerServingLocked r p =
     (case buyerServing r of
        Some f \<Rightarrow> f p
      | None \<Rightarrow> RoutingEligible p \<and> MaxContextTokens (p_Capacity p) > 0)"

definition hasOtherBuyerServingForModelLocked :: "Registry \<Rightarrow> string \<Rightarrow> string \<Rightarrow> bool" where
  "hasOtherBuyerServingForModelLocked r excludeID modelID \<longleftrightarrow>
     (\<exists>(k, a) \<in> set (providers r). k \<noteq> excludeID \<and>
        (case heap r a of None \<Rightarrow> False
         | Some p \<Rightarrow> providerServesActiveModel p modelID \<and> isBuyerServingLocked r p))"

definition BuyerServingCountForModel :: "Registry \<Rightarrow> string \<Rightarrow> nat" where
  "BuyerServingCountForModel r modelID =
     length (filter (\<lambda>p. providerServesActiveModel p modelID \<and> isBuyerServingLocked r p)
       (all_providers r))"

definition recordCanaryResult ::
  "string \<Rightarrow> string \<Rightarrow> bool \<Rightarrow> time \<Rightarrow> time \<Rightarrow> int \<Rightarrow> bool \<Rightarrow> Registry \<Rightarrow> Registry \<times> CanaryResult" where
  "recordCanaryResult providerID assignedID passed t now threshold forceFloorHeld r =
     (let threshold = (if threshold \<le> 0 then 3 else threshold);
          t = at_or_now now t;
          none = \<lparr>cr_Current = False, cr_Passed = False, cr_Count = 0, cr_Threshold = threshold,
                  cr_Tier = TierUnset, cr_Tripped = CanaryTripNone, cr_SanctionCleared = False\<rparr>
      in case session_of r providerID assignedID of
           None \<Rightarrow> (r, none)
         | Some (a, p) \<Rightarrow>
            (let result = none\<lparr>cr_Current := True, cr_Passed := passed, cr_Tier := p_Tier p\<rparr>
             in if p_State p = StateDraining \<or> p_State p = StateUnavailable then (r, result)
                else if canary_held r providerID assignedID \<and> p_State p \<noteq> StateDegraded
                then (r, result)
                else
                  let canary = (p_Canary p)\<lparr>CanaryLastCheckedAt := Some t\<rparr>
                  in if passed then
                       let p = p\<lparr>p_Canary := canary\<lparr>CanaryFailCount := 0\<rparr>\<rparr>;
                           cleared = (map_of (canarySanctions r) providerID \<noteq> None
                             \<or> canary_held r providerID assignedID);
                           wasHeld = canary_held r providerID assignedID;
                           r = (put a p r)\<lparr>canarySanctions := AList.delete providerID (canarySanctions r)\<rparr>;
                           r = (if wasHeld
                                then setStateLocked a StateReady
                                  (r\<lparr>recoveryHolds := (recoveryHolds r)(providerID := None)\<rparr>)
                                else r)
                       in (r, result\<lparr>cr_SanctionCleared := cleared\<rparr>)
                     else
                       let n = CanaryFailCount canary + 1;
                           p = p\<lparr>p_Canary := canary\<lparr>CanaryFailCount := n, CanaryLastFailedAt := Some t\<rparr>\<rparr>;
                           r = put a p r;
                           result = result\<lparr>cr_Count := n\<rparr>
                       in if n < threshold then (r, result)
                          else if forceFloorHeld \<or> (isBuyerServingLocked r p
                                 \<and> \<not> hasOtherBuyerServingForModelLocked r providerID (ModelID p))
                          then (r, result\<lparr>cr_Tripped := CanaryTripFloorHeld\<rparr>)
                          else if p_Tier p = TierProvisional
                          then (setStateLocked a StateUnavailable r,
                                result\<lparr>cr_Tripped := CanaryTripUnavailable\<rparr>)
                          else
                            let r = hold providerID assignedID RecoveryReasonCanary
                                      (setStateLocked a StateDegraded r);
                                sanction = \<lparr>s_failCount = n, s_lastCheckedAt = Some t,
                                            s_lastFailedAt = Some t\<rparr>
                            in (r\<lparr>canarySanctions :=
                                     AList.update providerID sanction (canarySanctions r)\<rparr>,
                                result\<lparr>cr_Tripped := CanaryTripDegraded\<rparr>)))"

definition RecordBreakerFault ::
  "string \<Rightarrow> string \<Rightarrow> time \<Rightarrow> time \<Rightarrow> int \<Rightarrow> duration \<Rightarrow> Registry \<Rightarrow> Registry \<times> BreakerFaultResult" where
  "RecordBreakerFault providerID assignedID t now threshold window r =
     (let threshold = (if threshold \<le> 0 then 2 else threshold);
          window = (if window \<le> 0 then 120 * Second else window);
          t = at_or_now now t;
          none = \<lparr>bf_Count = 0, bf_Threshold = threshold, bf_Tripped = BreakerTripNone\<rparr>
      in case session_of r providerID assignedID of
           None \<Rightarrow> (r, none)
         | Some (a, p) \<Rightarrow>
             if p_State p \<noteq> StateReady \<and> p_State p \<noteq> StateBusy then (r, none)
             else
               let cutoff = t - window;
                   faults = (case breakerFaults r providerID of None \<Rightarrow> [] | Some fs \<Rightarrow> fs);
                   kept = filter (\<lambda>f. \<not> f < cutoff) faults @ [t];
                   r = r\<lparr>breakerFaults := (breakerFaults r)(providerID \<mapsto> kept)\<rparr>;
                   result = none\<lparr>bf_Count := int (length kept)\<rparr>;
                   recoveredAt = (case lastBreakerRecoveries r providerID of None \<Rightarrow> 0 | Some x \<Rightarrow> x)
               in if bf_Count result < threshold then (r, result)
                  else if \<not> IsZero recoveredAt \<and> Sub t recoveredAt \<le> window
                  then (setStateLocked a StateUnavailable r,
                        result\<lparr>bf_Tripped := BreakerTripUnavailable\<rparr>)
                  else (hold providerID assignedID RecoveryReasonBreaker
                          (setStateLocked a StateDegraded r),
                        result\<lparr>bf_Tripped := BreakerTripDegraded\<rparr>))"

record CanarySanctionSnapshot =
  cs_ProviderID :: string
  cs_FailCount :: int
  cs_LastCheckedAt :: "time option"
  cs_LastFailedAt :: "time option"

definition LoadCanarySanctions :: "CanarySanctionSnapshot list \<Rightarrow> Registry \<Rightarrow> Registry" where
  "LoadCanarySanctions snapshots r =
     fold (\<lambda>s r. if TrimSpace (cs_ProviderID s) = [] \<or> cs_FailCount s \<le> 0 then r
                 else r\<lparr>canarySanctions := AList.update (cs_ProviderID s)
                        \<lparr>s_failCount = cs_FailCount s, s_lastCheckedAt = cs_LastCheckedAt s,
                         s_lastFailedAt = cs_LastFailedAt s\<rparr> (canarySanctions r)\<rparr>) snapshots r"

definition CanarySanctions :: "Registry \<Rightarrow> CanarySanctionSnapshot list" where
  "CanarySanctions r =
     map (\<lambda>(k, s). \<lparr>cs_ProviderID = k, cs_FailCount = s_failCount s,
            cs_LastCheckedAt = s_lastCheckedAt s, cs_LastFailedAt = s_lastFailedAt s\<rparr>)
       (canarySanctions r)"

definition ClearCanarySanction :: "string \<Rightarrow> Registry \<Rightarrow> Registry \<times> bool" where
  "ClearCanarySanction providerID r =
     (let hadPersisted = (map_of (canarySanctions r) providerID \<noteq> None);
          r = r\<lparr>canarySanctions := AList.delete providerID (canarySanctions r)\<rparr>;
          pp = lookup_provider r providerID;
          hadRuntime = (case pp of None \<Rightarrow> False
             | Some (a, p) \<Rightarrow> CanaryFailCount (p_Canary p) > 0 \<or> CanaryLastFailedAt (p_Canary p) \<noteq> None);
          r = (case pp of None \<Rightarrow> r
             | Some (a, p) \<Rightarrow> put a (p\<lparr>p_Canary := (p_Canary p)\<lparr>CanaryFailCount := 0,
                                          CanaryLastFailedAt := None\<rparr>\<rparr>) r)
      in case recoveryHolds r providerID of
           None \<Rightarrow> (r, hadPersisted \<or> hadRuntime)
         | Some h \<Rightarrow>
             if h_reason h \<noteq> RecoveryReasonCanary then (r, hadPersisted \<or> hadRuntime)
             else if (case pp of None \<Rightarrow> False
                      | Some (a, p) \<Rightarrow> AssignedID p = h_assignedID h \<and> p_State p = StateDegraded)
             then (hold providerID (h_assignedID h) RecoveryReasonOperatorClear r, True)
             else (r\<lparr>recoveryHolds := (recoveryHolds r)(providerID := None)\<rparr>, True))"

definition NoteBuyerSuccess :: "string \<Rightarrow> time \<Rightarrow> time \<Rightarrow> Registry \<Rightarrow> Registry" where
  "NoteBuyerSuccess providerID t now r =
     (if TrimSpace providerID = [] then r
      else case lookup_provider r providerID of
             None \<Rightarrow> r
           | Some (a, p) \<Rightarrow> put a (p\<lparr>LastBuyerSuccessAt := Some (at_or_now now t)\<rparr>) r)"

definition LastBuyerSuccess :: "Registry \<Rightarrow> string \<Rightarrow> time" where
  "LastBuyerSuccess r providerID =
     (case lookup_provider r providerID of
        None \<Rightarrow> 0
      | Some (a, p) \<Rightarrow> (case LastBuyerSuccessAt p of None \<Rightarrow> 0 | Some t \<Rightarrow> t))"

record SELivenessResult =
  se_Current :: bool
  se_Passed :: bool
  se_FailCount :: int
  se_Stale :: bool

definition RecordSELivenessResult ::
  "string \<Rightarrow> string \<Rightarrow> bool \<Rightarrow> time \<Rightarrow> time \<Rightarrow> int \<Rightarrow> Registry \<Rightarrow> Registry \<times> SELivenessResult" where
  "RecordSELivenessResult providerID assignedID passed t now maxFailures r =
     (let maxFailures = (if maxFailures \<le> 0 then 3 else maxFailures);
          t = at_or_now now t
      in case session_of r providerID assignedID of
           None \<Rightarrow> (r, \<lparr>se_Current = False, se_Passed = False, se_FailCount = 0, se_Stale = False\<rparr>)
         | Some (a, p) \<Rightarrow>
             (let se = p_Attestation p in
              if passed
              then (put a (p\<lparr>p_Attestation := se\<lparr>SELivenessFailCount := 0, LastSELivenessAt := Some t\<rparr>\<rparr>) r,
                    \<lparr>se_Current = True, se_Passed = True, se_FailCount = 0, se_Stale = False\<rparr>)
              else
                let n = SELivenessFailCount se + 1;
                    stale = (n \<ge> maxFailures);
                    se = se\<lparr>SELivenessFailCount := n\<rparr>;
                    se = (if stale then se\<lparr>p_AttestationStatus := AttestationStatusStale\<rparr> else se)
                in (put a (p\<lparr>p_Attestation := se\<rparr>) r,
                    \<lparr>se_Current = True, se_Passed = False, se_FailCount = n, se_Stale = stale\<rparr>)))"

definition SetSEPublicKey :: "string \<Rightarrow> string \<Rightarrow> string \<Rightarrow> string \<Rightarrow> Registry \<Rightarrow> Registry \<times> bool" where
  "SetSEPublicKey providerID assignedID pubkey tier =
     update_session providerID assignedID
       (\<lambda>p. p\<lparr>p_Attestation := (p_Attestation p)\<lparr>SEPublicKey := pubkey, AttestationTier := tier\<rparr>\<rparr>)"

definition SetModelClassOPoIPass :: "string \<Rightarrow> string \<Rightarrow> bool option \<Rightarrow> Registry \<Rightarrow> Registry" where
  "SetModelClassOPoIPass providerID assignedID pass r =
     fst (update_session providerID assignedID (\<lambda>p. p\<lparr>ModelClassOPoIPass := pass\<rparr>) r)"

definition RecordCanaryLatency :: "string \<Rightarrow> string \<Rightarrow> int \<Rightarrow> f64 \<Rightarrow> Registry \<Rightarrow> Registry" where
  "RecordCanaryLatency providerID assignedID ttftMS sustainedTPS r =
     (if ttftMS \<le> 0 then r
      else fst (update_session providerID assignedID
        (\<lambda>p. let c = (p_Canary p)\<lparr>CanaryLastTTFTMS := ttftMS\<rparr> in
             p\<lparr>p_Canary := (if flt (Fin 0) sustainedTPS \<and> \<not> IsNaN sustainedTPS \<and> \<not> IsInf sustainedTPS
                            then c\<lparr>CanaryLastSustainedTPS := sustainedTPS\<rparr> else c)\<rparr>) r))"



section \<open>Admission gates\<close>

definition SetBenchmarkQuarantine :: "string \<Rightarrow> string \<Rightarrow> bool \<Rightarrow> Registry \<Rightarrow> Registry \<times> bool" where
  "SetBenchmarkQuarantine providerID assignedID quarantined =
     change_session providerID assignedID (\<lambda>p. BenchmarkQuarantined p = quarantined)
       (\<lambda>p. p\<lparr>BenchmarkQuarantined := quarantined\<rparr>)"

definition SetAdmissionCeilingExcluded :: "string \<Rightarrow> string \<Rightarrow> bool \<Rightarrow> Registry \<Rightarrow> Registry \<times> bool" where
  "SetAdmissionCeilingExcluded providerID assignedID excluded =
     change_session providerID assignedID (\<lambda>p. AdmissionCeilingExcluded (p_Gate p) = excluded)
       (\<lambda>p. p\<lparr>p_Gate := (p_Gate p)\<lparr>AdmissionCeilingExcluded := excluded\<rparr>\<rparr>)"

definition SetAdmissionEvidenceStale :: "string \<Rightarrow> string \<Rightarrow> bool \<Rightarrow> Registry \<Rightarrow> Registry \<times> bool" where
  "SetAdmissionEvidenceStale providerID assignedID stale =
     change_session providerID assignedID (\<lambda>p. AdmissionEvidenceStale (p_Gate p) = stale)
       (\<lambda>p. p\<lparr>p_Gate := (p_Gate p)\<lparr>AdmissionEvidenceStale := stale\<rparr>\<rparr>)"

definition SetAdmissionSandboxed :: "string \<Rightarrow> string \<Rightarrow> bool \<Rightarrow> Registry \<Rightarrow> Registry \<times> bool" where
  "SetAdmissionSandboxed providerID assignedID sandboxed =
     change_session providerID assignedID (\<lambda>p. AdmissionSandboxed (p_Gate p) = sandboxed)
       (\<lambda>p. p\<lparr>p_Gate := (p_Gate p)\<lparr>AdmissionSandboxed := sandboxed\<rparr>,
              AdmissionSandboxCredentialBypassed :=
                (if \<not> sandboxed then False else AdmissionSandboxCredentialBypassed p)\<rparr>)"

definition SetAdmissionGateFlags ::
  "string \<Rightarrow> string \<Rightarrow> AdmissionGateFlags \<Rightarrow> Registry
     \<Rightarrow> Registry \<times> (AdmissionGateFlags \<times> bool) option" where
  "SetAdmissionGateFlags providerID assignedID flags r =
     (case session_of r providerID assignedID of
        None \<Rightarrow> (r, None)
      | Some (a, p) \<Rightarrow>
          (put a (p\<lparr>p_Gate := flags,
                    AdmissionSandboxCredentialBypassed :=
                      (if \<not> AdmissionSandboxed flags then False
                       else AdmissionSandboxCredentialBypassed p)\<rparr>) r,
           Some (p_Gate p, p_Gate p \<noteq> flags)))"

definition QuarantineForProofOfWeightsReload :: "Registry \<Rightarrow> Registry \<times> nat" where
  "QuarantineForProofOfWeightsReload r =
     (update_all (\<lambda>p. p\<lparr>p_Gate := (p_Gate p)\<lparr>AdmissionEvidenceStale := True\<rparr>\<rparr>) r,
      length (filter (\<lambda>p. \<not> AdmissionEvidenceStale (p_Gate p)) (all_providers r)))"

definition ClearBenchmarkQuarantines :: "Registry \<Rightarrow> Registry \<times> nat" where
  "ClearBenchmarkQuarantines r =
     (update_all (\<lambda>p. p\<lparr>BenchmarkQuarantined := False\<rparr>) r,
      length (filter BenchmarkQuarantined (all_providers r)))"


section \<open>Provider-originated updates\<close>

record HeartbeatUpdate =
  hb_Status :: State
  hb_ModelID :: string
  hb_Capacity :: Capacity
  hb_ModelHash :: string
  hb_ModelHashPresent :: bool
  hb_ModelHashAlgorithm :: string
  hb_WeightsManifestSHA256 :: string
  hb_WeightsHashAlgorithm :: string
  hb_ExpectedModelHash :: string
  hb_Loading :: bool
  hb_LoadingPresent :: bool
  hb_LastAutoupdateEvent :: string
  hb_HardwareCapacity :: "ProviderHardwareCapacity option"
  hb_SafetyTelemetry :: "string option"
  hb_At :: time

record SwapEvent =
  sw_ProviderID :: string
  sw_AssignedID :: string
  sw_FromModelID :: string
  sw_FromModelHash :: string
  sw_ToModelID :: string
  sw_ToModelHash :: string
  sw_HashVerificationResult :: HashStatus
  sw_LoadingStartedAt :: time
  sw_CompletedAt :: time

text \<open>The fields a heartbeat writes on the object before the state is considered.\<close>

definition heartbeatIdentity :: "HeartbeatUpdate \<Rightarrow> ModelIdentity" where
  "heartbeatIdentity hb =
     (let i = (if \<not> hb_ModelHashPresent hb
               then \<lparr>ModelHash = [], ModelHashAlgorithm = [], WeightsManifestSHA256 = [],
                     WeightsHashAlgorithm = [], ExpectedModelHash = []\<rparr>
               else \<lparr>ModelHash = hb_ModelHash hb, ModelHashAlgorithm = hb_ModelHashAlgorithm hb,
                     WeightsManifestSHA256 = hb_WeightsManifestSHA256 hb,
                     WeightsHashAlgorithm = hb_WeightsHashAlgorithm hb, ExpectedModelHash = []\<rparr>);
          i = (if hb_WeightsManifestSHA256 hb \<noteq> []
               then i\<lparr>WeightsManifestSHA256 := hb_WeightsManifestSHA256 hb,
                      WeightsHashAlgorithm := hb_WeightsHashAlgorithm hb\<rparr>
               else i)
      in i\<lparr>ExpectedModelHash := hb_ExpectedModelHash hb\<rparr>)"

definition heartbeatHashStatus :: "Registry \<Rightarrow> HeartbeatUpdate \<Rightarrow> HashStatus" where
  "heartbeatHashStatus r hb =
     (if \<not> hb_ModelHashPresent hb then HashStatusUncatalogued
      else case modelIdentityVerifier r of
             Some v \<Rightarrow> v (hb_ModelID hb) (hb_ExpectedModelHash hb) (hb_ModelHash hb)
                         (hb_ModelHashAlgorithm hb)
           | None \<Rightarrow> (case hashVerifier r of
                        Some v \<Rightarrow> v (hb_ModelID hb) (hb_ModelHash hb)
                      | None \<Rightarrow> HashStatusUncatalogued))"

definition heartbeatFields :: "Registry \<Rightarrow> HeartbeatUpdate \<Rightarrow> Provider \<Rightarrow> Provider" where
  "heartbeatFields r hb p =
     p\<lparr>LastHeartbeatAt := hb_At hb,
       p_Identity := heartbeatIdentity hb,
       p_HashStatus := heartbeatHashStatus r hb,
       ModelID := hb_ModelID hb,
       p_Capacity := hb_Capacity hb,
       LastAutoupdateEvent := (if hb_LastAutoupdateEvent hb \<noteq> [] then hb_LastAutoupdateEvent hb
                               else LastAutoupdateEvent p),
       HardwareCapacity := (if hb_HardwareCapacity hb \<noteq> None
                            then sanitizeProviderHardwareCapacity (hb_HardwareCapacity hb)
                            else HardwareCapacity p),
       SafetyTelemetry := map_option (\<lambda>x. (x, hb_At hb)) (hb_SafetyTelemetry hb)\<rparr>"

definition heartbeatLoading :: "HeartbeatUpdate \<Rightarrow> Provider \<Rightarrow> Provider" where
  "heartbeatLoading hb p =
     (if hb_LoadingPresent hb
      then p\<lparr>LoadingStartedAt := (if \<not> LastLoadingState p \<and> hb_Loading hb then hb_At hb
                                 else LoadingStartedAt p),
             LastLoadingState := hb_Loading hb\<rparr>
      else p)"

definition swapCompleted :: "HeartbeatUpdate \<Rightarrow> Provider \<Rightarrow> bool" where
  "swapCompleted hb prior \<longleftrightarrow>
     hb_ModelHashPresent hb \<and> LastLoadingState prior \<and> hb_LoadingPresent hb \<and> \<not> hb_Loading hb
     \<and> \<not> EqualFold (ModelID prior) (hb_ModelID hb)"

record HeartbeatResult =
  hr_Provider :: Provider
  hr_Gap :: duration
  hr_ModelIDChanged :: bool
  hr_PriorModelID :: string
  hr_Swap :: "SwapEvent option"

text \<open>\<open>None\<close> in the second component when the session is not the current one.\<close>

definition applyHeartbeatLocked ::
  "string \<Rightarrow> string \<Rightarrow> HeartbeatUpdate \<Rightarrow> Registry \<Rightarrow> Registry \<times> HeartbeatResult option" where
  "applyHeartbeatLocked providerID assignedID hb r =
     (case session_of r providerID assignedID of
        None \<Rightarrow> (r, None)
      | Some (a, prior) \<Rightarrow>
         (let p = heartbeatFields r hb prior;
              r = recordSeenModelsUnionLocked (ProviderID p) (hb_ModelID hb) (SupportedModels p) (put a p r);
              r = (if hb_Status hb \<noteq> StateUnset \<and> hb_Status hb \<noteq> p_State p
                      \<and> canApplyProviderStateLocked r p (hb_Status hb)
                   then setStateLocked a (hb_Status hb) r else r);
              p = heartbeatLoading hb (the (heap r a));
              r = put a p r;
              swap = (if swapCompleted hb prior
                      then Some \<lparr>sw_ProviderID = ProviderID p, sw_AssignedID = AssignedID p,
                             sw_FromModelID = ModelID prior,
                             sw_FromModelHash = ModelHash (p_Identity prior),
                             sw_ToModelID = ModelID p, sw_ToModelHash = ModelHash (p_Identity p),
                             sw_HashVerificationResult = p_HashStatus p,
                             sw_LoadingStartedAt = LoadingStartedAt prior, sw_CompletedAt = hb_At hb\<rparr>
                      else None)
          in (r, Some \<lparr>hr_Provider = p,
                       hr_Gap = (if IsZero (LastHeartbeatAt prior) then 0
                                 else Sub (hb_At hb) (LastHeartbeatAt prior)),
                       hr_ModelIDChanged = (\<not> EqualFold (ModelID prior) (hb_ModelID hb)),
                       hr_PriorModelID = ModelID prior, hr_Swap = swap\<rparr>)))"

record StateUpdate =
  su_State :: State
  su_SlotsFree :: "int option"
  su_SlotsTotal :: "int option"
  su_LastAutoupdateEvent :: string
  su_At :: time

definition stateUpdateFields :: "StateUpdate \<Rightarrow> time \<Rightarrow> Provider \<Rightarrow> Provider" where
  "stateUpdateFields u now p =
     (let c = p_Capacity p;
          c = (case su_SlotsFree u of None \<Rightarrow> c | Some n \<Rightarrow> c\<lparr>SlotsFree := n\<rparr>);
          c = (case su_SlotsTotal u of None \<Rightarrow> c | Some n \<Rightarrow> c\<lparr>SlotsTotal := n\<rparr>)
      in p\<lparr>p_Capacity := c,
           LastAutoupdateEvent := (if su_LastAutoupdateEvent u \<noteq> [] then su_LastAutoupdateEvent u
                                   else LastAutoupdateEvent p),
           p_Receipt := commitPendingReceiptPubkeyLocked (p_Receipt p) (at_or_now now (su_At u))\<rparr>)"

definition ApplyStateUpdate ::
  "string \<Rightarrow> string \<Rightarrow> StateUpdate \<Rightarrow> time \<Rightarrow> Registry \<Rightarrow> Registry \<times> Provider option" where
  "ApplyStateUpdate providerID assignedID u now r =
     (case session_of r providerID assignedID of
        None \<Rightarrow> (r, None)
      | Some (a, p) \<Rightarrow>
         (let r = (if canApplyProviderStateLocked r p (su_State u)
                   then setStateLocked a (su_State u) r else r);
              p = stateUpdateFields u now (the (heap r a))
          in (put a p r, Some p)))"

definition Touch :: "string \<Rightarrow> string \<Rightarrow> time \<Rightarrow> Registry \<Rightarrow> Registry" where
  "Touch providerID assignedID t r =
     (let ptr = (if providerID \<noteq> [] then map_of (providers r) providerID
                 else if assignedID \<noteq> [] then sessions r assignedID else None)
      in case ptr of None \<Rightarrow> r
         | Some a \<Rightarrow>
            (case heap r a of None \<Rightarrow> r
             | Some p \<Rightarrow> if assignedID = [] \<or> AssignedID p = assignedID
                         then put a (p\<lparr>LastActivityAt := t\<rparr>) r else r))"

definition ReplaceTier2Session ::
  "string \<Rightarrow> string \<Rightarrow> string \<Rightarrow> Tier2Session option \<Rightarrow> Registry \<Rightarrow> Registry \<times> bool" where
  "ReplaceTier2Session providerID assignedID expectedKID nxt r =
     (case nxt of None \<Rightarrow> (r, False)
      | Some n \<Rightarrow>
         if t2_KeyID n = [] \<or> t2_KeyID n = expectedKID \<or> length (t2_C2PKey n) \<noteq> 32
            \<or> length (t2_P2CKey n) \<noteq> 32 \<or> length (t2_C2PNonceBase n) \<noteq> 4
            \<or> length (t2_P2CNonceBase n) \<noteq> 4
         then (r, False)
         else (case session_of r providerID assignedID of
                 None \<Rightarrow> (r, False)
               | Some (a, p) \<Rightarrow>
                   if sessions r assignedID \<noteq> Some a then (r, False)
                   else (case p_Tier2Session p of
                           None \<Rightarrow> (r, False)
                         | Some s \<Rightarrow> if t2_KeyID s \<noteq> expectedKID then (r, False)
                                     else (put a (p\<lparr>p_Tier2Session := Some n\<rparr>) r, True))))"


section \<open>Removal and queries\<close>

definition removeSession :: "string \<Rightarrow> string \<Rightarrow> Registry \<Rightarrow> Registry" where
  "removeSession providerID assignedID r =
     clearBreakerStateLocked providerID
       (r\<lparr>providers := AList.delete providerID (providers r),
          sessions := (sessions r)(assignedID := None),
          seenModelsByProvider := AList.delete providerID (seenModelsByProvider r)\<rparr>)"

definition RemoveIfSession :: "string \<Rightarrow> string \<Rightarrow> Registry \<Rightarrow> Registry \<times> bool" where
  "RemoveIfSession providerID assignedID r =
     (case session_of r providerID assignedID of
        None \<Rightarrow> (r, False)
      | Some _ \<Rightarrow> (removeSession providerID assignedID r, True))"

definition RemoveIfSessionState :: "string \<Rightarrow> string \<Rightarrow> State \<Rightarrow> Registry \<Rightarrow> Registry \<times> bool" where
  "RemoveIfSessionState providerID assignedID state r =
     (case session_of r providerID assignedID of
        None \<Rightarrow> (r, False)
      | Some (a, p) \<Rightarrow>
          if p_State p \<noteq> state then (r, False) else (removeSession providerID assignedID r, True))"

definition Resolve :: "Registry \<Rightarrow> string \<Rightarrow> string \<Rightarrow> Provider option" where
  "Resolve r providerID assignedID =
     (let ptr = (if providerID \<noteq> [] then map_of (providers r) providerID
                 else if assignedID \<noteq> [] then sessions r assignedID else None)
      in case ptr of None \<Rightarrow> None
         | Some a \<Rightarrow>
            (case heap r a of None \<Rightarrow> None
             | Some p \<Rightarrow> if assignedID \<noteq> [] \<and> AssignedID p \<noteq> assignedID then None
                         else Some (p\<lparr>conn := None\<rparr>)))"

definition Conn :: "Registry \<Rightarrow> string \<Rightarrow> string \<Rightarrow> nat option" where
  "Conn r providerID assignedID =
     (case session_of r providerID assignedID of None \<Rightarrow> None | Some (a, p) \<Rightarrow> conn p)"

definition CurrentMaxConcurrency :: "Registry \<Rightarrow> string \<Rightarrow> int option" where
  "CurrentMaxConcurrency r providerID =
     map_option (\<lambda>(a, p). MaxConcurrency (p_Capacity p)) (lookup_provider r providerID)"

definition Snapshot :: "Registry \<Rightarrow> Provider list" where
  "Snapshot r =
     map (\<lambda>p. p\<lparr>conn := None, HardwareCapacity := sanitizeProviderHardwareCapacity (HardwareCapacity p)\<rparr>)
       (all_providers r)"

end
