(* ===== verification/Registry_Invariants.thy ===== *)
theory Registry_Invariants
  imports Pool_Registry
begin

text \<open>
  The invariant of the registry and its preservation by every method of
  \<open>phase4-coordinator/internal/pool/provider.go\<close>: the two maps and the heap agree (\<open>heap_wf\<close>), no
  session with a live recovery hold is \<open>ready\<close> (\<open>hold_safe\<close>), and the seen-model indexes stay within
  their caps (\<open>caps_ok\<close>). The methods are interpreted as an \<open>op_system\<close> at the end.
\<close>

section \<open>The invariant\<close>

definition heap_wf :: "Registry \<Rightarrow> bool" where
  "heap_wf r \<longleftrightarrow>
     distinct (map fst (providers r)) \<and>
     (\<forall>k a. map_of (providers r) k = Some a \<longrightarrow>
        (\<exists>p. heap r a = Some p \<and> ProviderID p = k \<and> sessions r (AssignedID p) = Some a)) \<and>
     (\<forall>s a. sessions r s = Some a \<longrightarrow>
        (\<exists>p. heap r a = Some p \<and> AssignedID p = s \<and> map_of (providers r) (ProviderID p) = Some a)) \<and>
     (\<forall>a. heap r a \<noteq> None \<longrightarrow> a < next_addr r)"

definition hold_safe :: "Registry \<Rightarrow> bool" where
  "hold_safe r \<longleftrightarrow>
     (\<forall>k a p. lookup_provider r k = Some (a, p) \<longrightarrow> held r p \<longrightarrow> p_State p \<noteq> StateReady)"

definition caps_ok :: "Registry \<Rightarrow> bool" where
  "caps_ok r \<longleftrightarrow>
     distinct (seenModelsLifetime r) \<and> length (seenModelsLifetime r) \<le> maxSeenModelsLifetime \<and>
     (\<forall>k. lifetimeContribByProvider r k \<le> maxLifetimeContribPerProvider) \<and>
     distinct (map fst (seenModelsByProvider r)) \<and>
     (\<forall>k seen. map_of (seenModelsByProvider r) k = Some seen \<longrightarrow>
        distinct seen \<and> length seen \<le> maxSeenModelsPerProvider \<and>
        (\<forall>m \<in> set seen. length m \<le> maxModelIDByteLen))"

definition reg_inv :: "Registry \<Rightarrow> bool" where
  "reg_inv r \<longleftrightarrow> heap_wf r \<and> hold_safe r \<and> caps_ok r"

lemma lookup_provider_Some:
  "lookup_provider r k = Some (a, p) \<longleftrightarrow> map_of (providers r) k = Some a \<and> heap r a = Some p"
  by (auto simp: lookup_provider_def split: option.splits)

lemma session_of_Some:
  "session_of r k s = Some (a, p) \<longleftrightarrow> lookup_provider r k = Some (a, p) \<and> AssignedID p = s"
  by (auto simp: session_of_def split: option.splits)

lemma heap_wf_provider:
  "heap_wf r \<Longrightarrow> map_of (providers r) k = Some a \<Longrightarrow>
     \<exists>p. heap r a = Some p \<and> ProviderID p = k \<and> sessions r (AssignedID p) = Some a"
  unfolding heap_wf_def by blast

lemma heap_wf_session:
  "heap_wf r \<Longrightarrow> sessions r s = Some a \<Longrightarrow>
     \<exists>p. heap r a = Some p \<and> AssignedID p = s \<and> map_of (providers r) (ProviderID p) = Some a"
  unfolding heap_wf_def by blast

lemma heap_wf_next: "heap_wf r \<Longrightarrow> heap r a = Some p \<Longrightarrow> a < next_addr r"
  unfolding heap_wf_def by blast

lemma heap_wf_distinct: "heap_wf r \<Longrightarrow> distinct (map fst (providers r))"
  unfolding heap_wf_def by blast

lemma heap_wfI:
  assumes "distinct (map fst (providers r))"
    and "\<And>k a. map_of (providers r) k = Some a \<Longrightarrow>
        \<exists>p. heap r a = Some p \<and> ProviderID p = k \<and> sessions r (AssignedID p) = Some a"
    and "\<And>s a. sessions r s = Some a \<Longrightarrow>
        \<exists>p. heap r a = Some p \<and> AssignedID p = s \<and> map_of (providers r) (ProviderID p) = Some a"
    and "\<And>a p. heap r a = Some p \<Longrightarrow> a < next_addr r"
  shows "heap_wf r"
  unfolding heap_wf_def using assms by blast

lemma lookup_ProviderID: "heap_wf r \<Longrightarrow> lookup_provider r k = Some (a, p) \<Longrightarrow> ProviderID p = k"
  using heap_wf_provider by (fastforce simp: lookup_provider_Some)

lemma lookup_unique:
  assumes "heap_wf r" "map_of (providers r) k = Some a" "map_of (providers r) j = Some a"
  shows "k = j"
  using heap_wf_provider [OF assms(1,2)] heap_wf_provider [OF assms(1,3)] by auto


section \<open>Frame lemmas\<close>

definition same_ids :: "Provider \<Rightarrow> Provider \<Rightarrow> bool" where
  "same_ids q p \<longleftrightarrow> ProviderID q = ProviderID p \<and> AssignedID q = AssignedID p"

lemma put_simps [simp]:
  "heap (put a q r) = (heap r)(a \<mapsto> q)" "providers (put a q r) = providers r"
  "sessions (put a q r) = sessions r" "recoveryHolds (put a q r) = recoveryHolds r"
  "next_addr (put a q r) = next_addr r" "canarySanctions (put a q r) = canarySanctions r"
  "buyerServing (put a q r) = buyerServing r"
  "seenModelsLifetime (put a q r) = seenModelsLifetime r"
  by (simp_all add: put_def)

lemma held_put [simp]: "held (put a q r) p = held r p"
  by (simp add: held_def)

lemma caps_ok_put [simp]: "caps_ok (put a q r) = caps_ok r"
  by (simp add: caps_ok_def put_def)

lemma held_same_ids: "same_ids q p \<Longrightarrow> held r q = held r p"
  by (auto simp: held_def same_ids_def split: option.splits)

lemma heap_wf_put:
  assumes "heap_wf r" "heap r a = Some p" "same_ids q p"
  shows "heap_wf (put a q r)"
proof (rule heap_wfI, goal_cases)
  case 1
  then show ?case using heap_wf_distinct [OF assms(1)] by simp
next
  case (2 k b)
  then have "map_of (providers r) k = Some b" by simp
  from heap_wf_provider [OF assms(1) this] assms(2,3) show ?case by (auto simp: same_ids_def)
next
  case (3 s b)
  then have "sessions r s = Some b" by simp
  from heap_wf_session [OF assms(1) this] assms(2,3) show ?case by (auto simp: same_ids_def)
next
  case (4 b x)
  then show ?case using heap_wf_next [OF assms(1)] assms(2) by (auto split: if_splits)
qed

lemma hold_safe_put:
  assumes "hold_safe r" "heap r a = Some p" "same_ids q p"
    and "held r p \<Longrightarrow> p_State p \<noteq> StateReady \<Longrightarrow> p_State q \<noteq> StateReady"
  shows "hold_safe (put a q r)"
  unfolding hold_safe_def
proof (intro allI impI)
  fix k b x
  assume l: "lookup_provider (put a q r) k = Some (b, x)" and h: "held (put a q r) x"
  show "p_State x \<noteq> StateReady"
  proof (cases "b = a")
    case True
    with l have "x = q" "lookup_provider r k = Some (a, p)"
      using assms(2) by (auto simp: lookup_provider_Some)
    with h assms show ?thesis by (auto simp: hold_safe_def held_same_ids)
  next
    case False
    with l have "lookup_provider r k = Some (b, x)" by (auto simp: lookup_provider_Some)
    with h assms(1) show ?thesis by (auto simp: hold_safe_def)
  qed
qed

lemma put_inv:
  assumes "reg_inv r" "heap r a = Some p" "same_ids q p"
    and "held r p \<Longrightarrow> p_State p \<noteq> StateReady \<Longrightarrow> p_State q \<noteq> StateReady"
  shows "reg_inv (put a q r)"
  using assms heap_wf_put hold_safe_put by (auto simp: reg_inv_def)

text \<open>Removing holds, and any change outside the fields the invariant reads.\<close>

definition same_core :: "Registry \<Rightarrow> Registry \<Rightarrow> bool" where
  "same_core r' r \<longleftrightarrow> heap r' = heap r \<and> providers r' = providers r \<and> sessions r' = sessions r \<and>
     next_addr r' = next_addr r"

lemma same_core_lookup: "same_core r' r \<Longrightarrow> lookup_provider r' k = lookup_provider r k"
  by (auto simp: same_core_def lookup_provider_def split: option.splits)

lemma heap_wf_same_core: "same_core r' r \<Longrightarrow> heap_wf r' = heap_wf r"
  by (simp add: same_core_def heap_wf_def)

lemma hold_safe_fewer:
  assumes "hold_safe r" "same_core r' r"
    and "\<And>k. recoveryHolds r' k = None \<or> recoveryHolds r' k = recoveryHolds r k"
  shows "hold_safe r'"
  unfolding hold_safe_def
proof (intro allI impI)
  fix k a p
  assume "lookup_provider r' k = Some (a, p)" "held r' p"
  moreover from this have "held r p" using assms(3) [of "ProviderID p"]
    by (cases "recoveryHolds r (ProviderID p)") (auto simp: held_def)
  ultimately show "p_State p \<noteq> StateReady"
    using assms by (auto simp: hold_safe_def same_core_lookup)
qed

lemma clearBreaker_simps [simp]:
  "same_core (clearBreakerStateLocked k r) r" "caps_ok (clearBreakerStateLocked k r) = caps_ok r"
  "recoveryHolds (clearBreakerStateLocked k r) = (recoveryHolds r)(k := None)"
  by (simp_all add: clearBreakerStateLocked_def same_core_def caps_ok_def)

lemma clearBreaker_inv: "reg_inv r \<Longrightarrow> reg_inv (clearBreakerStateLocked k r)"
  by (auto simp: reg_inv_def heap_wf_same_core [OF clearBreaker_simps(1)]
      intro!: hold_safe_fewer [where r = r])

lemma cleanup_inv: "reg_inv r \<Longrightarrow> reg_inv (applyStateCleanupLocked k s r)"
  by (simp add: applyStateCleanupLocked_def clearBreaker_inv)

lemma setState_inv:
  assumes "reg_inv r" "heap r a = Some p" "nxt = StateReady \<Longrightarrow> held r p \<Longrightarrow> p_State p = StateReady"
  shows "reg_inv (setStateLocked a nxt r)"
  using assms by (auto simp: setStateLocked_def same_ids_def intro!: cleanup_inv put_inv)

lemma hold_inv:
  assumes "reg_inv r"
    and "\<And>a p. lookup_provider r k = Some (a, p) \<Longrightarrow> AssignedID p = s \<Longrightarrow> p_State p \<noteq> StateReady"
  shows "reg_inv (hold k s reason r)"
proof -
  have core: "same_core (hold k s reason r) r" and caps: "caps_ok (hold k s reason r) = caps_ok r"
    by (simp_all add: hold_def same_core_def caps_ok_def)
  have "hold_safe (hold k s reason r)"
    unfolding hold_safe_def same_core_lookup [OF core]
  proof (intro allI impI)
    fix j a p
    assume l: "lookup_provider r j = Some (a, p)" and h: "held (hold k s reason r) p"
    have "ProviderID p = j" using assms(1) l by (auto simp: reg_inv_def lookup_ProviderID)
    with l h assms show "p_State p \<noteq> StateReady"
      by (auto simp: held_def hold_def reg_inv_def hold_safe_def split: if_splits)
  qed
  with assms(1) caps show ?thesis by (simp add: reg_inv_def heap_wf_same_core [OF core])
qed


section \<open>Seen models and bulk updates\<close>

lemma recordSeen_core [simp]:
  "same_core (recordSeenModelLocked k m r) r"
  "recoveryHolds (recordSeenModelLocked k m r) = recoveryHolds r"
  "canarySanctions (recordSeenModelLocked k m r) = canarySanctions r"
  by (simp_all add: recordSeenModelLocked_def same_core_def Let_def)

lemma caps_ok_seen:
  "caps_ok r \<Longrightarrow> map_of (seenModelsByProvider r) k = Some seen \<Longrightarrow>
     distinct seen \<and> length seen \<le> maxSeenModelsPerProvider \<and>
     (\<forall>m \<in> set seen. length m \<le> maxModelIDByteLen)"
  unfolding caps_ok_def by blast

lemma caps_ok_parts:
  assumes "caps_ok r"
  shows "distinct (seenModelsLifetime r)" "length (seenModelsLifetime r) \<le> maxSeenModelsLifetime"
    "lifetimeContribByProvider r k \<le> maxLifetimeContribPerProvider"
    "distinct (map fst (seenModelsByProvider r))"
  using assms unfolding caps_ok_def by blast+

lemma caps_okI:
  assumes "distinct (seenModelsLifetime r)" "length (seenModelsLifetime r) \<le> maxSeenModelsLifetime"
    "\<And>k. lifetimeContribByProvider r k \<le> maxLifetimeContribPerProvider"
    "distinct (map fst (seenModelsByProvider r))"
    "\<And>k seen. map_of (seenModelsByProvider r) k = Some seen \<Longrightarrow>
        distinct seen \<and> length seen \<le> maxSeenModelsPerProvider \<and>
        (\<forall>m \<in> set seen. length m \<le> maxModelIDByteLen)"
  shows "caps_ok r"
  unfolding caps_ok_def using assms by blast

lemma caps_ok_update_seen:
  assumes "caps_ok r" "distinct seen" "length seen \<le> maxSeenModelsPerProvider"
    "\<forall>m \<in> set seen. length m \<le> maxModelIDByteLen"
  shows "caps_ok (r\<lparr>seenModelsByProvider := AList.update k seen (seenModelsByProvider r)\<rparr>)"
proof (rule caps_okI, goal_cases)
  case (5 j x)
  then show ?case using assms(2-4) caps_ok_seen [OF assms(1), of j x] by (cases "j = k") simp_all
qed (simp_all add: caps_ok_parts [OF assms(1)] distinct_update)

lemma caps_ok_delete_seen:
  assumes "caps_ok r"
  shows "caps_ok (r\<lparr>seenModelsByProvider := AList.delete k (seenModelsByProvider r)\<rparr>)"
proof (rule caps_okI, goal_cases)
  case (5 j x)
  then show ?case using caps_ok_seen [OF assms, of j x] by (cases "j = k") simp_all
qed (simp_all add: caps_ok_parts [OF assms] distinct_delete)

lemma caps_ok_lifetime:
  assumes "caps_ok r" "m \<notin> set (seenModelsLifetime r)"
    "length (seenModelsLifetime r) < maxSeenModelsLifetime"
    "lifetimeContribByProvider r k < maxLifetimeContribPerProvider"
  shows "caps_ok (r\<lparr>seenModelsLifetime := m # seenModelsLifetime r,
           lifetimeContribByProvider := (lifetimeContribByProvider r)
             (k := lifetimeContribByProvider r k + 1)\<rparr>)"
  using assms unfolding caps_ok_def by simp

lemma caps_ok_dropped [simp]:
  "caps_ok (r\<lparr>lifetimeCapDroppedCount := n\<rparr>) = caps_ok r"
  "caps_ok (r\<lparr>lifetimeCapDroppedCount := n, lifetimeCapWarnedOnce := b\<rparr>) = caps_ok r"
  by (simp_all add: caps_ok_def)

lemma recordSeen_caps:
  assumes "caps_ok r" shows "caps_ok (recordSeenModelLocked k m r)"
proof (cases "k = [] \<or> m = [] \<or> length m > maxModelIDByteLen")
  case False
  define old where "old = (case map_of (seenModelsByProvider r) k of None \<Rightarrow> [] | Some s \<Rightarrow> s)"
  define new where "new = (if m \<notin> set old \<and> length old < maxSeenModelsPerProvider then m # old else old)"
  define r1 where "r1 = r\<lparr>seenModelsByProvider := AList.update k new (seenModelsByProvider r)\<rparr>"
  have "distinct old \<and> length old \<le> maxSeenModelsPerProvider \<and> (\<forall>x \<in> set old. length x \<le> maxModelIDByteLen)"
    using caps_ok_seen [OF assms, of k] by (cases "map_of (seenModelsByProvider r) k") (auto simp: old_def)
  then have "distinct new" "length new \<le> maxSeenModelsPerProvider"
    "\<forall>x \<in> set new. length x \<le> maxModelIDByteLen"
    using False by (auto simp: new_def)
  then have r1: "caps_ok r1" unfolding r1_def by (intro caps_ok_update_seen assms)
  have "recordSeenModelLocked k m r =
     (if ToLower m \<in> set (seenModelsLifetime r1) then r1
      else if lifetimeContribByProvider r1 k \<ge> maxLifetimeContribPerProvider
      then r1\<lparr>lifetimeCapDroppedCount := lifetimeCapDroppedCount r1 + 1\<rparr>
      else if length (seenModelsLifetime r1) \<ge> maxSeenModelsLifetime
      then r1\<lparr>lifetimeCapDroppedCount := lifetimeCapDroppedCount r1 + 1, lifetimeCapWarnedOnce := True\<rparr>
      else r1\<lparr>seenModelsLifetime := ToLower m # seenModelsLifetime r1,
              lifetimeContribByProvider := (lifetimeContribByProvider r1)
                (k := lifetimeContribByProvider r1 k + 1)\<rparr>)"
    using False unfolding recordSeenModelLocked_def Let_def old_def [symmetric] new_def [symmetric]
      r1_def [symmetric] by simp
  with r1 caps_ok_lifetime [OF r1, of "ToLower m" k] show ?thesis by (simp add: not_le)
qed (use assms in \<open>auto simp: recordSeenModelLocked_def\<close>)

lemma same_core_trans: "same_core x y \<Longrightarrow> same_core y z \<Longrightarrow> same_core x z"
  by (simp add: same_core_def)

lemma same_core_refl [simp]: "same_core r r"
  by (simp add: same_core_def)

lemma recordSeen_fold:
  "same_core (fold (recordSeenModelLocked k) ms r) r \<and>
   recoveryHolds (fold (recordSeenModelLocked k) ms r) = recoveryHolds r \<and>
   canarySanctions (fold (recordSeenModelLocked k) ms r) = canarySanctions r \<and>
   (caps_ok r \<longrightarrow> caps_ok (fold (recordSeenModelLocked k) ms r))"
proof (induction ms arbitrary: r)
  case (Cons m ms)
  from Cons [of "recordSeenModelLocked k m r"] show ?case
    by (auto simp: recordSeen_caps intro: same_core_trans)
qed simp

lemma recordUnion_core [simp]:
  "same_core (recordSeenModelsUnionLocked k m ms r) r"
  "recoveryHolds (recordSeenModelsUnionLocked k m ms r) = recoveryHolds r"
  "canarySanctions (recordSeenModelsUnionLocked k m ms r) = canarySanctions r"
  using recordSeen_fold [of k ms "recordSeenModelLocked k m r"]
  by (auto simp: recordSeenModelsUnionLocked_def intro: same_core_trans)

lemma recordUnion_heap [simp]: "heap (recordSeenModelsUnionLocked k m ms r) = heap r"
  using recordUnion_core(1) by (simp add: same_core_def)

lemma recordUnion_caps: "caps_ok r \<Longrightarrow> caps_ok (recordSeenModelsUnionLocked k m ms r)"
  using recordSeen_fold [of k ms "recordSeenModelLocked k m r"]
  by (simp add: recordSeenModelsUnionLocked_def recordSeen_caps)

lemma recordUnion_inv: "reg_inv r \<Longrightarrow> reg_inv (recordSeenModelsUnionLocked k m ms r)"
  by (auto simp: reg_inv_def heap_wf_same_core [OF recordUnion_core(1)] recordUnion_caps
      intro!: hold_safe_fewer [where r = r])

definition id_preserving :: "(Provider \<Rightarrow> Provider) \<Rightarrow> bool" where
  "id_preserving f \<longleftrightarrow> (\<forall>p. same_ids (f p) p \<and> p_State (f p) = p_State p)"

lemma id_preservingI:
  "(\<And>p. ProviderID (f p) = ProviderID p) \<Longrightarrow> (\<And>p. AssignedID (f p) = AssignedID p) \<Longrightarrow>
     (\<And>p. p_State (f p) = p_State p) \<Longrightarrow> id_preserving f"
  by (simp add: id_preserving_def same_ids_def)

lemma put_id_inv: "reg_inv r \<Longrightarrow> heap r a = Some p \<Longrightarrow> id_preserving f \<Longrightarrow> reg_inv (put a (f p) r)"
  by (rule put_inv) (auto simp: id_preserving_def)

lemma update_all_inv:
  assumes "reg_inv r" "id_preserving f" shows "reg_inv (update_all f r)"
proof -
  have "reg_inv s \<Longrightarrow> reg_inv (fold (\<lambda>(k, a) r. case heap r a of None \<Rightarrow> r | Some p \<Rightarrow> put a (f p) r) xs s)"
    for xs s
  proof (induction xs arbitrary: s)
    case (Cons x xs)
    obtain k a where x: "x = (k, a)" by (cases x)
    have "reg_inv (case heap s a of None \<Rightarrow> s | Some p \<Rightarrow> put a (f p) s)"
      using Cons.prems assms(2) by (auto split: option.splits intro: put_id_inv [where f = f])
    from Cons.IH [OF this] show ?case by (simp add: x)
  qed simp
  with assms(1) show ?thesis by (simp add: update_all_def)
qed

lemma update_session_inv:
  "reg_inv r \<Longrightarrow> id_preserving f \<Longrightarrow> reg_inv (fst (update_session k s f r))"
  by (auto simp: update_session_def session_of_Some lookup_provider_Some intro!: put_id_inv [where f = f]
      split: option.splits)

lemma change_session_inv:
  "reg_inv r \<Longrightarrow> id_preserving f \<Longrightarrow> reg_inv (fst (change_session k s c f r))"
  by (auto simp: change_session_def session_of_Some lookup_provider_Some intro!: put_id_inv [where f = f]
      split: option.splits)


section \<open>Every method keeps the invariant\<close>

lemma reg_inv_irrelevant [simp]:
  "reg_inv (r\<lparr>breakerFaults := x\<rparr>) = reg_inv r" "reg_inv (r\<lparr>lastBreakerRecoveries := y\<rparr>) = reg_inv r"
  "reg_inv (r\<lparr>canarySanctions := z\<rparr>) = reg_inv r" "reg_inv (r\<lparr>buyerServing := b\<rparr>) = reg_inv r"
  by (simp_all add: reg_inv_def heap_wf_def hold_safe_def caps_ok_def lookup_provider_def held_def
      cong: option.case_cong)

lemma reg_inv_cong:
  assumes "same_core r' r" "recoveryHolds r' = recoveryHolds r" "caps_ok r' = caps_ok r"
  shows "reg_inv r' = reg_inv r"
  using assms by (auto simp: reg_inv_def heap_wf_same_core hold_safe_def same_core_lookup held_def
      cong: option.case_cong)

lemma drop_hold_inv: "reg_inv r \<Longrightarrow> reg_inv (r\<lparr>recoveryHolds := (recoveryHolds r)(k := None)\<rparr>)"
proof -
  assume "reg_inv r"
  moreover have "same_core (r\<lparr>recoveryHolds := (recoveryHolds r)(k := None)\<rparr>) r"
    by (simp add: same_core_def)
  moreover from this have "hold_safe (r\<lparr>recoveryHolds := (recoveryHolds r)(k := None)\<rparr>)"
    using \<open>reg_inv r\<close> by (auto simp: reg_inv_def intro!: hold_safe_fewer [where r = r])
  ultimately show ?thesis by (auto simp: reg_inv_def heap_wf_same_core caps_ok_def)
qed

lemma lookup_irrelevant [simp]:
  "lookup_provider (r\<lparr>breakerFaults := x\<rparr>) k = lookup_provider r k"
  "lookup_provider (r\<lparr>canarySanctions := z\<rparr>) k = lookup_provider r k"
  "lookup_provider (r\<lparr>recoveryHolds := h\<rparr>) k = lookup_provider r k"
  by (simp_all add: lookup_provider_def cong: option.case_cong)

lemma setState_heap:
  assumes "heap r a = Some p"
  shows "heap (setStateLocked a nxt r) = (heap r)(a \<mapsto> p\<lparr>p_State := nxt\<rparr>)"
    "providers (setStateLocked a nxt r) = providers r"
  using assms by (simp_all add: setStateLocked_def applyStateCleanupLocked_def clearBreakerStateLocked_def)

lemma degrade_hold_inv:
  assumes "reg_inv r" "map_of (providers r) k = Some a" "heap r a = Some p"
  shows "reg_inv (hold k s reason (setStateLocked a StateDegraded r))"
proof (rule hold_inv)
  show "reg_inv (setStateLocked a StateDegraded r)" using assms by (auto intro: setState_inv)
  fix b q
  assume "lookup_provider (setStateLocked a StateDegraded r) k = Some (b, q)"
  then show "p_State q \<noteq> StateReady"
    using assms by (auto simp: lookup_provider_Some setState_heap)
qed

lemma SetTier_inv: "reg_inv r \<Longrightarrow> reg_inv (fst (SetTier k t r))"
  by (auto simp: SetTier_def lookup_provider_Some same_ids_def intro!: put_inv split: option.splits)

lemma UpdateHashStatuses_inv: "reg_inv r \<Longrightarrow> reg_inv (fst (UpdateHashStatuses f r))"
  by (auto simp: UpdateHashStatuses_def intro!: update_all_inv id_preservingI)

lemma ExpireLegacyBridge_inv: "reg_inv r \<Longrightarrow> reg_inv (fst (ExpireLegacyBridgeAdmissions r))"
  by (auto simp: ExpireLegacyBridgeAdmissions_def intro!: update_all_inv id_preservingI)

lemma ExpireLegacyModelHash_inv: "reg_inv r \<Longrightarrow> reg_inv (fst (ExpireLegacyModelHashAdmissions r))"
  by (auto simp: ExpireLegacyModelHashAdmissions_def intro!: update_all_inv id_preservingI)

lemma MarkHashStatus_inv: "reg_inv r \<Longrightarrow> reg_inv (fst (MarkHashStatusIfSession k s h r))"
  by (auto simp: MarkHashStatusIfSession_def intro!: update_session_inv id_preservingI)

lemma MarkHTTPForwardingOnly_inv: "reg_inv r \<Longrightarrow> reg_inv (fst (MarkHTTPForwardingOnly k s r))"
  by (auto simp: MarkHTTPForwardingOnly_def intro!: update_session_inv id_preservingI)

lemma MarkState_inv: "reg_inv r \<Longrightarrow> reg_inv (fst (MarkState k s st r))"
  by (auto simp: MarkState_def session_of_Some lookup_provider_Some canSetCoordinatorStateLocked_def
      intro!: setState_inv split: option.splits if_splits)

lemma MarkDegraded_inv: "reg_inv r \<Longrightarrow> reg_inv (fst (MarkDegradedForRecovery k s reason r))"
  by (auto simp: MarkDegradedForRecovery_def session_of_Some lookup_provider_Some
      intro!: degrade_hold_inv split: option.splits)

lemma ready_after_release_inv:
  assumes "reg_inv r" "lookup_provider r k = Some (a, p)"
  shows "reg_inv (setStateLocked a StateReady (r\<lparr>recoveryHolds := (recoveryHolds r)(k := None)\<rparr>))"
proof (rule setState_inv)
  have "ProviderID p = k" using assms by (auto simp: reg_inv_def lookup_ProviderID)
  then show "held (r\<lparr>recoveryHolds := (recoveryHolds r)(k := None)\<rparr>) p \<Longrightarrow> p_State p = StateReady"
    by (simp add: held_def)
qed (use assms in \<open>auto simp: lookup_provider_Some intro: drop_hold_inv\<close>)

lemma MarkRecovered_inv:
  assumes "reg_inv r" shows "reg_inv (fst (MarkRecovered k s t now r))"
proof (cases "session_of r k s")
  case (Some ap)
  obtain a p where ap: "ap = (a, p)" by (cases ap)
  then have l: "lookup_provider r k = Some (a, p)" using Some by (simp add: session_of_Some)
  then have "setStateLocked a StateReady (r\<lparr>recoveryHolds := (recoveryHolds r)(k := None)\<rparr>)
      = (setStateLocked a StateReady r)\<lparr>recoveryHolds := (recoveryHolds r)(k := None)\<rparr>"
    by (simp add: setStateLocked_def applyStateCleanupLocked_def put_def lookup_provider_Some)
  with ready_after_release_inv [OF assms l]
  have "reg_inv ((setStateLocked a StateReady r)\<lparr>recoveryHolds := (recoveryHolds r)(k := None)\<rparr>)"
    by simp
  moreover have "recoveryHolds (setStateLocked a StateReady r) = recoveryHolds r"
    using l by (simp add: setStateLocked_def applyStateCleanupLocked_def lookup_provider_Some)
  moreover have "reg_inv (x\<lparr>breakerFaults := b, recoveryHolds := h\<rparr>) = reg_inv (x\<lparr>recoveryHolds := h\<rparr>)"
    "reg_inv (x\<lparr>breakerFaults := b, recoveryHolds := h, lastBreakerRecoveries := y\<rparr>)
       = reg_inv (x\<lparr>recoveryHolds := h\<rparr>)" for x b h y
    by (rule reg_inv_cong; simp add: same_core_def caps_ok_def)+
  ultimately show ?thesis using assms Some ap
    by (simp add: MarkRecovered_def Let_def split: option.split)
qed (use assms in \<open>simp add: MarkRecovered_def\<close>)


lemma recordCanaryResult_inv:
  assumes "reg_inv r" shows "reg_inv (fst (recordCanaryResult k s passed t now th force r))"
proof (cases "session_of r k s")
  case (Some ap)
  obtain a p where ap: "ap = (a, p)" by (cases ap)
  then have l: "map_of (providers r) k = Some a" "heap r a = Some p"
    using Some by (simp_all add: session_of_Some lookup_provider_Some)
  have 1: "reg_inv (put a (p\<lparr>p_Canary := c\<rparr>) r)" for c
    by (rule put_inv [OF assms l(2)]) (simp_all add: same_ids_def)
  have 2: "reg_inv (setStateLocked a StateReady ((put a (p\<lparr>p_Canary := c\<rparr>) r)
      \<lparr>canarySanctions := z, recoveryHolds := (recoveryHolds r)(k := None)\<rparr>))" for c z
    using ready_after_release_inv [of "(put a (p\<lparr>p_Canary := c\<rparr>) r)\<lparr>canarySanctions := z\<rparr>" k a] 1 l
    by (simp add: lookup_provider_Some)
  have 3: "reg_inv (setStateLocked a StateUnavailable (put a (p\<lparr>p_Canary := c\<rparr>) r))" for c
    by (rule setState_inv [OF 1]) auto
  have 4: "reg_inv (hold k s RecoveryReasonCanary (setStateLocked a StateDegraded (put a (p\<lparr>p_Canary := c\<rparr>) r)))" for c
    by (rule degrade_hold_inv [OF 1]) (simp_all add: l)
  show ?thesis using assms Some ap 1 2 3 4 by (simp add: recordCanaryResult_def Let_def)
qed (use assms in \<open>simp add: recordCanaryResult_def Let_def\<close>)

lemma RecordBreakerFault_inv:
  assumes "reg_inv r" shows "reg_inv (fst (RecordBreakerFault k s t now th w r))"
proof (cases "session_of r k s")
  case (Some ap)
  obtain a p where ap: "ap = (a, p)" by (cases ap)
  then have l: "map_of (providers r) k = Some a" "heap r a = Some p"
    using Some by (simp_all add: session_of_Some lookup_provider_Some)
  have "reg_inv (setStateLocked a StateUnavailable (r\<lparr>breakerFaults := b\<rparr>))" for b
    using assms l by (intro setState_inv) auto
  moreover have "reg_inv (hold k s RecoveryReasonBreaker (setStateLocked a StateDegraded (r\<lparr>breakerFaults := b\<rparr>)))" for b
    using assms l by (intro degrade_hold_inv) auto
  ultimately show ?thesis using assms Some ap by (simp add: RecordBreakerFault_def Let_def)
qed (use assms in \<open>simp add: RecordBreakerFault_def Let_def\<close>)

lemma LoadCanarySanctions_inv: "reg_inv r \<Longrightarrow> reg_inv (LoadCanarySanctions xs r)"
  unfolding LoadCanarySanctions_def by (induction xs arbitrary: r) auto

lemma ClearCanarySanction_inv:
  assumes "reg_inv r" shows "reg_inv (fst (ClearCanarySanction k r))"
proof -
  define r1 where "r1 = r\<lparr>canarySanctions := AList.delete k (canarySanctions r)\<rparr>"
  define f :: "Provider \<Rightarrow> Provider" where "f = (\<lambda>p. p\<lparr>p_Canary := (p_Canary p)\<lparr>CanaryFailCount := 0, CanaryLastFailedAt := None\<rparr>\<rparr>)"
  define r2 where "r2 = (case lookup_provider r k of None \<Rightarrow> r1 | Some (a, p) \<Rightarrow> put a (f p) r1)"
  have r1: "reg_inv r1" using assms by (simp add: r1_def)
  then have r2: "reg_inv r2"
    using put_id_inv [of r1 _ _ f]
    by (auto simp: r2_def r1_def f_def lookup_provider_Some id_preserving_def same_ids_def split: option.splits)
  have holds: "recoveryHolds r2 = recoveryHolds r"
    by (simp add: r2_def r1_def split: option.split)
  have same: "lookup_provider r1 k = lookup_provider r k" by (simp add: r1_def)
  have 3: "reg_inv (hold k (h_assignedID h) RecoveryReasonOperatorClear r2)"
    if "lookup_provider r k = Some (a, p)" "p_State p = StateDegraded" for a p h
  proof (rule hold_inv [OF r2])
    fix b q
    assume "lookup_provider r2 k = Some (b, q)"
    moreover have "r2 = put a (f p) r1" using that by (simp add: r2_def)
    ultimately show "p_State q \<noteq> StateReady"
      using that by (auto simp: f_def r1_def lookup_provider_Some)
  qed
  have 4: "reg_inv (r2\<lparr>recoveryHolds := (recoveryHolds r2)(k := None)\<rparr>)" by (rule drop_hold_inv [OF r2])
  show ?thesis
  proof (cases "recoveryHolds r k")
    case None
    then have "fst (ClearCanarySanction k r) = r2"
      by (cases "lookup_provider r k") (auto simp: ClearCanarySanction_def Let_def r2_def r1_def f_def)
    with r2 show ?thesis by simp
  next
    case (Some h)
    show ?thesis
    proof (cases "lookup_provider r k")
      case None
      with Some r2 4 show ?thesis by (simp add: ClearCanarySanction_def Let_def r2_def r1_def)
    next
      case (Some ap)
      obtain a p where ap: "lookup_provider r k = Some (a, p)" using Some by (cases ap) simp
      then have r2_eq: "r2 = put a (f p) r1" by (simp add: r2_def)
      show ?thesis using \<open>recoveryHolds r k = Some h\<close> ap r2 3 [OF ap, of h] 4
        unfolding r2_eq f_def r1_def by (auto simp: ClearCanarySanction_def Let_def)
    qed
  qed
qed

lemma NoteBuyerSuccess_inv: "reg_inv r \<Longrightarrow> reg_inv (NoteBuyerSuccess k t now r)"
  by (auto simp: NoteBuyerSuccess_def lookup_provider_Some same_ids_def intro!: put_inv split: option.splits)

lemma RecordSELiveness_inv: "reg_inv r \<Longrightarrow> reg_inv (fst (RecordSELivenessResult k s b t now n r))"
  by (auto simp: RecordSELivenessResult_def Let_def session_of_Some lookup_provider_Some same_ids_def
      intro!: put_inv split: option.splits)

lemma SetSEPublicKey_inv: "reg_inv r \<Longrightarrow> reg_inv (fst (SetSEPublicKey k s x y r))"
  by (auto simp: SetSEPublicKey_def intro!: update_session_inv id_preservingI)

lemma SetModelClassOPoIPass_inv: "reg_inv r \<Longrightarrow> reg_inv (SetModelClassOPoIPass k s x r)"
  by (auto simp: SetModelClassOPoIPass_def intro!: update_session_inv id_preservingI)

lemma RecordCanaryLatency_inv: "reg_inv r \<Longrightarrow> reg_inv (RecordCanaryLatency k s x y r)"
  by (auto simp: RecordCanaryLatency_def Let_def intro!: update_session_inv id_preservingI)

lemma gates_inv:
  assumes "reg_inv r"
  shows "reg_inv (fst (SetBenchmarkQuarantine k s b r))"
    "reg_inv (fst (SetAdmissionCeilingExcluded k s b r))"
    "reg_inv (fst (SetAdmissionEvidenceStale k s b r))"
    "reg_inv (fst (SetAdmissionSandboxed k s b r))"
    "reg_inv (fst (SetAdmissionGateFlags k s fl r))"
    "reg_inv (fst (QuarantineForProofOfWeightsReload r))"
    "reg_inv (fst (ClearBenchmarkQuarantines r))"
proof -
  show "reg_inv (fst (SetAdmissionGateFlags k s fl r))"
    using assms by (auto simp: SetAdmissionGateFlags_def session_of_Some lookup_provider_Some same_ids_def
        intro!: put_inv split: option.splits)
qed (use assms in \<open>auto simp: SetBenchmarkQuarantine_def SetAdmissionCeilingExcluded_def
    SetAdmissionEvidenceStale_def SetAdmissionSandboxed_def QuarantineForProofOfWeightsReload_def
    ClearBenchmarkQuarantines_def intro!: change_session_inv update_all_inv id_preservingI\<close>)


lemma heartbeatFields_ids [simp]:
  "ProviderID (heartbeatFields r hb p) = ProviderID p" "AssignedID (heartbeatFields r hb p) = AssignedID p"
  "p_State (heartbeatFields r hb p) = p_State p"
  by (simp_all add: heartbeatFields_def)

lemma heartbeatLoading_ids [simp]:
  "ProviderID (heartbeatLoading hb p) = ProviderID p" "AssignedID (heartbeatLoading hb p) = AssignedID p"
  "p_State (heartbeatLoading hb p) = p_State p"
  by (simp_all add: heartbeatLoading_def)

lemma stateUpdateFields_ids [simp]:
  "ProviderID (stateUpdateFields u now p) = ProviderID p"
  "AssignedID (stateUpdateFields u now p) = AssignedID p"
  "p_State (stateUpdateFields u now p) = p_State p"
  by (simp_all add: stateUpdateFields_def Let_def)

lemma provider_state_inv:
  assumes "reg_inv r" "heap r a = Some p"
  shows "reg_inv (if canApplyProviderStateLocked r p nxt then setStateLocked a nxt r else r)"
  using assms by (auto simp: canApplyProviderStateLocked_def intro!: setState_inv split: if_splits)

lemma same_ids_put_inv:
  assumes "reg_inv r" "heap r a = Some p" "same_ids q p" "p_State q = p_State p"
  shows "reg_inv (put a q r)"
  using assms by (auto intro: put_inv)

lemma applyHeartbeat_inv:
  assumes "reg_inv r" shows "reg_inv (fst (applyHeartbeatLocked k s hb r))"
proof (cases "session_of r k s")
  case (Some ap)
  obtain a p where ap: "ap = (a, p)" by (cases ap)
  then have l: "heap r a = Some p" using Some by (simp add: session_of_Some lookup_provider_Some)
  define q where "q = heartbeatFields r hb p"
  define r1 where "r1 = recordSeenModelsUnionLocked (ProviderID q) (hb_ModelID hb) (SupportedModels q) (put a q r)"
  define r2 where "r2 = (if hb_Status hb \<noteq> StateUnset \<and> hb_Status hb \<noteq> p_State q
      \<and> canApplyProviderStateLocked r1 q (hb_Status hb) then setStateLocked a (hb_Status hb) r1 else r1)"
  have q: "same_ids q p" "p_State q = p_State p" by (simp_all add: q_def same_ids_def)
  have r1: "reg_inv r1" unfolding r1_def
    by (intro recordUnion_inv same_ids_put_inv [OF assms l] q)
  have h1: "heap r1 a = Some q" by (simp add: r1_def)
  have r2: "reg_inv r2" using provider_state_inv [OF r1 h1, of "hb_Status hb"] r1
    by (auto simp: r2_def)
  have "heap r2 a \<noteq> None" using h1 by (simp add: r2_def setState_heap)
  then obtain q2 where h2: "heap r2 a = Some q2" by blast
  have "reg_inv (put a (heartbeatLoading hb q2) r2)"
    by (rule same_ids_put_inv [OF r2 h2]) (simp_all add: same_ids_def)
  then show ?thesis
    unfolding applyHeartbeatLocked_def Some ap option.case prod.case Let_def q_def [symmetric]
      r1_def [symmetric] r2_def [symmetric] h2 by simp
qed (use assms in \<open>simp add: applyHeartbeatLocked_def\<close>)

lemma ApplyStateUpdate_inv:
  assumes "reg_inv r" shows "reg_inv (fst (ApplyStateUpdate k s u now r))"
proof (cases "session_of r k s")
  case (Some ap)
  obtain a p where ap: "ap = (a, p)" by (cases ap)
  then have l: "heap r a = Some p" using Some by (simp add: session_of_Some lookup_provider_Some)
  define r1 where "r1 = (if canApplyProviderStateLocked r p (su_State u) then setStateLocked a (su_State u) r else r)"
  have r1: "reg_inv r1" unfolding r1_def by (rule provider_state_inv [OF assms l])
  have "heap r1 a \<noteq> None" using l by (simp add: r1_def setState_heap)
  then obtain q where h: "heap r1 a = Some q" by blast
  have "reg_inv (put a (stateUpdateFields u now q) r1)"
    by (rule same_ids_put_inv [OF r1 h]) (simp_all add: same_ids_def)
  then show ?thesis using Some ap h by (simp add: ApplyStateUpdate_def Let_def r1_def [symmetric])
qed (use assms in \<open>simp add: ApplyStateUpdate_def\<close>)

lemma Touch_inv: "reg_inv r \<Longrightarrow> reg_inv (Touch k s t r)"
  by (auto simp: Touch_def Let_def same_ids_def intro!: put_inv split: option.splits if_splits)

lemma ReplaceTier2Session_inv: "reg_inv r \<Longrightarrow> reg_inv (fst (ReplaceTier2Session k s kid n r))"
  by (auto simp: ReplaceTier2Session_def session_of_Some lookup_provider_Some same_ids_def
      intro!: put_inv split: option.splits)

lemma removeSession_inv:
  assumes "reg_inv r" "lookup_provider r k = Some (a, p)" "AssignedID p = s"
  shows "reg_inv (removeSession k s r)"
proof -
  have wf: "heap_wf r" and safe: "hold_safe r" and caps: "caps_ok r" using assms(1) by (auto simp: reg_inv_def)
  have pid: "ProviderID p = k" using lookup_ProviderID [OF wf assms(2)] .
  let ?r = "r\<lparr>providers := AList.delete k (providers r), sessions := (sessions r)(s := None),
      seenModelsByProvider := AList.delete k (seenModelsByProvider r)\<rparr>"
  have "heap_wf ?r"
  proof (rule heap_wfI, goal_cases)
    case 1
    show ?case using heap_wf_distinct [OF wf] by (simp add: distinct_delete)
  next
    case (2 j b)
    then have j: "j \<noteq> k" "map_of (providers r) j = Some b" by (auto split: if_splits)
    from heap_wf_provider [OF wf j(2)] obtain x where
      x: "heap r b = Some x" "ProviderID x = j" "sessions r (AssignedID x) = Some b" by blast
    have "AssignedID x \<noteq> s"
    proof
      assume "AssignedID x = s"
      with heap_wf_provider [OF wf, of k a] assms(2,3) x(3) have "b = a" by (auto simp: lookup_provider_Some)
      with x j assms(2) pid show False by (auto simp: lookup_provider_Some)
    qed
    with x show ?case by auto
  next
    case (3 t b)
    then have t: "t \<noteq> s" "sessions r t = Some b" by (auto split: if_splits)
    from heap_wf_session [OF wf t(2)] obtain x where
      x: "heap r b = Some x" "AssignedID x = t" "map_of (providers r) (ProviderID x) = Some b" by blast
    have "ProviderID x \<noteq> k"
      using x t assms(2,3) by (auto simp: lookup_provider_Some)
    with x show ?case by auto
  next
    case (4 b x)
    then show ?case using heap_wf_next [OF wf] by auto
  qed
  moreover have "hold_safe ?r"
    unfolding hold_safe_def
  proof (intro allI impI)
    fix j b x
    assume "lookup_provider ?r j = Some (b, x)" "held ?r x"
    then have "lookup_provider r j = Some (b, x)" "held r x"
      by (auto simp: lookup_provider_Some held_def split: if_splits cong: option.case_cong)
    with safe show "p_State x \<noteq> StateReady" unfolding hold_safe_def by blast
  qed
  moreover have "caps_ok ?r"
    using caps_ok_delete_seen [OF caps, of k] unfolding caps_ok_def by simp
  ultimately have "reg_inv ?r" by (simp add: reg_inv_def)
  then show ?thesis by (simp add: removeSession_def clearBreaker_inv)
qed

lemma RemoveIfSession_inv: "reg_inv r \<Longrightarrow> reg_inv (fst (RemoveIfSession k s r))"
  by (auto simp: RemoveIfSession_def session_of_Some intro!: removeSession_inv split: option.splits)

lemma RemoveIfSessionState_inv: "reg_inv r \<Longrightarrow> reg_inv (fst (RemoveIfSessionState k s st r))"
  by (auto simp: RemoveIfSessionState_def session_of_Some intro!: removeSession_inv split: option.splits)


section \<open>Registration keeps the invariant\<close>

lemma applyCanarySanction_inv:
  assumes "reg_inv r" "map_of (providers r) (ProviderID p) = Some a" "heap r a = Some p"
  shows "reg_inv (applyCanarySanctionLocked a r)"
proof -
  have "reg_inv (put a (p\<lparr>p_Canary := c\<rparr>) r)" for c
    by (rule same_ids_put_inv [OF assms(1,3)]) (simp_all add: same_ids_def)
  then have "reg_inv (hold (ProviderID p) (AssignedID p) RecoveryReasonCanary
      (setStateLocked a StateDegraded (put a (p\<lparr>p_Canary := c\<rparr>) r)))" for c
    using assms(2) by (intro degrade_hold_inv) auto
  then show ?thesis using assms by (simp add: applyCanarySanctionLocked_def split: option.split)
qed

text \<open>The registry after the new object has been linked into both maps.\<close>

definition installed :: "Provider option \<Rightarrow> Provider \<Rightarrow> Registry \<Rightarrow> Registry" where
  "installed existing q r =
     (let r = (case existing of None \<Rightarrow> r
               | Some e \<Rightarrow> r\<lparr>sessions := (sessions r)(AssignedID e := None),
                            seenModelsByProvider := AList.delete (ProviderID q) (seenModelsByProvider r)\<rparr>)
      in (put (next_addr r) q (r\<lparr>next_addr := Suc (next_addr r)\<rparr>))\<lparr>
            providers := AList.update (ProviderID q) (next_addr r) (providers r),
            sessions := (sessions r)(AssignedID q \<mapsto> next_addr r)\<rparr>)"

lemma installed_simps:
  "providers (installed e q r) = AList.update (ProviderID q) (next_addr r) (providers r)"
  "heap (installed e q r) = (heap r)(next_addr r \<mapsto> q)"
  "sessions (installed e q r) = (case e of None \<Rightarrow> sessions r | Some x \<Rightarrow> (sessions r)(AssignedID x := None))
     (AssignedID q \<mapsto> next_addr r)"
  "next_addr (installed e q r) = Suc (next_addr r)"
  "recoveryHolds (installed e q r) = recoveryHolds r"
  "canarySanctions (installed e q r) = canarySanctions r"
  by (simp_all add: installed_def Let_def put_def split: option.split)

lemma fresh_next: "heap_wf r \<Longrightarrow> heap r (next_addr r) = None"
  using heap_wf_next by fastforce

lemma installed_wf:
  assumes wf: "heap_wf r" and fresh: "sessions r (AssignedID q) = None"
    and e: "e = map_option snd (lookup_provider r (ProviderID q))"
  shows "heap_wf (installed e q r)"
proof (rule heap_wfI, goal_cases)
  case 1
  show ?case using heap_wf_distinct [OF wf] by (simp add: installed_simps distinct_update)
next
  case (2 k b)
  show ?case
  proof (cases "k = ProviderID q")
    case False
    with 2 have k: "map_of (providers r) k = Some b" by (simp add: installed_simps)
    from heap_wf_provider [OF wf k] obtain x where
      x: "heap r b = Some x" "ProviderID x = k" "sessions r (AssignedID x) = Some b" by blast
    have "b \<noteq> next_addr r" using x(1) fresh_next [OF wf] by auto
    moreover have "AssignedID y \<noteq> AssignedID x" if "e = Some y" for y
    proof -
      from that e obtain c where c: "lookup_provider r (ProviderID q) = Some (c, y)" by auto
      from heap_wf_provider [OF wf, of "ProviderID q" c] c
      have "sessions r (AssignedID y) = Some c" by (auto simp: lookup_provider_Some)
      with x lookup_unique [OF wf k] c False show ?thesis by (auto simp: lookup_provider_Some)
    qed
    moreover have "AssignedID x \<noteq> AssignedID q" using x(3) fresh by auto
    ultimately show ?thesis using x by (auto simp: installed_simps split: option.split)
  qed (use 2 in \<open>simp add: installed_simps\<close>)
next
  case (3 s b)
  show ?case
  proof (cases "s = AssignedID q")
    case False
    with 3 have s: "sessions r s = Some b" "\<And>y. e = Some y \<Longrightarrow> AssignedID y \<noteq> s"
      by (auto simp: installed_simps split: option.splits if_splits)
    from heap_wf_session [OF wf s(1)] obtain x where
      x: "heap r b = Some x" "AssignedID x = s" "map_of (providers r) (ProviderID x) = Some b" by blast
    have "b \<noteq> next_addr r" using x(1) fresh_next [OF wf] by auto
    moreover have "ProviderID x \<noteq> ProviderID q"
      using x s(2) e by (auto simp: lookup_provider_def)
    ultimately show ?thesis using x by (auto simp: installed_simps)
  qed (use 3 in \<open>simp add: installed_simps\<close>)
next
  case (4 b x)
  then show ?case using heap_wf_next [OF wf, of b] by (auto simp: installed_simps split: if_splits)
qed

lemma caps_ok_cong:
  assumes "seenModelsLifetime r' = seenModelsLifetime r"
    "lifetimeContribByProvider r' = lifetimeContribByProvider r"
    "seenModelsByProvider r' = seenModelsByProvider r"
  shows "caps_ok r' = caps_ok r"
  unfolding caps_ok_def assms ..

lemma installed_caps:
  assumes "caps_ok r" shows "caps_ok (installed e q r)"
proof -
  let ?r = "case e of None \<Rightarrow> r | Some x \<Rightarrow>
    r\<lparr>seenModelsByProvider := AList.delete (ProviderID q) (seenModelsByProvider r)\<rparr>"
  have "caps_ok (installed e q r) = caps_ok ?r"
    by (rule caps_ok_cong) (simp_all add: installed_def Let_def put_def split: option.split)
  with assms caps_ok_delete_seen [OF assms] show ?thesis by (simp split: option.split)
qed

lemma installed_inv:
  assumes "reg_inv r" "sessions r (AssignedID q) = None"
    "e = map_option snd (lookup_provider r (ProviderID q))"
  shows "reg_inv (clearBreakerStateLocked (ProviderID q)
    (recordSeenModelsUnionLocked (ProviderID q) m ms (installed e q r)))"
    (is "reg_inv ?r")
proof -
  have core: "same_core ?r (installed e q r)"
    using same_core_trans [OF clearBreaker_simps(1) recordUnion_core(1)] .
  have holds: "recoveryHolds ?r = (recoveryHolds r)(ProviderID q := None)"
    by (simp add: installed_simps)
  have wf: "heap_wf (installed e q r)" using assms by (auto simp: reg_inv_def intro: installed_wf)
  have "hold_safe ?r" unfolding hold_safe_def same_core_lookup [OF core]
  proof (intro allI impI)
    fix j b x
    assume l: "lookup_provider (installed e q r) j = Some (b, x)" and h: "held ?r x"
    have j: "ProviderID x = j" using lookup_ProviderID [OF wf l] .
    with h have "j \<noteq> ProviderID q" by (auto simp: held_def holds)
    with l have "map_of (providers r) j = Some b" "heap (installed e q r) b = Some x"
      by (auto simp: lookup_provider_Some installed_simps)
    moreover from this have "b \<noteq> next_addr r"
      using assms(1) heap_wf_provider [of r j b] heap_wf_next [of r b] by (auto simp: reg_inv_def)
    ultimately have "lookup_provider r j = Some (b, x)"
      by (auto simp: lookup_provider_Some installed_simps)
    moreover have "held r x" using h \<open>j \<noteq> ProviderID q\<close> j by (simp add: held_def installed_simps)
    ultimately show "p_State x \<noteq> StateReady"
      using assms(1) unfolding reg_inv_def hold_safe_def by blast
  qed
  moreover have "caps_ok ?r" using assms(1) by (simp add: reg_inv_def installed_caps recordUnion_caps)
  ultimately show ?thesis by (simp add: reg_inv_def heap_wf_same_core [OF core] wf)
qed

lemma admittedProvider_ids [simp]:
  "ProviderID (admittedProvider e p c now) = ProviderID p"
  "AssignedID (admittedProvider e p c now) = AssignedID p"
  "p_AuthState (admittedProvider e p c now) = p_AuthState p"
  by (simp_all add: admittedProvider_def)

lemma RegisterAtDetailed_installed:
  "RegisterAtDetailed p c now r =
     (let e = map_option snd (lookup_provider r (ProviderID p)) in
      if registerRefusal e p now \<noteq> RegisterRefusalNone then (r, None, False, registerRefusal e p now)
      else (applyCanarySanctionLocked (next_addr r)
              (clearBreakerStateLocked (ProviderID p)
                (recordSeenModelsUnionLocked (ProviderID p) (ModelID p) (SupportedModels p)
                  (installed e (admittedProvider e p c now) r))),
            (case e of None \<Rightarrow> None | Some x \<Rightarrow> conn x), True, RegisterRefusalNone))"
  by (simp add: RegisterAtDetailed_def installed_def Let_def put_def split: option.split)

lemma Register_inv:
  assumes "reg_inv r" "sessions r (AssignedID p) = None"
  shows "reg_inv (fst (RegisterAtDetailed p c now r))"
proof -
  define e where "e = map_option snd (lookup_provider r (ProviderID p))"
  define q where "q = admittedProvider e p c now"
  define r1 where "r1 = clearBreakerStateLocked (ProviderID p)
     (recordSeenModelsUnionLocked (ProviderID p) (ModelID p) (SupportedModels p) (installed e q r))"
  have q: "ProviderID q = ProviderID p" "AssignedID q = AssignedID p" by (simp_all add: q_def)
  have r1: "reg_inv r1"
    using installed_inv [of r q e "ModelID p" "SupportedModels p"] assms q by (simp add: r1_def e_def)
  have core: "same_core r1 (installed e q r)" unfolding r1_def
    using same_core_trans [OF clearBreaker_simps(1) recordUnion_core(1)] .
  have "reg_inv (applyCanarySanctionLocked (next_addr r) r1)"
    by (rule applyCanarySanction_inv [OF r1, of q]) (use core q in \<open>simp_all add: same_core_def installed_simps\<close>)
  with assms(1) show ?thesis
    by (simp add: RegisterAtDetailed_installed Let_def e_def [symmetric] q_def [symmetric] r1_def [symmetric])
qed



section \<open>The registry as a system of operations\<close>

datatype reg_op =
    OpRegister Provider nat time
  | OpSetTier string Tier
  | OpUpdateHashStatuses "Provider \<Rightarrow> HashStatus"
  | OpExpireLegacyBridge
  | OpExpireLegacyModelHash
  | OpMarkHashStatus string string HashStatus
  | OpMarkHTTPForwardingOnly string string
  | OpMarkState string string State
  | OpMarkDegraded string string RecoveryReason
  | OpMarkRecovered string string time time
  | OpCanaryResult string string bool time time int bool
  | OpBreakerFault string string time time int duration
  | OpLoadSanctions "CanarySanctionSnapshot list"
  | OpClearSanction string
  | OpSetBuyerServing "(Provider \<Rightarrow> bool) option"
  | OpNoteBuyerSuccess string time time
  | OpSELiveness string string bool time time int
  | OpSetSEPublicKey string string string string
  | OpSetOPoIPass string string "bool option"
  | OpCanaryLatency string string int f64
  | OpSetQuarantine string string bool
  | OpSetCeilingExcluded string string bool
  | OpSetEvidenceStale string string bool
  | OpSetSandboxed string string bool
  | OpSetGateFlags string string AdmissionGateFlags
  | OpQuarantineReload
  | OpClearQuarantines
  | OpHeartbeat string string HeartbeatUpdate
  | OpStateUpdate string string StateUpdate time
  | OpTouch string string time
  | OpReplaceTier2 string string string "Tier2Session option"
  | OpRemove string string
  | OpRemoveState string string State

fun exec_op :: "reg_op \<Rightarrow> Registry \<Rightarrow> Registry" where
  "exec_op (OpRegister p c now) r = fst (RegisterAtDetailed p c now r)"
| "exec_op (OpSetTier k t) r = fst (SetTier k t r)"
| "exec_op (OpUpdateHashStatuses f) r = fst (UpdateHashStatuses f r)"
| "exec_op OpExpireLegacyBridge r = fst (ExpireLegacyBridgeAdmissions r)"
| "exec_op OpExpireLegacyModelHash r = fst (ExpireLegacyModelHashAdmissions r)"
| "exec_op (OpMarkHashStatus k s h) r = fst (MarkHashStatusIfSession k s h r)"
| "exec_op (OpMarkHTTPForwardingOnly k s) r = fst (MarkHTTPForwardingOnly k s r)"
| "exec_op (OpMarkState k s st) r = fst (MarkState k s st r)"
| "exec_op (OpMarkDegraded k s reason) r = fst (MarkDegradedForRecovery k s reason r)"
| "exec_op (OpMarkRecovered k s t now) r = fst (MarkRecovered k s t now r)"
| "exec_op (OpCanaryResult k s b t now th force) r = fst (recordCanaryResult k s b t now th force r)"
| "exec_op (OpBreakerFault k s t now th w) r = fst (RecordBreakerFault k s t now th w r)"
| "exec_op (OpLoadSanctions xs) r = LoadCanarySanctions xs r"
| "exec_op (OpClearSanction k) r = fst (ClearCanarySanction k r)"
| "exec_op (OpSetBuyerServing f) r = r\<lparr>buyerServing := f\<rparr>"
| "exec_op (OpNoteBuyerSuccess k t now) r = NoteBuyerSuccess k t now r"
| "exec_op (OpSELiveness k s b t now n) r = fst (RecordSELivenessResult k s b t now n r)"
| "exec_op (OpSetSEPublicKey k s x y) r = fst (SetSEPublicKey k s x y r)"
| "exec_op (OpSetOPoIPass k s x) r = SetModelClassOPoIPass k s x r"
| "exec_op (OpCanaryLatency k s x y) r = RecordCanaryLatency k s x y r"
| "exec_op (OpSetQuarantine k s b) r = fst (SetBenchmarkQuarantine k s b r)"
| "exec_op (OpSetCeilingExcluded k s b) r = fst (SetAdmissionCeilingExcluded k s b r)"
| "exec_op (OpSetEvidenceStale k s b) r = fst (SetAdmissionEvidenceStale k s b r)"
| "exec_op (OpSetSandboxed k s b) r = fst (SetAdmissionSandboxed k s b r)"
| "exec_op (OpSetGateFlags k s fl) r = fst (SetAdmissionGateFlags k s fl r)"
| "exec_op OpQuarantineReload r = fst (QuarantineForProofOfWeightsReload r)"
| "exec_op OpClearQuarantines r = fst (ClearBenchmarkQuarantines r)"
| "exec_op (OpHeartbeat k s hb) r = fst (applyHeartbeatLocked k s hb r)"
| "exec_op (OpStateUpdate k s u now) r = fst (ApplyStateUpdate k s u now r)"
| "exec_op (OpTouch k s t) r = Touch k s t r"
| "exec_op (OpReplaceTier2 k s kid n) r = fst (ReplaceTier2Session k s kid n r)"
| "exec_op (OpRemove k s) r = fst (RemoveIfSession k s r)"
| "exec_op (OpRemoveState k s st) r = fst (RemoveIfSessionState k s st r)"

text \<open>The coordinator draws a fresh UUID for every accepted connection, so the assigned id of a
  registration is not the id of a live session.\<close>

fun legal_op :: "reg_op \<Rightarrow> Registry \<Rightarrow> bool" where
  "legal_op (OpRegister p c now) r \<longleftrightarrow> sessions r (AssignedID p) = None"
| "legal_op _ r \<longleftrightarrow> True"

lemmas method_invs = Register_inv SetTier_inv UpdateHashStatuses_inv ExpireLegacyBridge_inv
  ExpireLegacyModelHash_inv MarkHashStatus_inv MarkHTTPForwardingOnly_inv MarkState_inv
  MarkDegraded_inv MarkRecovered_inv recordCanaryResult_inv RecordBreakerFault_inv
  LoadCanarySanctions_inv ClearCanarySanction_inv NoteBuyerSuccess_inv RecordSELiveness_inv
  SetSEPublicKey_inv SetModelClassOPoIPass_inv RecordCanaryLatency_inv gates_inv applyHeartbeat_inv
  ApplyStateUpdate_inv Touch_inv ReplaceTier2Session_inv RemoveIfSession_inv RemoveIfSessionState_inv

lemma NewRegistry_inv: "reg_inv NewRegistry"
  by (simp add: reg_inv_def heap_wf_def hold_safe_def caps_ok_def NewRegistry_def lookup_provider_def)

interpretation registry: op_system exec_op legal_op reg_inv
proof
  fix r x
  assume "reg_inv r" "legal_op x r"
  then show "reg_inv (exec_op x r)" by (cases x) (simp_all add: method_invs)
qed

end
