(* ===== verification/Registry_Properties.thy ===== *)
theory Registry_Properties
  imports Registry_Invariants
begin

text \<open>
  What the registry guarantees over every history of operations: recovery holds (circuit breaker,
  canary, operator) cannot be escaped, the maps agree, the seen-model indexes are bounded and a proven
  session is only replaced by a proven one. The frame lemmas say what each method can change.
\<close>

abbreviation run :: "reg_op list \<Rightarrow> Registry" where
  "run ops \<equiv> fold exec_op ops NewRegistry"

abbreviation legal_history :: "reg_op list \<Rightarrow> bool" where
  "legal_history ops \<equiv> legal_run exec_op legal_op ops NewRegistry"

lemma run_reg_inv: "legal_history ops \<Longrightarrow> reg_inv (run ops)"
  by (rule registry.run_inv [OF NewRegistry_inv])

section \<open>Frames of the provider-originated methods\<close>

text \<open>What a method triggered by a frame of session \<open>(a, p)\<close> can do to the rest of the registry.\<close>

definition session_frame :: "Registry \<Rightarrow> Registry \<Rightarrow> addr \<Rightarrow> Provider \<Rightarrow> bool" where
  "session_frame r r' a p \<longleftrightarrow>
     (\<exists>q. same_ids q p \<and> heap r' = (heap r)(a \<mapsto> q)) \<and> providers r' = providers r \<and>
     (recoveryHolds r' = recoveryHolds r \<or>
      (\<not> held r p \<and> recoveryHolds r' = (recoveryHolds r)(ProviderID p := None)))"

lemma setState_frame:
  assumes "heap r a = Some p" "held r p \<Longrightarrow> nxt \<noteq> StateUnavailable"
  shows "session_frame r (setStateLocked a nxt r) a p"
  using assms by (auto simp: session_frame_def setStateLocked_def applyStateCleanupLocked_def
      clearBreakerStateLocked_def same_ids_def intro!: exI [of _ "p\<lparr>p_State := nxt\<rparr>"])

lemma put_frame: "heap r a = Some p \<Longrightarrow> same_ids q p \<Longrightarrow> session_frame r (put a q r) a p"
  by (auto simp: session_frame_def)

lemma frame_put:
  assumes "session_frame r r' a p" "heap r' a = Some q" "same_ids q' q"
  shows "session_frame r (put a q' r') a p"
proof -
  from assms obtain x where x: "same_ids x p" "heap r' = (heap r)(a \<mapsto> x)"
    by (auto simp: session_frame_def)
  with assms have "same_ids q' p" "heap (put a q' r') = (heap r)(a \<mapsto> q')"
    by (auto simp: same_ids_def)
  with assms(1) show ?thesis by (auto simp: session_frame_def)
qed

lemma session_frame_same:
  "session_frame r r1 a p \<Longrightarrow> heap r2 = heap r1 \<Longrightarrow> providers r2 = providers r1 \<Longrightarrow>
     recoveryHolds r2 = recoveryHolds r1 \<Longrightarrow> session_frame r r2 a p"
  by (simp add: session_frame_def)

lemma applyHeartbeat_frame:
  assumes "session_of r k s = Some (a, p)"
  shows "session_frame r (fst (applyHeartbeatLocked k s hb r)) a p"
proof -
  have l: "heap r a = Some p" using assms by (simp add: session_of_Some lookup_provider_Some)
  define q where "q = heartbeatFields r hb p"
  define r1 where "r1 = recordSeenModelsUnionLocked (ProviderID q) (hb_ModelID hb) (SupportedModels q) (put a q r)"
  define r2 where "r2 = (if hb_Status hb \<noteq> StateUnset \<and> hb_Status hb \<noteq> p_State q
      \<and> canApplyProviderStateLocked r1 q (hb_Status hb) then setStateLocked a (hb_Status hb) r1 else r1)"
  have q: "same_ids q p" by (simp add: q_def same_ids_def)
  have r1: "heap r1 = (heap r)(a \<mapsto> q)" "providers r1 = providers r" "recoveryHolds r1 = recoveryHolds r"
    using recordUnion_core(1) by (simp_all add: r1_def same_core_def)
  have h: "held r1 q = held r p" using held_same_ids [OF q] by (simp add: held_def r1(3))
  have f2: "session_frame r r2 a p"
  proof (cases "r2 = r1")
    case False
    then have r2: "r2 = setStateLocked a (hb_Status hb) r1" "canApplyProviderStateLocked r1 q (hb_Status hb)"
      by (auto simp: r2_def split: if_splits)
    then have "held r p \<Longrightarrow> hb_Status hb \<noteq> StateUnavailable"
      by (auto simp: canApplyProviderStateLocked_def h)
    then show ?thesis using q r1
      by (auto simp: r2(1) session_frame_def setStateLocked_def applyStateCleanupLocked_def
          clearBreakerStateLocked_def same_ids_def intro!: exI [of _ "q\<lparr>p_State := hb_Status hb\<rparr>"])
  qed (use q r1 in \<open>auto simp: session_frame_def\<close>)
  then obtain q2 where h2: "heap r2 a = Some q2" by (auto simp: session_frame_def)
  have "session_frame r (put a (heartbeatLoading hb q2) r2) a p"
    by (rule frame_put [OF f2 h2]) (simp add: same_ids_def)
  then show ?thesis
    unfolding applyHeartbeatLocked_def assms option.case prod.case Let_def q_def [symmetric]
      r1_def [symmetric] r2_def [symmetric] h2 by simp
qed

lemma ApplyStateUpdate_frame:
  assumes "session_of r k s = Some (a, p)"
  shows "session_frame r (fst (ApplyStateUpdate k s u now r)) a p"
proof -
  have l: "heap r a = Some p" using assms by (simp add: session_of_Some lookup_provider_Some)
  define r1 where "r1 = (if canApplyProviderStateLocked r p (su_State u) then setStateLocked a (su_State u) r else r)"
  have f1: "session_frame r r1 a p"
    using setState_frame [OF l, of "su_State u"] put_frame [OF l, of p] l
    by (auto simp: r1_def canApplyProviderStateLocked_def session_frame_def same_ids_def fun_upd_idem)
  then obtain q where h: "heap r1 a = Some q" by (auto simp: session_frame_def)
  have "session_frame r (put a (stateUpdateFields u now q) r1) a p"
    by (rule frame_put [OF f1 h]) (simp add: same_ids_def)
  then show ?thesis using assms h by (simp add: ApplyStateUpdate_def Let_def r1_def [symmetric])
qed

lemma Touch_cases:
  obtains (same) "Touch k s t r = r"
  | (touched) a p where "heap r a = Some p" "Touch k s t r = put a (p\<lparr>LastActivityAt := t\<rparr>) r"
proof -
  define ptr where "ptr = (if k \<noteq> [] then map_of (providers r) k
                 else if s \<noteq> [] then sessions r s else None)"
  show thesis
    using same touched unfolding Touch_def ptr_def [symmetric] Let_def
    by (cases ptr; cases "heap r (the ptr)"; cases "s = [] \<or> AssignedID (the (heap r (the ptr))) = s") auto
qed

lemma frame_keeps_hold:
  assumes "heap_wf r" "lookup_provider r k = Some (a, p)" "held r p"
    and "lookup_provider r j = Some (b, x)" "session_frame r r' b x"
  shows "\<exists>q. lookup_provider r' k = Some (a, q) \<and> same_ids q p \<and> held r' q"
proof -
  have ids: "ProviderID p = k" "ProviderID x = j" using assms lookup_ProviderID by blast+
  from assms(5) obtain y where y: "same_ids y x" "heap r' = (heap r)(b \<mapsto> y)" "providers r' = providers r"
    by (auto simp: session_frame_def)
  show ?thesis
  proof (cases "k = j")
    case True
    with assms(2,4) have "b = a" "x = p" by auto
    with assms(3,5) have "recoveryHolds r' = recoveryHolds r" by (auto simp: session_frame_def)
    then have "held r' y" using assms(3) y(1) \<open>x = p\<close> held_same_ids [of y p r'] by (simp add: held_def)
    with y \<open>b = a\<close> \<open>x = p\<close> assms(2) show ?thesis by (auto simp: lookup_provider_Some)
  next
    case False
    with assms have "a \<noteq> b" using lookup_unique by (auto simp: lookup_provider_Some)
    moreover have "held r' p"
      using assms(3,5) False ids by (auto simp: session_frame_def held_def split: option.splits)
    ultimately show ?thesis using assms(2) y by (auto simp: lookup_provider_Some same_ids_def)
  qed
qed

text \<open>The methods that run on a frame sent by a provider.\<close>

fun provider_op :: "reg_op \<Rightarrow> bool" where
  "provider_op (OpHeartbeat _ _ _) = True"
| "provider_op (OpStateUpdate _ _ _ _) = True"
| "provider_op (OpTouch _ _ _) = True"
| "provider_op _ = False"

lemma provider_op_keeps_hold:
  assumes "reg_inv r" "provider_op x" "lookup_provider r k = Some (a, p)" "held r p"
  shows "\<exists>q. lookup_provider (exec_op x r) k = Some (a, q) \<and> same_ids q p \<and> held (exec_op x r) q"
proof -
  have wf: "heap_wf r" using assms(1) by (simp add: reg_inv_def)
  have keep: ?thesis if "exec_op x r = r" using that assms by (auto simp: same_ids_def)
  show ?thesis
  proof (cases x)
    case (OpHeartbeat j s hb)
    show ?thesis
    proof (cases "session_of r j s")
      case None
      with OpHeartbeat keep show ?thesis by (simp add: applyHeartbeatLocked_def)
    next
      case (Some bx)
      then obtain b y where "session_of r j s = Some (b, y)" by (cases bx) auto
      with OpHeartbeat frame_keeps_hold [OF wf assms(3,4)] applyHeartbeat_frame show ?thesis
        by (auto simp: session_of_Some)
    qed
  next
    case (OpStateUpdate j s u now)
    show ?thesis
    proof (cases "session_of r j s")
      case None
      with OpStateUpdate keep show ?thesis by (simp add: ApplyStateUpdate_def)
    next
      case (Some bx)
      then obtain b y where "session_of r j s = Some (b, y)" by (cases bx) auto
      with OpStateUpdate frame_keeps_hold [OF wf assms(3,4)] ApplyStateUpdate_frame show ?thesis
        by (auto simp: session_of_Some)
    qed
  next
    case (OpTouch j s t)
    show ?thesis
    proof (cases rule: Touch_cases [of j s t r])
      case same
      with OpTouch keep show ?thesis by simp
    next
      case (touched b y)
      then show ?thesis using assms(3,4) OpTouch
        by (cases "a = b") (auto simp: lookup_provider_Some same_ids_def held_def cong: option.case_cong)
    qed
  qed (use assms(2) in auto)
qed

section \<open>Which methods relink providers and grow the lifetime index\<close>

lemma frame_simps [simp]:
  "providers (setStateLocked a st r) = providers r" "seenModelsLifetime (setStateLocked a st r) = seenModelsLifetime r"
  "buyerServing (setStateLocked a st r) = buyerServing r"
  "providers (hold k s reason r) = providers r" "seenModelsLifetime (hold k s reason r) = seenModelsLifetime r"
  "buyerServing (hold k s reason r) = buyerServing r" "heap (hold k s reason r) = heap r"
  "providers (clearBreakerStateLocked k r) = providers r"
  "seenModelsLifetime (clearBreakerStateLocked k r) = seenModelsLifetime r"
  by (simp_all add: setStateLocked_def applyStateCleanupLocked_def clearBreakerStateLocked_def hold_def
      split: option.split)

lemma update_all_frame [simp]:
  "providers (update_all f r) = providers r" "seenModelsLifetime (update_all f r) = seenModelsLifetime r"
proof -
  have "providers (fold (\<lambda>(k, a) r. case heap r a of None \<Rightarrow> r | Some p \<Rightarrow> put a (f p) r) xs s) = providers s \<and>
    seenModelsLifetime (fold (\<lambda>(k, a) r. case heap r a of None \<Rightarrow> r | Some p \<Rightarrow> put a (f p) r) xs s)
      = seenModelsLifetime s" for xs :: "(string \<times> addr) list" and s
    by (induction xs arbitrary: s) (auto split: option.split)
  then show "providers (update_all f r) = providers r"
    "seenModelsLifetime (update_all f r) = seenModelsLifetime r" by (simp_all add: update_all_def)
qed

lemma session_frames [simp]:
  "providers (fst (update_session k s f r)) = providers r"
  "seenModelsLifetime (fst (update_session k s f r)) = seenModelsLifetime r"
  "providers (fst (change_session k s c f r)) = providers r"
  "seenModelsLifetime (fst (change_session k s c f r)) = seenModelsLifetime r"
  by (simp_all add: update_session_def change_session_def split: option.split prod.split)

lemma recordSeen_lifetime: "set (seenModelsLifetime r) \<subseteq> set (seenModelsLifetime (recordSeenModelLocked k m r))"
  by (auto simp: recordSeenModelLocked_def Let_def)

lemma recordSeen_fold_lifetime:
  "set (seenModelsLifetime r) \<subseteq> set (seenModelsLifetime (fold (recordSeenModelLocked k) ms r))"
  by (induction ms arbitrary: r) (use recordSeen_lifetime in \<open>fastforce+\<close>)

lemma recordUnion_lifetime:
  "set (seenModelsLifetime r) \<subseteq> set (seenModelsLifetime (recordSeenModelsUnionLocked k m ms r))"
  unfolding recordSeenModelsUnionLocked_def
  using recordSeen_lifetime recordSeen_fold_lifetime by (rule subset_trans)

lemma recordUnion_providers [simp]: "providers (recordSeenModelsUnionLocked k m ms r) = providers r"
  using recordUnion_core(1) by (simp add: same_core_def)

lemma applyCanarySanction_frame [simp]:
  "providers (applyCanarySanctionLocked a r) = providers r"
  "seenModelsLifetime (applyCanarySanctionLocked a r) = seenModelsLifetime r"
  by (simp_all add: applyCanarySanctionLocked_def split: option.split)

lemmas simple_methods = SetTier_def UpdateHashStatuses_def ExpireLegacyBridgeAdmissions_def
  ExpireLegacyModelHashAdmissions_def MarkHashStatusIfSession_def MarkHTTPForwardingOnly_def
  MarkState_def MarkDegradedForRecovery_def MarkRecovered_def RecordBreakerFault_def
  NoteBuyerSuccess_def RecordSELivenessResult_def SetSEPublicKey_def
  SetModelClassOPoIPass_def RecordCanaryLatency_def SetBenchmarkQuarantine_def
  SetAdmissionCeilingExcluded_def SetAdmissionEvidenceStale_def SetAdmissionSandboxed_def
  SetAdmissionGateFlags_def QuarantineForProofOfWeightsReload_def ClearBenchmarkQuarantines_def
  ReplaceTier2Session_def

lemma heartbeat_frames:
  "providers (fst (applyHeartbeatLocked k s hb r)) = providers r"
  "set (seenModelsLifetime r) \<subseteq> set (seenModelsLifetime (fst (applyHeartbeatLocked k s hb r)))"
proof -
  have "set (seenModelsLifetime r) \<subseteq> set (seenModelsLifetime (recordSeenModelsUnionLocked j m ms (put a q r)))"
    for j m ms a q using recordUnion_lifetime [of "put a q r"] by simp
  then show "set (seenModelsLifetime r) \<subseteq> set (seenModelsLifetime (fst (applyHeartbeatLocked k s hb r)))"
    by (simp add: applyHeartbeatLocked_def Let_def split: option.split)
qed (simp add: applyHeartbeatLocked_def Let_def split: option.split)

lemma other_frames:
  "providers (fst (ApplyStateUpdate k s u now r)) = providers r"
  "seenModelsLifetime (fst (ApplyStateUpdate k s u now r)) = seenModelsLifetime r"
  "providers (Touch k s t r) = providers r" "seenModelsLifetime (Touch k s t r) = seenModelsLifetime r"
  "providers (fst (recordCanaryResult k s b t now th f r)) = providers r"
  "seenModelsLifetime (fst (recordCanaryResult k s b t now th f r)) = seenModelsLifetime r"
  "providers (fst (ClearCanarySanction k r)) = providers r"
  "seenModelsLifetime (fst (ClearCanarySanction k r)) = seenModelsLifetime r"
  "providers (LoadCanarySanctions xs r) = providers r"
  "seenModelsLifetime (LoadCanarySanctions xs r) = seenModelsLifetime r"
proof -
  show "providers (LoadCanarySanctions xs r) = providers r"
    "seenModelsLifetime (LoadCanarySanctions xs r) = seenModelsLifetime r"
    unfolding LoadCanarySanctions_def by (induction xs arbitrary: r) auto
  show "providers (Touch k s t r) = providers r" "seenModelsLifetime (Touch k s t r) = seenModelsLifetime r"
    by (rule Touch_cases [of k s t r]; simp)+
qed (auto simp: ApplyStateUpdate_def recordCanaryResult_def ClearCanarySanction_def Let_def split: option.split)

lemma removal_frames:
  "providers (fst (RemoveIfSession k s r)) \<in> {providers r, AList.delete k (providers r)}"
  "providers (fst (RemoveIfSessionState k s st r)) \<in> {providers r, AList.delete k (providers r)}"
  "seenModelsLifetime (fst (RemoveIfSession k s r)) = seenModelsLifetime r"
  "seenModelsLifetime (fst (RemoveIfSessionState k s st r)) = seenModelsLifetime r"
  by (auto simp: RemoveIfSession_def RemoveIfSessionState_def removeSession_def split: option.split)

lemma installed_lifetime [simp]: "seenModelsLifetime (installed e q r) = seenModelsLifetime r"
  by (simp add: installed_def Let_def split: option.split)

lemma Register_lifetime:
  "set (seenModelsLifetime r) \<subseteq> set (seenModelsLifetime (fst (RegisterAtDetailed p c now r)))"
  using recordUnion_lifetime [of "installed e q r" for e q]
  by (simp add: RegisterAtDetailed_installed Let_def)

lemma exec_lifetime_mono: "set (seenModelsLifetime r) \<subseteq> set (seenModelsLifetime (exec_op x r))"
  by (cases x) (simp_all add: simple_methods heartbeat_frames other_frames removal_frames
      Register_lifetime Let_def split: option.split prod.split)

lemma exec_providers_cases:
  assumes "\<nexists>p c now. x = OpRegister p c now" "map_of (providers (exec_op x r)) k = Some b"
  shows "map_of (providers r) k = Some b"
proof -
  have "providers (exec_op x r) = providers r \<or> (\<exists>j. providers (exec_op x r) = AList.delete j (providers r))"
  proof (cases x)
    case (OpRemove j s)
    then show ?thesis using removal_frames(1) [of j s r] by auto
  next
    case (OpRemoveState j s st)
    then show ?thesis using removal_frames(2) [of j s st r] by auto
  qed (use assms(1) in \<open>simp_all add: simple_methods heartbeat_frames other_frames Let_def
      split: option.split prod.split\<close>)
  with assms(2) show ?thesis by (auto split: if_splits)
qed

section \<open>A concrete history\<close>

text \<open>One provider registers with a proven bearer token and trips the breaker at the first fault.\<close>

definition demo_provider :: "string \<Rightarrow> string \<Rightarrow> Provider" where
  "demo_provider k s = zeroProvider\<lparr>ProviderID := k, AssignedID := s, ModelID := ''Qwen3'',
     p_State := StateReady, p_AuthState := AuthBearerValidated,
     p_Capacity := (p_Capacity zeroProvider)\<lparr>MaxContextTokens := 8192, MaxConcurrency := 2,
       SlotsFree := 2, SlotsTotal := 2\<rparr>\<rparr>"

definition demo_history :: "reg_op list" where
  "demo_history = [OpRegister (demo_provider ''mac-1'' ''s-1'') 7 100,
     OpBreakerFault ''mac-1'' ''s-1'' 1000 1000 1 0]"

definition demo_frames :: "reg_op list" where
  "demo_frames = [OpStateUpdate ''mac-1'' ''s-1'' \<lparr>su_State = StateDraining, su_SlotsFree = None,
       su_SlotsTotal = None, su_LastAutoupdateEvent = [], su_At = 2000\<rparr> 2000,
     OpStateUpdate ''mac-1'' ''s-1'' \<lparr>su_State = StateReady, su_SlotsFree = Some 2,
       su_SlotsTotal = None, su_LastAutoupdateEvent = [], su_At = 3000\<rparr> 3000]"

lemma demo_held:
  "legal_history demo_history \<and>
   (case lookup_provider (run demo_history) ''mac-1'' of None \<Rightarrow> False
    | Some (a, p) \<Rightarrow> AssignedID p = ''s-1'' \<and> held (run demo_history) p)"
  by code_simp

section \<open>Properties\<close>

text \<open>C1. In every reachable registry state, whatever the interleaving of registrations, coordinator
  actions and provider frames, a session with a live recovery hold (circuit breaker, provider
  failure, canary sanction or operator clear) is not \<open>ready\<close> and so never eligible for buyer traffic.\<close>

theorem held_session_never_routable:
  assumes "legal_history ops" "lookup_provider (run ops) k = Some (a, p)" "held (run ops) p"
  shows "\<not> RoutingEligible p"
  using run_reg_inv [OF assms(1)] assms(2,3)
  by (auto simp: reg_inv_def hold_safe_def RoutingEligible_def)

theorem held_session_never_routable_witness:
  "case lookup_provider (run demo_history) ''mac-1'' of None \<Rightarrow> False | Some (a, p) \<Rightarrow> \<not> RoutingEligible p"
  using demo_held held_session_never_routable [of demo_history "''mac-1''"]
  by (auto split: option.splits)




text \<open>C4. The two maps never diverge: in every reachable state an assigned id resolves to an object
  exactly when that object is the current session of its provider, the session recorded under it has
  that assigned id, and no provider id occurs twice.\<close>

theorem registry_maps_agree:
  assumes "legal_history ops"
  shows "(sessions (run ops) s = Some a \<longleftrightarrow>
            (\<exists>k p. lookup_provider (run ops) k = Some (a, p) \<and> AssignedID p = s))
       \<and> (k \<noteq> [] \<longrightarrow> s \<noteq> [] \<longrightarrow> Resolve (run ops) k s = Some p \<longrightarrow> Resolve (run ops) [] s = Some p)
       \<and> distinct (map fst (providers (run ops)))"
proof (intro conjI impI)
  have wf: "heap_wf (run ops)" using run_reg_inv [OF assms] by (simp add: reg_inv_def)
  then show "distinct (map fst (providers (run ops)))" by (rule heap_wf_distinct)
  show "sessions (run ops) s = Some a \<longleftrightarrow>
      (\<exists>k p. lookup_provider (run ops) k = Some (a, p) \<and> AssignedID p = s)"
    using heap_wf_session [OF wf] heap_wf_provider [OF wf] by (fastforce simp: lookup_provider_Some)
  assume "k \<noteq> []" "s \<noteq> []" "Resolve (run ops) k s = Some p"
  then obtain b x where "map_of (providers (run ops)) k = Some b" "heap (run ops) b = Some x"
    "AssignedID x = s" "p = x\<lparr>conn := None\<rparr>"
    by (auto simp: Resolve_def split: option.splits if_splits)
  with heap_wf_provider [OF wf, of k b] \<open>s \<noteq> []\<close> show "Resolve (run ops) [] s = Some p"
    by (auto simp: Resolve_def)
qed

theorem registry_maps_agree_witness:
  "\<exists>a k p. sessions (run demo_history) ''s-1'' = Some a \<and>
     lookup_provider (run demo_history) k = Some (a, p) \<and> AssignedID p = ''s-1''"
proof -
  obtain a p where "lookup_provider (run demo_history) ''mac-1'' = Some (a, p)" "AssignedID p = ''s-1''"
    using demo_held by (auto split: option.splits)
  then show ?thesis
    using registry_maps_agree [of demo_history "''s-1''" a] demo_held by blast
qed

text \<open>The seen-model indexes stay bounded over the life of the process, whatever providers
  advertise: at most 4096 distinct model ids in the lifetime index, at most 128 contributed by one
  provider id across all its reconnects, at most 32 ids of at most 256 bytes per session.\<close>

theorem seen_models_bounded:
  assumes "legal_history ops"
  shows "length (seenModelsLifetime (run ops)) \<le> 4096 \<and> distinct (seenModelsLifetime (run ops))
       \<and> lifetimeContribByProvider (run ops) k \<le> 128
       \<and> (map_of (seenModelsByProvider (run ops)) k = Some seen \<longrightarrow>
            length seen \<le> 32 \<and> list_all (\<lambda>m. length m \<le> 256) seen)"
proof -
  have caps: "caps_ok (run ops)" using run_reg_inv [OF assms] by (simp add: reg_inv_def)
  show ?thesis
    using caps_ok_parts [OF caps] caps_ok_seen [OF caps, of k seen]
    by (simp add: maxSeenModelsLifetime_def maxLifetimeContribPerProvider_def
        maxSeenModelsPerProvider_def maxModelIDByteLen_def list_all_iff)
qed


theorem seen_models_bounded_witness:
  "length (seenModelsLifetime (run demo_history)) \<le> 4096 \<and>
   lifetimeContribByProvider (run demo_history) ''mac-1'' \<le> 128"
  using seen_models_bounded [of demo_history "''mac-1''"] demo_held by blast

section \<open>Registration\<close>

lemma applyCanarySanction_auth:
  "heap r a = Some p \<Longrightarrow> heap (applyCanarySanctionLocked a r) a = Some q \<Longrightarrow> p_AuthState q = p_AuthState p"
  by (auto simp: applyCanarySanctionLocked_def setState_heap split: option.splits if_splits)

lemma Register_lookup:
  assumes "heap_wf r" "lookup_provider (fst (RegisterAtDetailed p c now r)) k = Some (b, q)"
    "map_of (providers r) k \<noteq> Some b"
  shows "k = ProviderID p \<and> p_AuthState q = p_AuthState p \<and>
    registerRefusal (map_option snd (lookup_provider r k)) p now = RegisterRefusalNone"
proof -
  define e where "e = map_option snd (lookup_provider r (ProviderID p))"
  define x where "x = admittedProvider e p c now"
  define r1 where "r1 = clearBreakerStateLocked (ProviderID p)
     (recordSeenModelsUnionLocked (ProviderID p) (ModelID p) (SupportedModels p) (installed e x r))"
  have ok: "registerRefusal e p now = RegisterRefusalNone"
    using assms(2,3) by (auto simp: RegisterAtDetailed_installed Let_def e_def lookup_provider_Some split: if_splits)
  then have r': "fst (RegisterAtDetailed p c now r) = applyCanarySanctionLocked (next_addr r) r1"
    by (simp add: RegisterAtDetailed_installed Let_def e_def [symmetric] x_def r1_def)
  have core: "providers r1 = AList.update (ProviderID p) (next_addr r) (providers r)"
    "heap r1 = (heap r)(next_addr r \<mapsto> x)"
    using same_core_trans [OF clearBreaker_simps(1) recordUnion_core(1)]
    by (simp_all add: r1_def same_core_def installed_simps x_def)
  have k: "k = ProviderID p" "b = next_addr r"
    using assms(2,3) by (auto simp: r' lookup_provider_Some core split: if_splits)
  moreover have "p_AuthState q = p_AuthState x"
    using assms(2) k by (intro applyCanarySanction_auth [of r1 b]) (auto simp: r' core lookup_provider_Some)
  ultimately show ?thesis using ok by (simp add: e_def x_def)
qed

text \<open>C3. Only a connection that proved its bearer token can take over a proven session: whatever
  operation runs in whatever reachable state, if the bearer-validated, routable session of a provider
  id is replaced by another session, then the new session is bearer-validated too.\<close>

theorem routable_bearer_session_protected:
  assumes "legal_history ops" "lookup_provider (run ops) k = Some (a, p)"
    and "p_AuthState p = AuthBearerValidated" "RoutingEligible p"
    and "lookup_provider (exec_op x (run ops)) k = Some (b, q)" "b \<noteq> a"
  shows "p_AuthState q = AuthBearerValidated"
proof (cases "\<exists>i c now. x = OpRegister i c now")
  case False
  with exec_providers_cases [of x "run ops" k b] assms show ?thesis by (auto simp: lookup_provider_Some)
next
  case True
  then obtain i c now where x: "x = OpRegister i c now" by blast
  have "heap_wf (run ops)" using run_reg_inv [OF assms(1)] by (simp add: reg_inv_def)
  from Register_lookup [OF this, of i c now k b q] assms x
  have "p_AuthState q = p_AuthState i" "registerRefusal (Some p) i now = RegisterRefusalNone"
    by (auto simp: lookup_provider_Some)
  with assms(3,4) show ?thesis by (auto simp: registerRefusal_def split: if_splits)
qed


text \<open>A proven reconnect replaces the proven session: the object changes, the proof does not.\<close>

lemma demo_reconnect:
  "legal_history [OpRegister (demo_provider ''mac-1'' ''s-1'') 7 100] \<and>
   (case (lookup_provider (run [OpRegister (demo_provider ''mac-1'' ''s-1'') 7 100]) ''mac-1'',
          lookup_provider (exec_op (OpRegister (demo_provider ''mac-1'' ''s-2'') 8 200)
            (run [OpRegister (demo_provider ''mac-1'' ''s-1'') 7 100])) ''mac-1'') of
      (Some (a, p), Some (b, q)) \<Rightarrow> a = 0 \<and> b = 1 \<and> p_AuthState p = AuthBearerValidated \<and> RoutingEligible p
    | _ \<Rightarrow> False)"
  by code_simp

theorem routable_bearer_session_protected_witness:
  "case lookup_provider (exec_op (OpRegister (demo_provider ''mac-1'' ''s-2'') 8 200)
      (run [OpRegister (demo_provider ''mac-1'' ''s-1'') 7 100])) ''mac-1'' of
     None \<Rightarrow> False | Some (b, q) \<Rightarrow> b = 1 \<and> p_AuthState q = AuthBearerValidated"
  using demo_reconnect
    routable_bearer_session_protected [of "[OpRegister (demo_provider ''mac-1'' ''s-1'') 7 100]" "''mac-1''" 0
      _ "OpRegister (demo_provider ''mac-1'' ''s-2'') 8 200" 1]
  by (auto split: option.splits)

end
