(* ===== verification/Registry_Contracts.thy ===== *)
theory Registry_Contracts
  imports Registry_Properties
begin

text \<open>
  Three contracts of the registry that the rest of the coordinator relies on: a failed canary never
  removes the last buyer-serving provider of a model, receipt keys rotate with a grace window, and a
  model that was ever registered stays known. The last section is about the \<open>unavailable\<close> state.
\<close>

section \<open>The last-provider floor\<close>

definition serves :: "Registry \<Rightarrow> string \<Rightarrow> Provider \<Rightarrow> bool" where
  "serves r m p \<longleftrightarrow> providerServesActiveModel p m \<and> isBuyerServingLocked r p"

lemma BuyerServingCount_pos:
  assumes "heap_wf r"
  shows "0 < BuyerServingCountForModel r m \<longleftrightarrow>
     (\<exists>k a p. map_of (providers r) k = Some a \<and> heap r a = Some p \<and> serves r m p)"
proof -
  have "0 < BuyerServingCountForModel r m \<longleftrightarrow> (\<exists>p \<in> set (all_providers r). serves r m p)"
    by (auto simp: BuyerServingCountForModel_def serves_def filter_empty_conv)
  also have "\<dots> \<longleftrightarrow> (\<exists>k a p. (k, a) \<in> set (providers r) \<and> heap r a = Some p \<and> serves r m p)"
    by (auto simp: all_providers_def List.map_filter_def image_iff) (metis option.sel)+
  also have "\<dots> \<longleftrightarrow> (\<exists>k a p. map_of (providers r) k = Some a \<and> heap r a = Some p \<and> serves r m p)"
    using heap_wf_distinct [OF assms] by (simp add: map_of_eq_Some_iff)
  finally show ?thesis .
qed

lemma hasOther_iff:
  assumes "heap_wf r"
  shows "hasOtherBuyerServingForModelLocked r k m \<longleftrightarrow>
     (\<exists>j a p. j \<noteq> k \<and> map_of (providers r) j = Some a \<and> heap r a = Some p \<and> serves r m p)"
  using heap_wf_distinct [OF assms]
  by (fastforce simp: hasOtherBuyerServingForModelLocked_def serves_def split: option.splits)

text \<open>The injected predicate reads the transport, the context window and the Tier-2 verdict of a
  provider, not its canary counters.\<close>

definition ignores_canary :: "Registry \<Rightarrow> bool" where
  "ignores_canary r \<longleftrightarrow> (\<forall>p c. isBuyerServingLocked r (p\<lparr>p_Canary := c\<rparr>) = isBuyerServingLocked r p)"

lemma fallback_ignores_canary: "buyerServing r = None \<Longrightarrow> ignores_canary r"
  by (simp add: ignores_canary_def isBuyerServingLocked_def RoutingEligible_def not_excluded_def)

lemma serves_canary: "ignores_canary r \<Longrightarrow> serves r m (p\<lparr>p_Canary := c\<rparr>) = serves r m p"
  by (simp add: ignores_canary_def serves_def providerServesActiveModel_def)

lemma serves_same_predicate: "buyerServing r' = buyerServing r \<Longrightarrow> serves r' m p = serves r m p"
  by (simp add: serves_def isBuyerServingLocked_def split: option.split)

lemma recordCanary_failure_eq:
  fixes t now :: time
  assumes "session_of r k s = Some (a, p)"
  defines "c \<equiv> (p_Canary p)\<lparr>CanaryLastCheckedAt := Some (at_or_now now t),
      CanaryFailCount := CanaryFailCount (p_Canary p) + 1, CanaryLastFailedAt := Some (at_or_now now t)\<rparr>"
  defines "r1 \<equiv> put a (p\<lparr>p_Canary := c\<rparr>) r"
  shows "fst (recordCanaryResult k s False t now th force r) =
    (if p_State p = StateDraining \<or> p_State p = StateUnavailable then r
     else if canary_held r k s \<and> p_State p \<noteq> StateDegraded then r
     else if CanaryFailCount c < (if th \<le> 0 then 3 else th) then r1
     else if force \<or> (isBuyerServingLocked r1 (p\<lparr>p_Canary := c\<rparr>)
            \<and> \<not> hasOtherBuyerServingForModelLocked r1 k (ModelID p)) then r1
     else if p_Tier p = TierProvisional then setStateLocked a StateUnavailable r1
     else (hold k s RecoveryReasonCanary (setStateLocked a StateDegraded r1))
       \<lparr>canarySanctions := AList.update k \<lparr>s_failCount = CanaryFailCount c,
          s_lastCheckedAt = Some (at_or_now now t), s_lastFailedAt = Some (at_or_now now t)\<rparr>
          (canarySanctions (hold k s RecoveryReasonCanary (setStateLocked a StateDegraded r1)))\<rparr>)"
  using assms(1)
  by (simp add: recordCanaryResult_def Let_def c_def r1_def if_distrib [of fst] cong: if_cong split del: if_split)

lemma recordCanary_failure_cases:
  assumes "session_of r k s = Some (a, p)"
  obtains (same) "fst (recordCanaryResult k s False t now th force r) = r"
  | (counted) c where "fst (recordCanaryResult k s False t now th force r) = put a (p\<lparr>p_Canary := c\<rparr>) r"
  | (tripped) c st where
      "\<not> (isBuyerServingLocked (put a (p\<lparr>p_Canary := c\<rparr>) r) (p\<lparr>p_Canary := c\<rparr>) \<and>
         \<not> hasOtherBuyerServingForModelLocked (put a (p\<lparr>p_Canary := c\<rparr>) r) k (ModelID p))"
      "heap (fst (recordCanaryResult k s False t now th force r)) = (heap r)(a \<mapsto> p\<lparr>p_Canary := c, p_State := st\<rparr>)"
      "providers (fst (recordCanaryResult k s False t now th force r)) = providers r"
      "buyerServing (fst (recordCanaryResult k s False t now th force r)) = buyerServing r"
proof -
  have a: "heap r a = Some p" using assms by (simp add: session_of_Some lookup_provider_Some)
  note eq = recordCanary_failure_eq [OF assms, where t = t and now = now and th = th and force = force]
  define c where "c = (p_Canary p)\<lparr>CanaryLastCheckedAt := Some (at_or_now now t),
      CanaryFailCount := CanaryFailCount (p_Canary p) + 1, CanaryLastFailedAt := Some (at_or_now now t)\<rparr>"
  define r1 where "r1 = put a (p\<lparr>p_Canary := c\<rparr>) r"
  note eq = eq [folded c_def, folded r1_def]
  let ?early = "p_State p = StateDraining \<or> p_State p = StateUnavailable \<or>
      (canary_held r k s \<and> p_State p \<noteq> StateDegraded)"
  let ?kept = "CanaryFailCount c < (if th \<le> 0 then 3 else th) \<or> force \<or>
      (isBuyerServingLocked r1 (p\<lparr>p_Canary := c\<rparr>) \<and> \<not> hasOtherBuyerServingForModelLocked r1 k (ModelID p))"
  have h: "heap r1 a = Some (p\<lparr>p_Canary := c\<rparr>)" by (simp add: r1_def)
  consider ?early | "\<not> ?early" ?kept | "\<not> ?early" "\<not> ?kept" by blast
  then show thesis
  proof cases
    case 1
    then show thesis by (intro same) (auto simp: eq)
  next
    case 2
    then show thesis by (intro counted [of c]) (auto simp: eq r1_def)
  next
    case 3
    then have eq': "fst (recordCanaryResult k s False t now th force r) =
        (if p_Tier p = TierProvisional then setStateLocked a StateUnavailable r1
         else (hold k s RecoveryReasonCanary (setStateLocked a StateDegraded r1))
           \<lparr>canarySanctions := AList.update k \<lparr>s_failCount = CanaryFailCount c,
              s_lastCheckedAt = Some (at_or_now now t), s_lastFailedAt = Some (at_or_now now t)\<rparr>
              (canarySanctions (hold k s RecoveryReasonCanary (setStateLocked a StateDegraded r1)))\<rparr>)"
      unfolding eq by (simp only: if_False simp_thms de_Morgan_disj)
    show thesis
    proof (rule tripped [of c "if p_Tier p = TierProvisional then StateUnavailable else StateDegraded"])
      show "\<not> (isBuyerServingLocked (put a (p\<lparr>p_Canary := c\<rparr>) r) (p\<lparr>p_Canary := c\<rparr>) \<and>
         \<not> hasOtherBuyerServingForModelLocked (put a (p\<lparr>p_Canary := c\<rparr>) r) k (ModelID p))"
        using 3 unfolding r1_def by blast
    qed (simp_all add: eq' setState_heap [OF h], simp_all add: r1_def)
  qed
qed

text \<open>C5. A failed canary probe never removes the last buyer-serving provider of a model: if some
  provider serves a model before a failed result is recorded, one still does afterwards, for every
  model, tier, threshold and reachable state, provided the injected buyer-serving predicate does not
  read the canary counters themselves.\<close>

theorem canary_failure_keeps_last_provider:
  assumes "legal_history ops" "ignores_canary (run ops)" "0 < BuyerServingCountForModel (run ops) m"
  shows "0 < BuyerServingCountForModel (fst (recordCanaryResult k s False t now th force (run ops))) m"
proof -
  let ?r = "run ops" and ?r' = "fst (recordCanaryResult k s False t now th force (run ops))"
  have inv: "reg_inv ?r" "reg_inv ?r'" using run_reg_inv [OF assms(1)] recordCanaryResult_inv by auto
  then have wf: "heap_wf ?r" "heap_wf ?r'" by (auto simp: reg_inv_def)
  obtain j b x where x: "map_of (providers ?r) j = Some b" "heap ?r b = Some x" "serves ?r m x"
    using assms(3) BuyerServingCount_pos [OF wf(1)] by blast
  have put: "0 < BuyerServingCountForModel (put a (p\<lparr>p_Canary := c\<rparr>) ?r) m"
    if "heap ?r a = Some p" "heap_wf (put a (p\<lparr>p_Canary := c\<rparr>) ?r)" for a p c
  proof -
    let ?x = "if b = a then p\<lparr>p_Canary := c\<rparr> else x"
    have same: "serves (put a (p\<lparr>p_Canary := c\<rparr>) ?r) m y = serves ?r m y" for y
      by (rule serves_same_predicate) simp
    have "serves ?r m ?x"
      using x that(1) serves_canary [OF assms(2)] by (cases "b = a") simp_all
    then have "map_of (providers (put a (p\<lparr>p_Canary := c\<rparr>) ?r)) j = Some b
        \<and> heap (put a (p\<lparr>p_Canary := c\<rparr>) ?r) b = Some ?x \<and> serves (put a (p\<lparr>p_Canary := c\<rparr>) ?r) m ?x"
      using x(1,2) by (cases "b = a") (simp_all add: same)
    then show ?thesis unfolding BuyerServingCount_pos [OF that(2)] by blast
  qed
  show ?thesis
  proof (cases "session_of ?r k s")
    case None
    then show ?thesis using assms(3) by (simp add: recordCanaryResult_def Let_def)
  next
    case (Some ap)
    obtain a p where ap: "session_of ?r k s = Some (a, p)" using Some by (cases ap) simp
    then have a: "map_of (providers ?r) k = Some a" "heap ?r a = Some p"
      by (simp_all add: session_of_Some lookup_provider_Some)
    show ?thesis
    proof (cases rule: recordCanary_failure_cases [OF ap, of t now th force])
      case 1
      then show ?thesis using assms(3) by simp
    next
      case (2 c)
      then show ?thesis using put [OF a(2)] wf(2) by simp
    next
      case (3 c st)
      have same: "serves ?r' y z = serves ?r y z" for y z using 3(4) by (rule serves_same_predicate)
      obtain i d y where y: "map_of (providers ?r) i = Some d" "heap ?r d = Some y" "serves ?r m y" "d \<noteq> a"
      proof (cases "b = a")
        case True
        with x a have p: "serves ?r m p" by simp
        let ?r1 = "put a (p\<lparr>p_Canary := c\<rparr>) ?r"
        have "isBuyerServingLocked ?r1 (p\<lparr>p_Canary := c\<rparr>)"
          using p assms(2) by (simp add: ignores_canary_def serves_def isBuyerServingLocked_def)
        with 3(1) have "hasOtherBuyerServingForModelLocked ?r1 k (ModelID p)" by blast
        moreover have "heap_wf ?r1" by (rule heap_wf_put [OF wf(1) a(2)]) (simp add: same_ids_def)
        ultimately obtain i d y where i: "i \<noteq> k" "map_of (providers ?r) i = Some d"
            "heap ?r1 d = Some y" "serves ?r1 (ModelID p) y"
          by (auto simp: hasOther_iff)
        have "d \<noteq> a" using lookup_unique [OF wf(1) i(2)] a(1) i(1) by auto
        moreover have "serves ?r m y"
          using i(4) p serves_same_predicate [of ?r1 ?r]
          by (auto simp: serves_def providerServesActiveModel_def EqualFold_def)
        ultimately show ?thesis using that i by auto
      qed (use that x in blast)
      then have "heap ?r' d = Some y" using 3(2) by simp
      with y same 3(3) show ?thesis unfolding BuyerServingCount_pos [OF wf(2)] by metis
    qed
  qed
qed


theorem canary_failure_keeps_last_provider_witness:
  "0 < BuyerServingCountForModel (fst (recordCanaryResult ''mac-1'' ''s-1'' False 500 500 1 False
     (run [OpRegister (demo_provider ''mac-1'' ''s-1'') 7 100]))) ''qwen3''"
proof (rule canary_failure_keeps_last_provider)
  let ?ops = "[OpRegister (demo_provider ''mac-1'' ''s-1'') 7 100]"
  have facts: "legal_history ?ops \<and> Option.is_none (buyerServing (run ?ops)) \<and>
      0 < BuyerServingCountForModel (run ?ops) ''qwen3''" by code_simp
  show "legal_history ?ops" using facts by blast
  show "0 < BuyerServingCountForModel (run ?ops) ''qwen3''" using facts by blast
  have "buyerServing (run ?ops) = None"
    using facts Option.is_none_def [of "buyerServing (run ?ops)"] by blast
  then show "ignores_canary (run ?ops)" by (rule fallback_ignores_canary)
qed


section \<open>Receipt key rotation\<close>




text \<open>The grace does not survive a reconnect without a receipt key: the staged session then has
  neither the current nor the previous key, and a further reconnect with a third key is accepted.\<close>

lemma keyless_reconnect_drops_grace:
  assumes "ReceiptPubkey inc = []" "ReceiptPubkey third \<noteq> []" "activeReceiptPubkeyPrev third now = None"
  shows "stageReceiptPublicationLocked (Some keys) inc now = Some noReceipt \<and>
    stageReceiptPublicationLocked (Some noReceipt) third now =
      Some (noReceipt\<lparr>PendingReceiptPubkey := ReceiptPubkey third\<rparr>)"
  using assms by (simp add: stageReceiptPublicationLocked_def noReceipt_def Let_def)


section \<open>Model history\<close>

lemma recordSeen_adds:
  assumes "k \<noteq> []" "m \<noteq> []" "length m \<le> maxModelIDByteLen"
    "lifetimeContribByProvider r k < maxLifetimeContribPerProvider"
    "length (seenModelsLifetime r) < maxSeenModelsLifetime"
  shows "ToLower m \<in> set (seenModelsLifetime (recordSeenModelLocked k m r))"
  using assms by (simp add: recordSeenModelLocked_def Let_def not_le)

lemma recordUnion_adds:
  assumes "k \<noteq> []" "m \<noteq> []" "length m \<le> maxModelIDByteLen"
    "lifetimeContribByProvider r k < maxLifetimeContribPerProvider"
    "length (seenModelsLifetime r) < maxSeenModelsLifetime"
  shows "ToLower m \<in> set (seenModelsLifetime (recordSeenModelsUnionLocked k m ms r))"
  unfolding recordSeenModelsUnionLocked_def
  using recordSeen_adds [OF assms] recordSeen_fold_lifetime by blast

lemma run_lifetime_mono: "set (seenModelsLifetime r) \<subseteq> set (seenModelsLifetime (fold exec_op xs r))"
  by (induction xs arbitrary: r) (use exec_lifetime_mono in \<open>fastforce+\<close>)





section \<open>The unavailable state\<close>

lemma ApplyStateUpdate_lookup:
  assumes "session_of r k s = Some (a, p)" "\<not> held r p" "su_State u \<noteq> StateUnavailable"
    "su_State u = StateReady \<Longrightarrow> p_State p \<noteq> StateUnavailable"
  shows "\<exists>q. session_of (exec_op (OpStateUpdate k s u now) r) k s = Some (a, q) \<and>
    p_State q = su_State u \<and> \<not> held (exec_op (OpStateUpdate k s u now) r) q"
proof -
  have h: "heap r a = Some p" "map_of (providers r) k = Some a" "AssignedID p = s"
    using assms(1) by (auto simp: session_of_Some lookup_provider_Some)
  have "canApplyProviderStateLocked r p (su_State u)"
    using assms by (simp add: canApplyProviderStateLocked_def)
  then have eq: "exec_op (OpStateUpdate k s u now) r =
      put a (stateUpdateFields u now (p\<lparr>p_State := su_State u\<rparr>)) (setStateLocked a (su_State u) r)"
    using assms(1) h(1) by (simp add: ApplyStateUpdate_def Let_def setState_heap)
  have "recoveryHolds (setStateLocked a (su_State u) r) = recoveryHolds r"
    using h assms(3) by (simp add: setStateLocked_def applyStateCleanupLocked_def)
  then show ?thesis using assms(2) h unfolding eq
    by (simp add: session_of_Some lookup_provider_Some held_def cong: option.case_cong)
qed

text \<open>The state a re-tripped breaker leaves behind is not terminal: a connected provider that reports
  \<open>draining\<close> and then \<open>ready\<close> is \<open>ready\<close> again.\<close>

lemma unavailable_session_returns_to_ready:
  assumes "session_of r k s = Some (a, p)" "p_State p = StateUnavailable" "\<not> held r p"
    "su_State u = StateDraining" "su_State v = StateReady"
  shows "\<exists>q. session_of (fold exec_op [OpStateUpdate k s u t, OpStateUpdate k s v t'] r) k s = Some (a, q)
    \<and> p_State q = StateReady"
proof -
  from ApplyStateUpdate_lookup [OF assms(1,3), of u t] assms(4) obtain q where
    q: "session_of (exec_op (OpStateUpdate k s u t) r) k s = Some (a, q)" "p_State q = StateDraining"
      "\<not> held (exec_op (OpStateUpdate k s u t) r) q" by auto
  from ApplyStateUpdate_lookup [OF q(1,3), of v t'] assms(5) q(2) show ?thesis by auto
qed

end
