(* ===== verification/Mismatch_Limiter.thy ===== *)
theory Mismatch_Limiter
  imports Go_Prelude
begin

text \<open>
  The limiter of \<open>internal/buyer/sticky_mismatch_limiter.go\<close>: at most one \<open>sticky_account_mismatch\<close>
  warning per conversation key and window, with a bounded table.
\<close>

record stickyMismatchLimiter =
  window :: int
  lim_maxEntries :: int
  lim_entries :: "(string \<times> time) list"

definition newStickyMismatchLimiter :: "int \<Rightarrow> int \<Rightarrow> stickyMismatchLimiter" where
  "newStickyMismatchLimiter w n = \<lparr>window = (if w \<le> 0 then Minute else w),
     lim_maxEntries = (if n \<le> 0 then 10000 else n), lim_entries = []\<rparr>"

definition sweepExpiredLocked :: "time \<Rightarrow> stickyMismatchLimiter \<Rightarrow> stickyMismatchLimiter" where
  "sweepExpiredLocked now l = l\<lparr>lim_entries := filter (\<lambda>(k, t). \<not> Sub now t \<ge> window l) (lim_entries l)\<rparr>"

definition allow :: "time \<Rightarrow> string \<Rightarrow> stickyMismatchLimiter \<Rightarrow> stickyMismatchLimiter \<times> bool" where
  "allow now k l = (case map_of (lim_entries l) k of
     Some t \<Rightarrow> if Sub now t < window l then (l, False)
       else (l\<lparr>lim_entries := AList.update k now (lim_entries l)\<rparr>, True)
   | None \<Rightarrow>
       let l' = (if int (length (lim_entries l)) \<ge> lim_maxEntries l then sweepExpiredLocked now l else l)
       in if int (length (lim_entries l')) \<ge> lim_maxEntries l' then (l', False)
          else (l'\<lparr>lim_entries := AList.update k now (lim_entries l')\<rparr>, True))"

definition lenLocked :: "stickyMismatchLimiter \<Rightarrow> int" where
  "lenLocked l = int (length (lim_entries l))"


section \<open>Runs\<close>

text \<open>The state of a run: the limiter, the warnings emitted so far (latest first) and the clock.\<close>

type_synonym limiter_run = "stickyMismatchLimiter \<times> (string \<times> time) list \<times> time"

fun step_limiter :: "time \<times> string \<Rightarrow> limiter_run \<Rightarrow> limiter_run" where
  "step_limiter (now, k) (l, hist, c) =
     (fst (allow now k l), if snd (allow now k l) then (k, now) # hist else hist, now)"

fun legal_limiter :: "time \<times> string \<Rightarrow> limiter_run \<Rightarrow> bool" where
  "legal_limiter (now, k) (l, hist, c) \<longleftrightarrow> c \<le> now"

definition in_window :: "int \<Rightarrow> time \<Rightarrow> (string \<times> time) list \<Rightarrow> (string \<times> time) list" where
  "in_window w t hist = filter (\<lambda>(k, g). t - w < g \<and> g \<le> t) hist"

text \<open>Every warning of the trailing window is in the table, and every window of the past held at most
  \<open>maxEntries\<close> warnings, all for different keys.\<close>

fun limiter_inv :: "limiter_run \<Rightarrow> bool" where
  "limiter_inv (l, hist, c) \<longleftrightarrow> distinct (map fst (lim_entries l)) \<and> 1 \<le> lim_maxEntries l
     \<and> lenLocked l \<le> lim_maxEntries l \<and> 0 < window l \<and> window l \<le> max_i64
     \<and> (\<forall>(k, g)\<in>set hist. g \<le> c) \<and> (\<forall>(k, g)\<in>set (lim_entries l). g \<le> c)
     \<and> (\<forall>(k, g)\<in>set hist. c - window l < g \<longrightarrow> map_of (lim_entries l) k = Some g)
     \<and> (\<forall>t. distinct (map fst (in_window (window l) t hist))
          \<and> int (length (in_window (window l) t hist)) \<le> lim_maxEntries l)"

lemma Sub_less_iff: "t \<le> now \<Longrightarrow> 0 < w \<Longrightarrow> w \<le> max_i64 \<Longrightarrow> Sub now t < w \<longleftrightarrow> now - t < w"
  by (auto simp: Sub_def min_i64_def max_i64_def)

lemma in_window_Cons:
  "in_window w t ((k, g) # hist) = (if t - w < g \<and> g \<le> t then (k, g) # in_window w t hist else in_window w t hist)"
  by (simp add: in_window_def)

text \<open>The table after a warning for \<open>k\<close> at \<open>now\<close> covers the window that ends at \<open>now\<close>.\<close>

lemma limiter_inv_emit:
  assumes inv: "limiter_inv (l, hist, c)" and "c \<le> now"
    and tab: "distinct (map fst es)" "\<forall>(j, g)\<in>set es. g \<le> now"
      "\<And>j g. map_of (lim_entries l) j = Some g \<Longrightarrow> now - window l < g \<Longrightarrow> map_of es j = Some g"
    and k: "\<And>g. map_of es k = Some g \<Longrightarrow> g \<le> now - window l"
    and len: "int (length (AList.update k now es)) \<le> lim_maxEntries l"
  shows "limiter_inv (l\<lparr>lim_entries := AList.update k now es\<rparr>, (k, now) # hist, now)"
proof -
  let ?w = "window l" and ?es = "AList.update k now es"
  have past: "g \<le> c" "c - ?w < g \<Longrightarrow> map_of (lim_entries l) j = Some g" if "(j, g) \<in> set hist" for j g
    using inv that by auto
  have tabled: "map_of es j = Some g" if "(j, g) \<in> set hist" "now - ?w < g" for j g
    using past [OF that(1)] that(2) assms(2) tab(3) by auto
  have w0: "0 < ?w" using inv by simp
  have recent: "(j, g) \<in> set ?es \<and> j \<noteq> k" if "(j, g) \<in> set (in_window ?w t hist)" "now \<le> t" for j g t
  proof -
    from that have lg: "(j, g) \<in> set hist" "now - ?w < g" by (auto simp: in_window_def)
    then have "map_of es j = Some g" by (rule tabled)
    moreover from this have "j \<noteq> k" using k [of g] lg(2) by auto
    ultimately have "map_of ?es j = Some g" by simp
    then show ?thesis using map_of_SomeD [of ?es j g] \<open>j \<noteq> k\<close> by blast
  qed
  have win: "distinct (map fst (in_window ?w t ((k, now) # hist)))
      \<and> int (length (in_window ?w t ((k, now) # hist))) \<le> lim_maxEntries l" for t
  proof (cases "t - ?w < now \<and> now \<le> t")
    case True
    have d: "distinct (map fst (in_window ?w t hist))" using inv by simp
    have "k \<notin> fst ` set (in_window ?w t hist)" using recent True by fastforce
    then have dk: "distinct (map fst (in_window ?w t ((k, now) # hist)))" using d True by (simp add: in_window_Cons)
    have "set (in_window ?w t hist) \<subseteq> set ?es" using recent True by auto
    from image_mono [OF this, of fst] have "fst ` set (in_window ?w t ((k, now) # hist)) \<subseteq> fst ` set ?es"
      using True by (simp add: in_window_Cons keys_update)
    then have "card (fst ` set (in_window ?w t ((k, now) # hist))) \<le> card (fst ` set ?es)"
      by (intro card_mono) simp_all
    moreover have "card (fst ` set (in_window ?w t ((k, now) # hist))) = length (in_window ?w t ((k, now) # hist))"
      using distinct_card [OF dk] by simp
    moreover have "card (fst ` set ?es) \<le> length ?es" by (metis card_length length_map set_map)
    ultimately show ?thesis using dk len by linarith
  next
    case False
    then have "in_window ?w t ((k, now) # hist) = in_window ?w t hist" by (simp add: in_window_Cons)
    then show ?thesis using inv by simp
  qed
  have "\<forall>(j, g)\<in>set ((k, now) # hist). now - ?w < g \<longrightarrow> map_of ?es j = Some g"
    using tabled k by fastforce
  moreover have "\<forall>(j, g)\<in>set ?es. g \<le> now" using tab(2) set_update_subset [of k now es] by auto
  ultimately show ?thesis using inv win assms(2) len tab(1) past(1)
    by (auto simp: lenLocked_def distinct_update intro: order_trans)
qed


lemma limiter_inv_quiet:
  assumes "limiter_inv (l, hist, c)" "c \<le> now" "es = filter (\<lambda>(k, t). now - t < window l) (lim_entries l) \<or> es = lim_entries l"
  shows "limiter_inv (l\<lparr>lim_entries := es\<rparr>, hist, now)"
proof -
  have d: "distinct (map fst (lim_entries l))" using assms(1) by simp
  have "map_of es k = Some g" if "(k, g) \<in> set hist" "now - window l < g" for k g
  proof -
    have "map_of (lim_entries l) k = Some g" using assms(1,2) that by (auto simp del: map_of_eq_Some_iff)
    then show ?thesis using assms(3) that(2) by (auto simp: lookup_kept [OF d] simp del: map_of_eq_Some_iff)
  qed
  moreover have "distinct (map fst es)" "set es \<subseteq> set (lim_entries l)" "length es \<le> length (lim_entries l)"
    using assms(3) d by (auto simp: distinct_filter_fst)
  ultimately show ?thesis using assms(1,2) by (fastforce simp: lenLocked_def simp del: map_of_eq_Some_iff)
qed

lemma limiter_inv_step:
  assumes "limiter_inv s" "legal_limiter x s"
  shows "limiter_inv (step_limiter x s)"
proof -
  obtain l hist c now k where s: "s = (l, hist, c)" "x = (now, k)" by (cases s, cases x)
  have inv: "limiter_inv (l, hist, c)" and c: "c \<le> now" using assms s by (simp_all del: limiter_inv.simps)
  have d: "distinct (map fst (lim_entries l))" and w: "0 < window l" "window l \<le> max_i64"
    and len: "lenLocked l \<le> lim_maxEntries l" and old: "\<forall>(j, g)\<in>set (lim_entries l). g \<le> c" using inv by simp_all
  have sub: "Sub now t < window l \<longleftrightarrow> now - t < window l" if "(j, t) \<in> set (lim_entries l)" for j t
    using Sub_less_iff [OF _ w] old c that by fastforce
  let ?es = "filter (\<lambda>(k, t). now - t < window l) (lim_entries l)"
  have sweep: "sweepExpiredLocked now l = l\<lparr>lim_entries := ?es\<rparr>"
    using sub by (auto simp: sweepExpiredLocked_def not_le intro!: filter_cong arg_cong2 [where f = "\<lambda>es l. l\<lparr>lim_entries := es\<rparr>"])
  have same: "limiter_inv (l, hist, now)" using limiter_inv_quiet [OF inv c, of "lim_entries l"] by (simp del: limiter_inv.simps)
  have swept: "limiter_inv (l\<lparr>lim_entries := ?es\<rparr>, hist, now)" by (rule limiter_inv_quiet [OF inv c]) simp
  show ?thesis
  proof (cases "map_of (lim_entries l) k")
    case (Some t)
    then have t: "(k, t) \<in> set (lim_entries l)" by (rule map_of_SomeD)
    have "limiter_inv (l\<lparr>lim_entries := AList.update k now (lim_entries l)\<rparr>, (k, now) # hist, now)" if "\<not> now - t < window l"
      by (rule limiter_inv_emit [OF inv c d]) (use that Some old c len rev_image_eqI [OF t, of k fst] in \<open>auto simp: alist_length lenLocked_def\<close>)
    then show ?thesis using s same Some sub [OF t] by (simp add: allow_def del: limiter_inv.simps)
  next
    case None
    have k: "k \<notin> fst ` set (lim_entries l)" using None by (simp add: map_of_eq_None_iff)
    have emit: "limiter_inv (l\<lparr>lim_entries := AList.update k now es\<rparr>, (k, now) # hist, now)"
      if es: "es = ?es \<or> es = lim_entries l" and room: "int (length es) < lim_maxEntries l" for es
    proof (rule limiter_inv_emit [OF inv c])
      show "distinct (map fst es)" using es d by (auto simp: distinct_filter_fst)
      show "\<forall>(j, g)\<in>set es. g \<le> now" using es old c by fastforce
      show "map_of es j = Some g" if "map_of (lim_entries l) j = Some g" "now - window l < g" for j g
        using es that by (auto simp: lookup_kept [OF d] simp del: map_of_eq_Some_iff)
      show "g \<le> now - window l" if "map_of es k = Some g" for g
        using es that None by (auto simp: lookup_kept [OF d] simp del: map_of_eq_Some_iff)
      show "int (length (AList.update k now es)) \<le> lim_maxEntries l" using room by (simp add: alist_length)
    qed
    show ?thesis
      using s same swept emit None by (simp add: allow_def sweep Let_def del: limiter_inv.simps)
  qed
qed

interpretation limiter: bounded_store step_limiter legal_limiter limiter_inv "\<lambda>s. lenLocked (fst s)" "\<lambda>s. lim_maxEntries (fst s)"
proof
  show "lim_maxEntries (fst (step_limiter x s)) = lim_maxEntries (fst s)" for x s
    by (cases s, cases x) (auto simp: allow_def sweepExpiredLocked_def Let_def split: option.split)
  show "limiter_inv s \<Longrightarrow> lenLocked (fst s) \<le> lim_maxEntries (fst s)" for s by (cases s) simp
qed (rule limiter_inv_step)

lemma run_window: "window (fst (fold step_limiter xs s)) = window (fst s)"
proof (induction xs arbitrary: s)
  case (Cons x xs)
  have "window (fst (step_limiter x s)) = window (fst s)"
    by (cases s, cases x) (auto simp: allow_def sweepExpiredLocked_def Let_def split: option.split)
  then show ?case using Cons by simp
qed simp


section \<open>Property\<close>

text \<open>C26. The limiter keeps its promise under any rotation of conversation keys: over every window of
  time, each key produced at most one warning and all keys together at most \<open>maxEntries\<close>, and the table
  never grows past \<open>maxEntries\<close>.\<close>

theorem mismatch_warnings_limited:
  assumes "0 < w" "w \<le> max_i64" "1 \<le> n"
    and "legal_run step_limiter legal_limiter calls (newStickyMismatchLimiter w n, [], t0)"
    and "fold step_limiter calls (newStickyMismatchLimiter w n, [], t0) = (l, hist, c)"
  shows "distinct (map fst (in_window w t hist)) \<and> int (length (in_window w t hist)) \<le> n \<and> lenLocked l \<le> n"
proof -
  let ?s = "(newStickyMismatchLimiter w n, [], t0)"
  have inv: "limiter_inv ?s"
    using assms(1-3) by (simp add: newStickyMismatchLimiter_def lenLocked_def in_window_def)
  have "limiter_inv (l, hist, c)" using limiter.run_inv [OF inv assms(4)] assms(5) by (simp del: limiter_inv.simps)
  moreover have "window l = w" using run_window [of calls ?s] assms(1,5) by (simp add: newStickyMismatchLimiter_def)
  moreover have "lim_maxEntries l = n"
    using limiter.run_capacity [of calls ?s] assms(3,5) by (simp add: newStickyMismatchLimiter_def)
  ultimately show ?thesis by auto
qed

definition demo_calls :: "(time \<times> string) list" where
  "demo_calls = [(1, ''conv:a''), (2, ''conv:a''), (3, ''conv:b''), (4, ''conv:c''), (12, ''conv:c''), (13, ''conv:a'')]"

theorem mismatch_warnings_limited_witness:
  "\<exists>l hist c. fold step_limiter demo_calls (newStickyMismatchLimiter 10 2, [], 0) = (l, hist, c)
    \<and> distinct (map fst (in_window 10 13 hist)) \<and> int (length (in_window 10 13 hist)) \<le> 2
    \<and> hist = [(''conv:a'', 13), (''conv:c'', 12), (''conv:b'', 3), (''conv:a'', 1)]"
proof -
  let ?r = "fold step_limiter demo_calls (newStickyMismatchLimiter 10 2, [], 0)"
  obtain l hist c where r: "?r = (l, hist, c)" by (cases ?r)
  have leg: "legal_run step_limiter legal_limiter demo_calls (newStickyMismatchLimiter 10 2, [], 0)" by code_simp
  have "fst (snd ?r) = [(''conv:a'', 13), (''conv:c'', 12), (''conv:b'', 3), (''conv:a'', 1)]" by code_simp
  then show ?thesis using mismatch_warnings_limited [OF _ _ _ leg r, of 13] r by (simp add: max_i64_def)
qed

end
