(* ===== verification/Streaming_Downgrade.thy ===== *)
theory Streaming_Downgrade
  imports Go_Prelude
begin

text \<open>
  The per buyer and provider streaming downgrade of \<open>internal/buyer/streaming_downgrade.go\<close>: three
  malformed streams within five minutes switch the pair to buffered mode for ten minutes. The store is
  bounded and evicts in insertion order.
\<close>

section \<open>Model\<close>

record streamingDowngradeEntry =
  malformed :: "time list"
  downgradeUntil :: time

record streamingDowngradeStore =
  sd_entries :: "(string \<times> streamingDowngradeEntry) list"
  sd_order :: "string list"
  sd_maxEntries :: int
  sd_evictions :: int

definition defaultStreamingMetricMaxSamples :: int where
  "defaultStreamingMetricMaxSamples = 10000"

definition newStreamingDowngradeStoreWithLimit :: "int \<Rightarrow> streamingDowngradeStore" where
  "newStreamingDowngradeStoreWithLimit n = \<lparr>sd_entries = [], sd_order = [],
     sd_maxEntries = (if n \<le> 0 then defaultStreamingMetricMaxSamples else n), sd_evictions = 0\<rparr>"

definition newStreamingDowngradeStore :: streamingDowngradeStore where
  "newStreamingDowngradeStore = newStreamingDowngradeStoreWithLimit defaultStreamingMetricMaxSamples"

definition pruneMalformed :: "time list \<Rightarrow> time \<Rightarrow> time list" where
  "pruneMalformed ts now = filter (\<lambda>t. \<not> t < now - 5 * Minute) ts"

definition sd_key :: "string \<Rightarrow> string \<Rightarrow> string" where
  "sd_key buyerID providerID = buyerID @ [char_of (0 :: nat)] @ providerID"

text \<open>Reading a missing key gives the zero entry.\<close>

definition sd_entry :: "streamingDowngradeStore \<Rightarrow> string \<Rightarrow> streamingDowngradeEntry" where
  "sd_entry s k = (case map_of (sd_entries s) k of Some e \<Rightarrow> e | None \<Rightarrow> \<lparr>malformed = [], downgradeUntil = 0\<rparr>)"

definition deleteLocked :: "string \<Rightarrow> streamingDowngradeStore \<Rightarrow> streamingDowngradeStore" where
  "deleteLocked k s = s\<lparr>sd_entries := AList.delete k (sd_entries s), sd_order := remove1 k (sd_order s)\<rparr>"

text \<open>The eviction loop of \<open>rememberLocked\<close>, by recursion on the order queue.\<close>

fun evict_loop :: "string list \<Rightarrow> streamingDowngradeStore \<Rightarrow> streamingDowngradeStore" where
  "evict_loop [] s = s\<lparr>sd_order := []\<rparr>"
| "evict_loop (victim # rest) s =
     (if int (length (sd_entries s)) > sd_maxEntries s
      then evict_loop rest (if map_of (sd_entries s) victim \<noteq> None
             then s\<lparr>sd_entries := AList.delete victim (sd_entries s), sd_evictions := sd_evictions s + 1\<rparr> else s)
      else s\<lparr>sd_order := victim # rest\<rparr>)"

definition rememberLocked :: "string \<Rightarrow> streamingDowngradeStore \<Rightarrow> streamingDowngradeStore" where
  "rememberLocked k s =
    (if map_of (sd_entries s) k = None then s
     else if k \<in> set (sd_order s) then s
     else evict_loop (sd_order s @ [k]) s)"

definition isDowngraded :: "string \<Rightarrow> string \<Rightarrow> time \<Rightarrow> streamingDowngradeStore \<Rightarrow> streamingDowngradeStore \<times> bool" where
  "isDowngraded buyerID providerID now s =
    (let k = sd_key buyerID providerID; e = sd_entry s k in
     if downgradeUntil e > now then (s, True)
     else if \<not> IsZero (downgradeUntil e) \<or> malformed e \<noteq> []
     then let e' = \<lparr>malformed = pruneMalformed (malformed e) now, downgradeUntil = 0\<rparr>
          in (if malformed e' = [] then deleteLocked k s
              else s\<lparr>sd_entries := AList.update k e' (sd_entries s)\<rparr>, False)
     else (s, False))"

definition recordMalformed :: "string \<Rightarrow> string \<Rightarrow> time \<Rightarrow> streamingDowngradeStore \<Rightarrow> streamingDowngradeStore" where
  "recordMalformed buyerID providerID now s =
    (let k = sd_key buyerID providerID; e = sd_entry s k;
         e = e\<lparr>malformed := pruneMalformed (malformed e) now @ [now]\<rparr>;
         e = (if length (malformed e) \<ge> 3 then e\<lparr>downgradeUntil := now + 10 * Minute\<rparr> else e)
     in rememberLocked k (s\<lparr>sd_entries := AList.update k e (sd_entries s)\<rparr>))"

definition recordClean :: "string \<Rightarrow> string \<Rightarrow> time \<Rightarrow> streamingDowngradeStore \<Rightarrow> streamingDowngradeStore" where
  "recordClean buyerID providerID now s =
    (let k = sd_key buyerID providerID; e = sd_entry s k in
     if IsZero (downgradeUntil e) then s
     else if Sub now (downgradeUntil e - 10 * Minute) \<ge> 10 * Minute then deleteLocked k s else s)"


section \<open>The store as a system\<close>

definition downgrade_inv :: "streamingDowngradeStore \<Rightarrow> bool" where
  "downgrade_inv s \<longleftrightarrow> distinct (map fst (sd_entries s)) \<and> distinct (sd_order s)
     \<and> set (sd_order s) = fst ` set (sd_entries s) \<and> 1 \<le> sd_maxEntries s
     \<and> int (length (sd_entries s)) \<le> sd_maxEntries s"

lemma deleteLocked_inv: "downgrade_inv s \<Longrightarrow> downgrade_inv (deleteLocked k s)"
  using length_delete_le [of k "sd_entries s"]
  by (auto simp: downgrade_inv_def deleteLocked_def distinct_delete keys_delete)

lemma update_inv:
  "downgrade_inv s \<Longrightarrow> k \<in> fst ` set (sd_entries s) \<Longrightarrow>
    downgrade_inv (s\<lparr>sd_entries := AList.update k e (sd_entries s)\<rparr>)"
  by (simp add: downgrade_inv_def distinct_update alist_length keys_update insert_absorb)

lemma sd_entry_key: "malformed (sd_entry s k) \<noteq> [] \<or> \<not> IsZero (downgradeUntil (sd_entry s k)) \<Longrightarrow> k \<in> fst ` set (sd_entries s)"
  by (auto simp: sd_entry_def IsZero_def split: option.splits dest: map_of_SomeD intro: rev_image_eqI)

text \<open>One eviction makes room again, and it is never the key just stored.\<close>

lemma rememberLocked_new:
  assumes "downgrade_inv s" "k \<notin> fst ` set (sd_entries s)"
    and t: "t = s\<lparr>sd_entries := AList.update k e (sd_entries s)\<rparr>"
  shows "downgrade_inv (rememberLocked k t) \<and> map_of (sd_entries (rememberLocked k t)) k = Some e"
proof (cases "int (length (sd_entries t)) > sd_maxEntries t")
  case False
  have "evict_loop (sd_order s @ [k]) t = t\<lparr>sd_order := sd_order s @ [k]\<rparr>"
    using False by (cases "sd_order s") simp_all
  moreover have "k \<notin> set (sd_order s)" using assms by (simp add: downgrade_inv_def)
  ultimately show ?thesis using assms False
    by (auto simp: rememberLocked_def downgrade_inv_def distinct_update keys_update)
next
  case True
  have len: "length (sd_entries t) = Suc (length (sd_entries s))" using assms(2) t by (simp add: alist_length)
  have ks: "k \<notin> set (sd_order s)" "set (sd_order s) = fst ` set (sd_entries s)" "distinct (sd_order s)"
    using assms by (simp_all add: downgrade_inv_def)
  have "sd_entries s \<noteq> []" using True len t assms(1) by (auto simp: downgrade_inv_def)
  then obtain v rest where v: "sd_order s = v # rest" using ks(2) by (cases "sd_order s") auto
  have vk: "v \<noteq> k" "v \<in> fst ` set (sd_entries s)" using ks v by auto
  let ?u = "t\<lparr>sd_entries := AList.delete v (sd_entries t), sd_evictions := sd_evictions t + 1\<rparr>"
  have vt: "v \<in> fst ` set (sd_entries t)" using vk t by (simp add: keys_update)
  have "map_of (sd_entries t) v \<noteq> None" using vt by (simp add: map_of_eq_None_iff)
  then have e1: "evict_loop (sd_order s @ [k]) t = evict_loop (rest @ [k]) ?u" using True v by simp
  have "length (AList.delete v (sd_entries t)) \<le> length (sd_entries s)"
    using length_delete_less [OF vt] len by simp
  then have small: "int (length (sd_entries ?u)) \<le> sd_maxEntries ?u" using assms(1) t by (simp add: downgrade_inv_def)
  then have "evict_loop (rest @ [k]) ?u = ?u\<lparr>sd_order := rest @ [k]\<rparr>" by (cases rest) simp_all
  with e1 have e2: "rememberLocked k t = ?u\<lparr>sd_order := rest @ [k]\<rparr>"
    using ks(1) t by (simp add: rememberLocked_def)
  have "set (rest @ [k]) = fst ` set (AList.delete v (sd_entries t))"
    using ks v vk t by (auto simp: keys_delete keys_update)
  then show ?thesis using e2 small assms ks v vk t
    by (auto simp: downgrade_inv_def distinct_delete distinct_update)
qed

lemma rememberLocked_inv:
  assumes "downgrade_inv s"
  shows "downgrade_inv (rememberLocked k (s\<lparr>sd_entries := AList.update k e (sd_entries s)\<rparr>))
    \<and> map_of (sd_entries (rememberLocked k (s\<lparr>sd_entries := AList.update k e (sd_entries s)\<rparr>))) k = Some e"
proof (cases "k \<in> fst ` set (sd_entries s)")
  case True
  then have "k \<in> set (sd_order s)" using assms by (simp add: downgrade_inv_def)
  then show ?thesis using update_inv [OF assms True, of e] by (simp add: rememberLocked_def)
next
  case False
  then show ?thesis using rememberLocked_new [OF assms False refl] by blast
qed

datatype downgrade_op = OpIsDowngraded string string time | OpMalformed string string time | OpClean string string time

fun exec_downgrade :: "downgrade_op \<Rightarrow> streamingDowngradeStore \<Rightarrow> streamingDowngradeStore" where
  "exec_downgrade (OpIsDowngraded b p now) s = fst (isDowngraded b p now s)"
| "exec_downgrade (OpMalformed b p now) s = recordMalformed b p now s"
| "exec_downgrade (OpClean b p now) s = recordClean b p now s"

lemma downgrade_inv_step:
  assumes "downgrade_inv s"
  shows "downgrade_inv (exec_downgrade x s)"
proof (cases x)
  case (OpIsDowngraded b p now)
  then show ?thesis using assms deleteLocked_inv [OF assms] update_inv [OF assms sd_entry_key]
    by (auto simp: isDowngraded_def Let_def)
next
  case (OpMalformed b p now)
  then show ?thesis using rememberLocked_inv [OF assms] by (simp add: recordMalformed_def Let_def)
next
  case (OpClean b p now)
  then show ?thesis using assms deleteLocked_inv [OF assms] by (simp add: recordClean_def Let_def)
qed

lemma evict_loop_max: "sd_maxEntries (evict_loop ks s) = sd_maxEntries s"
  by (induction ks s rule: evict_loop.induct) auto

interpretation downgrade: bounded_store exec_downgrade "\<lambda>_ _. True" downgrade_inv
  "\<lambda>s. int (length (sd_entries s))" sd_maxEntries
proof
  show "sd_maxEntries (exec_downgrade x s) = sd_maxEntries s" for x s
    by (cases x) (auto simp: isDowngraded_def recordMalformed_def recordClean_def deleteLocked_def rememberLocked_def
        evict_loop_max Let_def)
  show "downgrade_inv s \<Longrightarrow> int (length (sd_entries s)) \<le> sd_maxEntries s" for s by (simp add: downgrade_inv_def)
qed (rule downgrade_inv_step)



section \<open>Property\<close>

lemma recordMalformed_entry:
  assumes "downgrade_inv s"
  shows "downgrade_inv (recordMalformed b p now s)"
    and "sd_entry (recordMalformed b p now s) (sd_key b p) =
      (let e = sd_entry s (sd_key b p); ts = pruneMalformed (malformed e) now @ [now]
       in \<lparr>malformed = ts, downgradeUntil = (if length ts \<ge> 3 then now + 10 * Minute else downgradeUntil e)\<rparr>)"
  using rememberLocked_inv [OF assms] by (simp_all add: recordMalformed_def Let_def sd_entry_def)


definition demo_downgrade :: "downgrade_op list" where
  "demo_downgrade = [OpMalformed ''account:x'' ''mac-1'' 5, OpMalformed ''account:y'' ''mac-1'' 6,
     OpMalformed ''account:z'' ''mac-2'' 7, OpIsDowngraded ''account:y'' ''mac-1'' 8]"


end
