(* ===== verification/Admission.thy ===== *)
theory Admission
  imports Pool_Types
begin

text \<open>
  The admission manager of \<open>internal/ws/admission.go\<close>: the provisional pool, the hourly admission
  rate, the hourly request quota of a provisional provider, operator rejections and the persisted
  snapshot. Operations run under the manager's mutex; those that read the clock take \<open>now\<close>, and those
  that write the snapshot take \<open>ok\<close>, whether \<open>SaveAdmissionState\<close> returned no error.
\<close>

section \<open>State\<close>

record AdmissionConfig =
  PinnedOnly :: bool
  ProvisionalAdmissionRatePerHour :: int
  ProvisionalPoolMax :: int
  ProvisionalQuotaPerHour :: int

record ProvisionalRecord =
  pr_ProviderID :: string
  pr_Hostname :: string
  pr_ModelID :: string
  pr_BinaryVersion :: string
  FirstSeenAt :: time
  LastSeenAt :: time
  TotalRequestsServed :: int
  TotalTokensServed :: int
  PromotedAt :: "time option"
  CurrentlyConnected :: bool

record AdmissionState =
  as_Admissions :: "time list"
  as_Records :: "(string \<times> ProvisionalRecord) list"
  as_Rejected :: "(string \<times> string) list"
  as_RequestWindows :: "(string \<times> time list) list"

text \<open>\<open>store\<close> is \<open>None\<close> for a nil store, otherwise the snapshot that was saved last. The record map has
  no nil entries: the manager never stores one and the snapshot skips them.\<close>

record AdmissionManager =
  cfg :: AdmissionConfig
  admissions :: "time list"
  pending :: int
  records :: "(string \<times> ProvisionalRecord) list"
  rejected :: "(string \<times> string) list"
  requestWindows :: "(string \<times> time list) list"
  store :: "AdmissionState option"

record Hello =
  h_ProviderID :: string
  h_Hostname :: string
  h_ModelID :: string
  h_BinaryVersion :: string


section \<open>Operations\<close>

definition NewAdmissionManager :: "AdmissionConfig \<Rightarrow> AdmissionManager" where
  "NewAdmissionManager c = \<lparr>cfg = c, admissions = [], pending = 0, records = [], rejected = [],
     requestWindows = [], store = None\<rparr>"

text \<open>\<open>loaded\<close> is the result of \<open>LoadAdmissionState\<close>, \<open>None\<close> for an error.\<close>

definition SetPersistence :: "AdmissionState option \<Rightarrow> AdmissionState \<Rightarrow> AdmissionManager \<Rightarrow> AdmissionManager" where
  "SetPersistence loaded contents a =
    (let a = a\<lparr>store := Some contents\<rparr> in
     case loaded of None \<Rightarrow> a
     | Some st \<Rightarrow> a\<lparr>admissions := (if as_Admissions st \<noteq> [] then as_Admissions st else admissions a),
         records := (if as_Records st \<noteq> [] then as_Records st else records a),
         rejected := (if as_Rejected st \<noteq> [] then as_Rejected st else rejected a),
         requestWindows := (if as_RequestWindows st \<noteq> [] then as_RequestWindows st else requestWindows a)\<rparr>)"

fun keepAfter :: "time list \<Rightarrow> time \<Rightarrow> time list" where
  "keepAfter [] cutoff = []"
| "keepAfter (t # ts) cutoff = (if t > cutoff then t # ts else keepAfter ts cutoff)"

definition snapshot :: "AdmissionManager \<Rightarrow> AdmissionState" where
  "snapshot a = \<lparr>as_Admissions = admissions a, as_Records = records a, as_Rejected = rejected a,
     as_RequestWindows = requestWindows a\<rparr>"

text \<open>The Boolean result is \<open>err == nil\<close>.\<close>

definition saveLocked :: "bool \<Rightarrow> AdmissionManager \<Rightarrow> AdmissionManager \<times> bool" where
  "saveLocked ok a = (case store a of None \<Rightarrow> (a, True)
     | Some _ \<Rightarrow> if ok then (a\<lparr>store := Some (snapshot a)\<rparr>, True) else (a, False))"

definition persistLocked :: "bool \<Rightarrow> AdmissionManager \<Rightarrow> AdmissionManager" where
  "persistLocked ok a = fst (saveLocked ok a)"

definition recordAdmissionLocked :: "bool \<Rightarrow> Hello \<Rightarrow> time \<Rightarrow> AdmissionManager \<Rightarrow> AdmissionManager" where
  "recordAdmissionLocked ok h now a =
    (let k = h_ProviderID h;
         fresh = \<lparr>pr_ProviderID = k, pr_Hostname = [], pr_ModelID = [], pr_BinaryVersion = [],
           FirstSeenAt = now, LastSeenAt = 0, TotalRequestsServed = 0, TotalTokensServed = 0,
           PromotedAt = None, CurrentlyConnected = False\<rparr>;
         rec = (case map_of (records a) k of Some x \<Rightarrow> x | None \<Rightarrow> fresh);
         a = (if map_of (records a) k = None then a\<lparr>admissions := admissions a @ [now]\<rparr> else a);
         rec = rec\<lparr>LastSeenAt := now, pr_Hostname := h_Hostname h, pr_ModelID := h_ModelID h,
           pr_BinaryVersion := h_BinaryVersion h\<rparr>
     in persistLocked ok (a\<lparr>records := AList.update k rec (records a)\<rparr>))"

fun digits_of :: "nat \<Rightarrow> string \<Rightarrow> string" where
  "digits_of n acc = (if n = 0 then acc else digits_of (n div 10) (char_of (48 + n mod 10) # acc))"

declare digits_of.simps [simp del]

definition itoa :: "int \<Rightarrow> string" where
  "itoa n = (if n = 0 then ''0''
     else if n < 0 then ''-'' @ digits_of (nat (i64 (- n))) [] else digits_of (nat n) [])"

definition CloseProvisionalPoolFull :: int where "CloseProvisionalPoolFull = 4007"
definition CloseProvisionalRateLimited :: int where "CloseProvisionalRateLimited = 4008"
definition CloseBanned :: int where "CloseBanned = 4009"

definition banned_reason :: "string \<Rightarrow> string" where
  "banned_reason k = ''banned: provider '' @ k @ '' has been rejected by operator''"

type_synonym verdict = "Tier \<times> int \<times> string"

definition evaluateAdmissionLocked ::
  "bool \<Rightarrow> time \<Rightarrow> Hello \<Rightarrow> int \<Rightarrow> bool \<Rightarrow> AdmissionManager \<Rightarrow> AdmissionManager \<times> verdict" where
  "evaluateAdmissionLocked ok now h connProv rec a =
    (if map_of (rejected a) (h_ProviderID h) \<noteq> None
     then (a, TierRejected, CloseBanned, banned_reason (h_ProviderID h))
     else if PinnedOnly (cfg a) then (a, TierRejected, CloseBanned, banned_reason (h_ProviderID h))
     else let a = a\<lparr>admissions := keepAfter (admissions a) (now - Hour)\<rparr> in
       if i64 (connProv + pending a) \<ge> ProvisionalPoolMax (cfg a)
       then (a, TierProvisional, CloseProvisionalPoolFull, ''provisional_pool_full: max '' @
         itoa (ProvisionalPoolMax (cfg a)) @ '' provisional providers reached'')
       else if map_of (records a) (h_ProviderID h) = None
           \<and> int (length (admissions a)) \<ge> ProvisionalAdmissionRatePerHour (cfg a)
       then (a, TierProvisional, CloseProvisionalRateLimited, ''provisional_rate_limited: max '' @
         itoa (ProvisionalAdmissionRatePerHour (cfg a)) @ '' admissions per hour'')
       else if \<not> rec then (a, TierProvisional, 0, [])
       else (recordAdmissionLocked ok h now (a\<lparr>pending := i64 (pending a + 1)\<rparr>), TierProvisional, 0, []))"

definition Admit ::
  "bool \<Rightarrow> time \<Rightarrow> Hello \<Rightarrow> bool \<Rightarrow> int \<Rightarrow> AdmissionManager \<Rightarrow> AdmissionManager \<times> verdict" where
  "Admit ok now h pinned connProv a = (if pinned then (a, TierPinned, 0, [])
     else evaluateAdmissionLocked ok now h connProv True a)"

definition CheckAdmit ::
  "time \<Rightarrow> Hello \<Rightarrow> bool \<Rightarrow> int \<Rightarrow> AdmissionManager \<Rightarrow> AdmissionManager \<times> verdict" where
  "CheckAdmit now h pinned connProv a = (if pinned then (a, TierPinned, 0, [])
     else evaluateAdmissionLocked True now h connProv False a)"

definition ReserveAdmission ::
  "time \<Rightarrow> Hello \<Rightarrow> bool \<Rightarrow> int \<Rightarrow> AdmissionManager \<Rightarrow> AdmissionManager \<times> verdict" where
  "ReserveAdmission now h pinned connProv a = (if pinned then (a, TierPinned, 0, [])
     else case evaluateAdmissionLocked True now h connProv False a of (a, tier, code, reason) \<Rightarrow>
       ((if code = 0 then a\<lparr>pending := i64 (pending a + 1)\<rparr> else a), tier, code, reason))"

definition CommitReservedAdmission ::
  "bool \<Rightarrow> time \<Rightarrow> Hello \<Rightarrow> bool \<Rightarrow> AdmissionManager \<Rightarrow> AdmissionManager \<times> Tier" where
  "CommitReservedAdmission ok now h pinned a = (if pinned then (a, TierPinned)
     else (recordAdmissionLocked ok h now a, TierProvisional))"

definition ReleasePendingProvisional :: "AdmissionManager \<Rightarrow> AdmissionManager" where
  "ReleasePendingProvisional a = (if pending a > 0 then a\<lparr>pending := pending a - 1\<rparr> else a)"

text \<open>Reading a missing key of the window map gives the nil slice.\<close>

definition window_of :: "AdmissionManager \<Rightarrow> string \<Rightarrow> time list" where
  "window_of a k = (case map_of (requestWindows a) k of Some w \<Rightarrow> w | None \<Rightarrow> [])"

definition set_window :: "string \<Rightarrow> time list \<Rightarrow> AdmissionManager \<Rightarrow> AdmissionManager" where
  "set_window k w a = a\<lparr>requestWindows := AList.update k w (requestWindows a)\<rparr>"

definition change_record :: "string \<Rightarrow> (ProvisionalRecord \<Rightarrow> ProvisionalRecord) \<Rightarrow> AdmissionManager \<Rightarrow> AdmissionManager" where
  "change_record k f a = (case map_of (records a) k of None \<Rightarrow> a
     | Some rec \<Rightarrow> a\<lparr>records := AList.update k (f rec) (records a)\<rparr>)"

definition CheckQuota :: "time \<Rightarrow> Provider \<Rightarrow> AdmissionManager \<Rightarrow> AdmissionManager \<times> bool" where
  "CheckQuota now p a = (if p_Tier p \<noteq> TierProvisional then (a, True)
     else let w = keepAfter (window_of a (ProviderID p)) (now - Hour)
          in (set_window (ProviderID p) w a, int (length w) < ProvisionalQuotaPerHour (cfg a)))"

definition TryReserveRequest :: "bool \<Rightarrow> time \<Rightarrow> Provider \<Rightarrow> AdmissionManager \<Rightarrow> AdmissionManager \<times> bool" where
  "TryReserveRequest ok now p a = (if p_Tier p \<noteq> TierProvisional then (a, True)
     else let w = keepAfter (window_of a (ProviderID p)) (now - Hour)
          in if int (length w) \<ge> ProvisionalQuotaPerHour (cfg a) then (set_window (ProviderID p) w a, False)
             else (persistLocked ok (change_record (ProviderID p)
                 (\<lambda>rec. rec\<lparr>TotalRequestsServed := i64 (TotalRequestsServed rec + 1), LastSeenAt := now\<rparr>)
                 (set_window (ProviderID p) (w @ [now]) a)), True))"

definition RecordRequest :: "bool \<Rightarrow> time \<Rightarrow> Provider \<Rightarrow> AdmissionManager \<Rightarrow> AdmissionManager" where
  "RecordRequest ok now p a = fst (TryReserveRequest ok now p a)"

definition RefundRequest :: "bool \<Rightarrow> Provider \<Rightarrow> AdmissionManager \<Rightarrow> AdmissionManager" where
  "RefundRequest ok p a = (if p_Tier p \<noteq> TierProvisional then a
     else let w = window_of a (ProviderID p);
              a = (if w \<noteq> [] then set_window (ProviderID p) (butlast w) a else a);
              a = change_record (ProviderID p) (\<lambda>rec. if TotalRequestsServed rec > 0
                    then rec\<lparr>TotalRequestsServed := TotalRequestsServed rec - 1\<rparr> else rec) a
          in persistLocked ok a)"

definition Promote :: "bool \<Rightarrow> time \<Rightarrow> string \<Rightarrow> AdmissionManager \<Rightarrow> AdmissionManager \<times> (Tier \<times> bool)" where
  "Promote ok now k a = (if map_of (records a) k = None then (a, TierUnset, False)
     else (persistLocked ok (change_record k (\<lambda>rec. rec\<lparr>PromotedAt := Some now\<rparr>) a), TierProvisional, True))"

definition Reject :: "bool \<Rightarrow> string \<Rightarrow> string \<Rightarrow> AdmissionManager \<Rightarrow> AdmissionManager" where
  "Reject ok k reason a = persistLocked ok (a\<lparr>rejected := AList.update k reason (rejected a)\<rparr>)"

text \<open>The second component of the result is \<open>err == nil\<close>.\<close>

definition Unreject :: "bool \<Rightarrow> string \<Rightarrow> AdmissionManager \<Rightarrow> AdmissionManager \<times> bool \<times> bool" where
  "Unreject ok k a = (case map_of (rejected a) k of None \<Rightarrow> (a, False, True)
     | Some reason \<Rightarrow>
       (case saveLocked ok (a\<lparr>rejected := AList.delete k (rejected a)\<rparr>) of
          (a, True) \<Rightarrow> (a, True, True)
        | (a, False) \<Rightarrow> (a\<lparr>rejected := AList.update k reason (rejected a)\<rparr>, False, False)))"

definition Rejected :: "string \<Rightarrow> AdmissionManager \<Rightarrow> bool" where
  "Rejected k a \<longleftrightarrow> map_of (rejected a) k \<noteq> None"

definition Records :: "(string \<Rightarrow> bool) \<Rightarrow> AdmissionManager \<Rightarrow> ProvisionalRecord list" where
  "Records isConn a = map (\<lambda>(k, rec). rec\<lparr>CurrentlyConnected := isConn (pr_ProviderID rec)\<rparr>) (records a)"

text \<open>The maps \<open>Prune\<close> leaves behind and the numbers it returns: a stale record goes with its request
  window, a rejection without a record goes, and the remaining timestamps are cut.\<close>

definition stale_ids :: "time \<Rightarrow> AdmissionManager \<Rightarrow> string list" where
  "stale_ids cutoff a = map fst (filter (\<lambda>(k, rec). LastSeenAt rec < cutoff) (records a))"

definition prune_state :: "time \<Rightarrow> AdmissionManager \<Rightarrow> AdmissionManager" where
  "prune_state cutoff a =
    (let recs = filter (\<lambda>(k, rec). \<not> LastSeenAt rec < cutoff) (records a);
         ws = filter (\<lambda>(k, w). k \<notin> set (stale_ids cutoff a)) (requestWindows a)
     in a\<lparr>records := recs,
          rejected := filter (\<lambda>(k, reason). map_of recs k \<noteq> None) (rejected a),
          requestWindows := filter (\<lambda>(k, w). w \<noteq> []) (map (\<lambda>(k, w). (k, keepAfter w cutoff)) ws),
          admissions := keepAfter (admissions a) cutoff\<rparr>)"

definition prune_counts :: "time \<Rightarrow> AdmissionManager \<Rightarrow> int \<times> int \<times> int" where
  "prune_counts cutoff a =
    (let b = prune_state cutoff a;
         ws = filter (\<lambda>(k, w). k \<notin> set (stale_ids cutoff a)) (requestWindows a)
     in (int (length (stale_ids cutoff a)), int (length (rejected a)) - int (length (rejected b)),
         sum_list (map (\<lambda>(k, w). int (length w) - int (length (keepAfter w cutoff))) ws)
           + (int (length (admissions a)) - int (length (admissions b)))))"

definition Prune :: "bool \<Rightarrow> time \<Rightarrow> AdmissionManager \<Rightarrow> AdmissionManager \<times> (int \<times> int \<times> int)" where
  "Prune ok cutoff a =
    (case prune_counts cutoff a of (deletedRecords, deletedRejected, deletedTimePoints) \<Rightarrow>
      (if deletedRecords > 0 \<or> deletedRejected > 0 \<or> deletedTimePoints > 0
       then persistLocked ok (prune_state cutoff a) else prune_state cutoff a,
       deletedRecords, deletedRejected, deletedTimePoints))"


section \<open>Sliding windows\<close>

lemma keepAfter_split: "\<exists>d. w = d @ keepAfter w t \<and> (\<forall>x\<in>set d. x \<le> t)"
proof (induction w)
  case (Cons x w)
  then obtain d where "w = d @ keepAfter w t" "\<forall>x\<in>set d. x \<le> t" by blast
  then have "x # w = (x # d) @ keepAfter w t" "x \<le> t \<Longrightarrow> \<forall>y\<in>set (x # d). y \<le> t" by simp_all
  then show ?case by (cases "x > t") (simp, metis keepAfter.simps(2) linorder_not_less)
qed simp

lemma keepAfter_subset: "set (keepAfter w t) \<subseteq> set w"
  by (induction w) auto

definition in_hour :: "time \<Rightarrow> time list \<Rightarrow> nat" where
  "in_hour t G = length (filter (\<lambda>g. t - Hour < g \<and> g \<le> t) G)"

text \<open>The window \<open>w\<close> kept at time \<open>c\<close> for the grants \<open>G\<close> made so far: it ends \<open>G\<close>, what it misses has
  left the trailing hour, and no hour holds more than \<open>q\<close> grants.\<close>

definition window_ok :: "int \<Rightarrow> time \<Rightarrow> time list \<Rightarrow> time list \<Rightarrow> bool" where
  "window_ok q c G w \<longleftrightarrow> sorted G \<and> (\<forall>g\<in>set G. g \<le> c)
     \<and> (\<exists>pre. G = pre @ w \<and> (\<forall>g\<in>set pre. g \<le> c - Hour)) \<and> (\<forall>t. int (in_hour t G) \<le> max 0 q)"

lemma window_ok_Nil [simp]: "window_ok q c [] []"
  by (simp add: window_ok_def in_hour_def)

lemma window_ok_hour: "window_ok q c G w \<Longrightarrow> int (in_hour t G) \<le> max 0 q"
  by (simp add: window_ok_def)

lemma window_ok_later:
  assumes "window_ok q c G w" "c \<le> c'"
  shows "window_ok q c' G w"
proof -
  from assms(1) obtain pre where pre: "G = pre @ w" "\<forall>g\<in>set pre. g \<le> c - Hour" by (auto simp: window_ok_def)
  have "\<forall>g\<in>set pre. g \<le> c' - Hour" "\<forall>g\<in>set G. g \<le> c'"
    using pre(2) assms by (auto simp: window_ok_def dest!: bspec)
  then show ?thesis using assms(1) pre(1) unfolding window_ok_def by blast
qed

lemma window_ok_shrink:
  assumes "window_ok q c G (d @ w)" "\<forall>g\<in>set d. g \<le> c - Hour"
  shows "window_ok q c G w"
proof -
  from assms(1) obtain pre where "G = pre @ d @ w" "\<forall>g\<in>set pre. g \<le> c - Hour" by (auto simp: window_ok_def)
  then have "G = (pre @ d) @ w \<and> (\<forall>g\<in>set (pre @ d). g \<le> c - Hour)" using assms(2) by auto
  then show ?thesis using assms(1) unfolding window_ok_def by blast
qed

lemma window_ok_keep:
  assumes "window_ok q c G w" "t \<le> c - Hour"
  shows "window_ok q c G (keepAfter w t)"
proof -
  obtain d where d: "w = d @ keepAfter w t" "\<forall>x\<in>set d. x \<le> t" using keepAfter_split by blast
  from assms(1) d(1) have "window_ok q c G (d @ keepAfter w t)" by simp
  moreover have "\<forall>g\<in>set d. g \<le> c - Hour" using d(2) assms(2) by auto
  ultimately show ?thesis by (rule window_ok_shrink)
qed

lemma window_ok_drop: "window_ok q c G w \<Longrightarrow> \<forall>g\<in>set w. g \<le> c - Hour \<Longrightarrow> window_ok q c G []"
  using window_ok_shrink [of q c G w "[]"] by simp

lemma window_ok_grant:
  assumes w: "window_ok q c G w" and q: "int (length w) < q"
  shows "window_ok q c (G @ [c]) (w @ [c])"
proof -
  from w obtain pre where pre: "G = pre @ w" "\<forall>g\<in>set pre. g \<le> c - Hour" by (auto simp: window_ok_def)
  have "int (in_hour t (G @ [c])) \<le> max 0 q" for t
  proof (cases "t < c")
    case True
    then have "in_hour t (G @ [c]) = in_hour t G" by (simp add: in_hour_def)
    then show ?thesis using window_ok_hour [OF w] by simp
  next
    case False
    then have "filter (\<lambda>g. t - Hour < g \<and> g \<le> t) pre = []" using pre(2) by (force simp: filter_empty_conv)
    then have "in_hour t (G @ [c]) \<le> length w + 1"
      using pre(1) length_filter_le [of "\<lambda>g. t - Hour < g \<and> g \<le> t" w] by (simp add: in_hour_def le_SucI)
    then show ?thesis using q by linarith
  qed
  moreover have "sorted (G @ [c])" "\<forall>g\<in>set (G @ [c]). g \<le> c" using w by (auto simp: window_ok_def sorted_append)
  moreover have "G @ [c] = pre @ (w @ [c])" using pre(1) by simp
  ultimately show ?thesis using pre(2) unfolding window_ok_def by blast
qed

lemma in_hour_butlast: "in_hour t (butlast G) \<le> in_hour t G"
  by (cases G rule: rev_cases) (simp_all add: in_hour_def)

lemma window_ok_refund:
  assumes w: "window_ok q c G w" and "w \<noteq> []"
  shows "window_ok q c (butlast G) (butlast w)"
proof -
  from w obtain pre where pre: "G = pre @ w" "\<forall>g\<in>set pre. g \<le> c - Hour" by (auto simp: window_ok_def)
  have "int (in_hour t (butlast G)) \<le> max 0 q" for t
    using window_ok_hour [OF w, of t] in_hour_butlast [of t G] by linarith
  moreover have "sorted (butlast G)" "\<forall>g\<in>set (butlast G). g \<le> c"
    using w by (auto simp: window_ok_def sorted_butlast dest: in_set_butlastD)
  moreover have "butlast G = pre @ butlast w" using pre(1) assms(2) by (simp add: butlast_append)
  ultimately show ?thesis using pre(2) unfolding window_ok_def by blast
qed


section \<open>The operations as a system\<close>

lemma persist_simps [simp]:
  "cfg (persistLocked ok a) = cfg a" "admissions (persistLocked ok a) = admissions a"
  "pending (persistLocked ok a) = pending a" "records (persistLocked ok a) = records a"
  "rejected (persistLocked ok a) = rejected a" "requestWindows (persistLocked ok a) = requestWindows a"
  by (simp_all add: persistLocked_def saveLocked_def split: option.split)

lemma change_record_simps [simp]:
  "cfg (change_record k f a) = cfg a" "requestWindows (change_record k f a) = requestWindows a"
  "rejected (change_record k f a) = rejected a" "admissions (change_record k f a) = admissions a"
  "map_of (records (change_record k f a)) j =
     (if j = k then map_option f (map_of (records a) k) else map_of (records a) j)"
  by (simp_all add: change_record_def split: option.split)

lemma window_of_simps [simp]:
  "window_of (persistLocked ok a) = window_of a" "window_of (change_record k f a) = window_of a"
  "window_of (set_window k w a) = (window_of a)(k := w)"
  by (auto simp: window_of_def set_window_def)

lemma set_window_simps [simp]:
  "cfg (set_window k w a) = cfg a" "records (set_window k w a) = records a"
  "rejected (set_window k w a) = rejected a" "admissions (set_window k w a) = admissions a"
  by (simp_all add: set_window_def)

lemma recordAdmission_simps [simp]:
  "cfg (recordAdmissionLocked ok h now a) = cfg a"
  "requestWindows (recordAdmissionLocked ok h now a) = requestWindows a"
  "rejected (recordAdmissionLocked ok h now a) = rejected a"
  by (simp_all add: recordAdmissionLocked_def Let_def)

lemma recordAdmission_records:
  "j \<noteq> h_ProviderID h \<Longrightarrow> map_of (records (recordAdmissionLocked ok h now a)) j = map_of (records a) j"
  "\<exists>rec. map_of (records (recordAdmissionLocked ok h now a)) (h_ProviderID h) = Some rec \<and> LastSeenAt rec = now"
  by (simp_all add: recordAdmissionLocked_def Let_def)

datatype adm_op =
    OpAdmit bool time Hello bool int
  | OpCheckAdmit time Hello bool int
  | OpReserve time Hello bool int
  | OpCommit bool time Hello bool
  | OpRelease
  | OpCheckQuota time Provider
  | OpTryRequest bool time Provider
  | OpRefund bool Provider
  | OpPromote bool time string
  | OpReject bool string string
  | OpUnreject bool string
  | OpPrune bool time time

fun adm_time :: "adm_op \<Rightarrow> time option" where
  "adm_time (OpAdmit ok now h pinned n) = Some now"
| "adm_time (OpCheckAdmit now h pinned n) = Some now"
| "adm_time (OpReserve now h pinned n) = Some now"
| "adm_time (OpCommit ok now h pinned) = Some now"
| "adm_time (OpCheckQuota now p) = Some now"
| "adm_time (OpTryRequest ok now p) = Some now"
| "adm_time (OpPromote ok now k) = Some now"
| "adm_time (OpPrune ok now cutoff) = Some now"
| "adm_time _ = None"

fun exec_adm :: "adm_op \<Rightarrow> AdmissionManager \<Rightarrow> AdmissionManager" where
  "exec_adm (OpAdmit ok now h pinned n) a = fst (Admit ok now h pinned n a)"
| "exec_adm (OpCheckAdmit now h pinned n) a = fst (CheckAdmit now h pinned n a)"
| "exec_adm (OpReserve now h pinned n) a = fst (ReserveAdmission now h pinned n a)"
| "exec_adm (OpCommit ok now h pinned) a = fst (CommitReservedAdmission ok now h pinned a)"
| "exec_adm OpRelease a = ReleasePendingProvisional a"
| "exec_adm (OpCheckQuota now p) a = fst (CheckQuota now p a)"
| "exec_adm (OpTryRequest ok now p) a = fst (TryReserveRequest ok now p a)"
| "exec_adm (OpRefund ok p) a = RefundRequest ok p a"
| "exec_adm (OpPromote ok now k) a = fst (Promote ok now k a)"
| "exec_adm (OpReject ok k reason) a = Reject ok k reason a"
| "exec_adm (OpUnreject ok k) a = fst (Unreject ok k a)"
| "exec_adm (OpPrune ok now cutoff) a = fst (Prune ok cutoff a)"

text \<open>The grants a provisional provider received: a granted request is logged at its time, a refund
  cancels the latest grant that is still in the provider's window.\<close>

fun log_adm :: "adm_op \<Rightarrow> AdmissionManager \<Rightarrow> (string \<Rightarrow> time list) \<Rightarrow> string \<Rightarrow> time list" where
  "log_adm (OpTryRequest ok now p) a G =
     (if p_Tier p = TierProvisional \<and> snd (TryReserveRequest ok now p a)
      then G(ProviderID p := G (ProviderID p) @ [now]) else G)"
| "log_adm (OpRefund ok p) a G =
     (if p_Tier p = TierProvisional \<and> window_of a (ProviderID p) \<noteq> []
      then G(ProviderID p := butlast (G (ProviderID p))) else G)"
| "log_adm _ a G = G"

type_synonym adm_run = "AdmissionManager \<times> (string \<Rightarrow> time list) \<times> time"

fun step_adm :: "adm_op \<Rightarrow> adm_run \<Rightarrow> adm_run" where
  "step_adm x (a, G, c) = (exec_adm x a, log_adm x a G, case adm_time x of None \<Rightarrow> c | Some now \<Rightarrow> now)"

text \<open>The clock does not go back, and the retention loop prunes with a cutoff at least an hour old.\<close>

fun legal_adm :: "adm_op \<Rightarrow> adm_run \<Rightarrow> bool" where
  "legal_adm x (a, G, c) \<longleftrightarrow> (case adm_time x of None \<Rightarrow> True | Some now \<Rightarrow> c \<le> now)
     \<and> (case x of OpPrune ok now cutoff \<Rightarrow> cutoff \<le> now - Hour | _ \<Rightarrow> True)"

definition key_ok :: "AdmissionManager \<Rightarrow> (string \<Rightarrow> time list) \<Rightarrow> time \<Rightarrow> string \<Rightarrow> bool" where
  "key_ok a G c k \<longleftrightarrow> window_ok (ProvisionalQuotaPerHour (cfg a)) c (G k) (window_of a k)
     \<and> (\<forall>rec. map_of (records a) k = Some rec \<longrightarrow> (\<forall>g\<in>set (window_of a k). g \<le> LastSeenAt rec))"

fun adm_inv :: "adm_run \<Rightarrow> bool" where
  "adm_inv (a, G, c) \<longleftrightarrow> distinct (map fst (requestWindows a)) \<and> distinct (map fst (records a))
     \<and> (\<forall>k. key_ok a G c k)"


lemma adm_invI:
  assumes "adm_inv (a, G, c)" "c \<le> c'" "requestWindows a' = requestWindows a" "cfg a' = cfg a"
    "distinct (map fst (records a'))"
    "\<And>k rec. map_of (records a') k = Some rec \<Longrightarrow>
       c \<le> LastSeenAt rec \<or> (\<exists>old. map_of (records a) k = Some old \<and> LastSeenAt old \<le> LastSeenAt rec)"
  shows "adm_inv (a', G, c')"
proof -
  have w: "window_of a' = window_of a" using assms(3) by (simp add: window_of_def fun_eq_iff)
  have "key_ok a' G c' k" for k
  proof -
    from assms(1) have k: "key_ok a G c k" by simp
    then have ok: "window_ok (ProvisionalQuotaPerHour (cfg a)) c (G k) (window_of a k)" by (simp add: key_ok_def)
    then have le: "\<forall>g\<in>set (window_of a k). g \<le> c" by (auto simp: window_ok_def)
    have "\<forall>g\<in>set (window_of a k). g \<le> LastSeenAt rec" if "map_of (records a') k = Some rec" for rec
      using assms(6) [OF that] le k by (fastforce simp: key_ok_def)
    then show ?thesis using window_ok_later [OF ok assms(2)] assms(4) by (simp add: key_ok_def w)
  qed
  then show ?thesis using assms(1,3,5) by auto
qed

lemma adm_inv_recordAdmission:
  assumes "adm_inv (a, G, c)" "c \<le> now"
  shows "adm_inv (recordAdmissionLocked ok h now a, G, now)"
proof (rule adm_invI [OF assms(1,2)])
  show "distinct (map fst (records (recordAdmissionLocked ok h now a)))"
    using assms(1) by (simp add: recordAdmissionLocked_def Let_def distinct_update)
  fix k rec assume k: "map_of (records (recordAdmissionLocked ok h now a)) k = Some rec"
  show "c \<le> LastSeenAt rec \<or> (\<exists>old. map_of (records a) k = Some old \<and> LastSeenAt old \<le> LastSeenAt rec)"
    using k assms(2) recordAdmission_records(1) [of k h ok now a] recordAdmission_records(2) [of ok h now a] by (cases "k = h_ProviderID h") auto
qed simp_all

lemma adm_inv_same:
  assumes "adm_inv (a, G, c)" "c \<le> c'" "requestWindows a' = requestWindows a" "cfg a' = cfg a"
    "records a' = records a"
  shows "adm_inv (a', G, c')"
  by (rule adm_invI [OF assms(1-4)]) (use assms in auto)

lemma adm_inv_evaluate:
  assumes "adm_inv (a, G, c)" "c \<le> now"
  shows "adm_inv (fst (evaluateAdmissionLocked ok now h n rec a), G, now)"
proof -
  let ?b = "a\<lparr>admissions := keepAfter (admissions a) (now - Hour)\<rparr>"
  have a: "adm_inv (a, G, now)" by (rule adm_inv_same [OF assms]) simp_all
  have b: "adm_inv (?b, G, now)" by (rule adm_inv_same [OF assms]) simp_all
  have r: "adm_inv (recordAdmissionLocked ok h now (?b\<lparr>pending := i64 (pending ?b + 1)\<rparr>), G, now)"
    by (rule adm_inv_recordAdmission [OF _ order_refl], rule adm_inv_same [OF b order_refl]) simp_all
  show ?thesis using a b r unfolding evaluateAdmissionLocked_def Let_def by (auto simp del: adm_inv.simps)
qed

lemma adm_inv_window:
  assumes "adm_inv (a, G, c)" "c \<le> now"
    and w: "window_ok (ProvisionalQuotaPerHour (cfg a)) now g w"
    and l: "\<And>rec. map_of (records a') k = Some rec \<Longrightarrow> \<forall>g\<in>set w. g \<le> LastSeenAt rec"
    and a': "requestWindows a' = AList.update k w (requestWindows a)" "cfg a' = cfg a"
    and r: "distinct (map fst (records a'))" "\<And>j. j \<noteq> k \<Longrightarrow> map_of (records a') j = map_of (records a) j"
  shows "adm_inv (a', G(k := g), now)"
proof -
  have wa: "window_of a' = (window_of a)(k := w)" using a'(1) by (auto simp: window_of_def)
  have "key_ok a' (G(k := g)) now j" for j
  proof (cases "j = k")
    case True
    then show ?thesis using w l a'(2) wa by (auto simp: key_ok_def)
  next
    case False
    from assms(1) have "key_ok a G c j" by simp
    then show ?thesis using False wa a'(2) r(2) [OF False] window_ok_later [OF _ assms(2)]
      by (simp add: key_ok_def)
  qed
  then show ?thesis using assms(1) a'(1) r(1) by (auto simp: distinct_update)
qed


lemma distinct_change_record: "distinct (map fst (records a)) \<Longrightarrow> distinct (map fst (records (change_record k f a)))"
  by (simp add: change_record_def distinct_update split: option.split)

lemma key_okD:
  assumes "adm_inv (a, G, c)"
  shows "window_ok (ProvisionalQuotaPerHour (cfg a)) c (G k) (window_of a k)"
    and "map_of (records a) k = Some rec \<Longrightarrow> \<forall>g\<in>set (window_of a k). g \<le> LastSeenAt rec"
  using assms unfolding adm_inv.simps key_ok_def by blast+

lemma adm_inv_keep:
  assumes "adm_inv (a, G, c)" "c \<le> now"
  shows "adm_inv (set_window k (keepAfter (window_of a k) (now - Hour)) a, G, now)"
proof -
  have "adm_inv (set_window k (keepAfter (window_of a k) (now - Hour)) a, G(k := G k), now)"
  proof (rule adm_inv_window [OF assms])
    show "window_ok (ProvisionalQuotaPerHour (cfg a)) now (G k) (keepAfter (window_of a k) (now - Hour))"
      by (rule window_ok_keep [OF window_ok_later [OF key_okD(1) [OF assms(1)] assms(2)]]) simp
    show "\<forall>g\<in>set (keepAfter (window_of a k) (now - Hour)). g \<le> LastSeenAt rec"
      if "map_of (records (set_window k (keepAfter (window_of a k) (now - Hour)) a)) k = Some rec" for rec
      using key_okD(2) [OF assms(1)] that keepAfter_subset by fastforce
  qed (use assms in \<open>auto simp: set_window_def\<close>)
  then show ?thesis by (simp del: adm_inv.simps)
qed

lemma adm_inv_TryReserve:
  assumes "adm_inv (a, G, c)" "c \<le> now"
  shows "adm_inv (fst (TryReserveRequest ok now p a),
    if p_Tier p = TierProvisional \<and> snd (TryReserveRequest ok now p a)
    then G(ProviderID p := G (ProviderID p) @ [now]) else G, now)"
proof -
  let ?k = "ProviderID p"
  let ?w = "keepAfter (window_of a ?k) (now - Hour)"
  let ?f = "\<lambda>rec. rec\<lparr>TotalRequestsServed := i64 (TotalRequestsServed rec + 1), LastSeenAt := now\<rparr>"
  have ok: "window_ok (ProvisionalQuotaPerHour (cfg a)) now (G ?k) ?w"
    by (rule window_ok_keep [OF window_ok_later [OF key_okD(1) [OF assms(1)] assms(2)]]) simp
  then have le: "\<forall>g\<in>set ?w. g \<le> now" by (auto simp: window_ok_def)
  have grant: "adm_inv (persistLocked ok (change_record ?k ?f (set_window ?k (?w @ [now]) a)),
      G(?k := G ?k @ [now]), now)" if "int (length ?w) < ProvisionalQuotaPerHour (cfg a)"
    by (rule adm_inv_window [OF assms window_ok_grant [OF ok that]])
      (use assms le in \<open>auto simp: set_window_def distinct_change_record\<close>)
  have same: "adm_inv (a, G, now)" by (rule adm_inv_same [OF assms]) simp_all
  show ?thesis using same grant adm_inv_keep [OF assms, of ?k]
    by (simp add: TryReserveRequest_def Let_def del: adm_inv.simps)
qed

lemma adm_inv_Refund:
  assumes "adm_inv (a, G, c)"
  shows "adm_inv (RefundRequest ok p a, log_adm (OpRefund ok p) a G, c)"
proof -
  let ?k = "ProviderID p"
  let ?w = "window_of a ?k"
  let ?f = "\<lambda>rec. if TotalRequestsServed rec > 0 then rec\<lparr>TotalRequestsServed := TotalRequestsServed rec - 1\<rparr> else rec"
  have seen: "LastSeenAt (?f rec) = LastSeenAt rec" for rec by simp
  have one: "adm_inv (persistLocked ok (change_record ?k ?f (set_window ?k (butlast ?w) a)),
      G(?k := butlast (G ?k)), c)" if "?w \<noteq> []"
  proof (rule adm_inv_window [OF assms order_refl window_ok_refund [OF key_okD(1) [OF assms] that]])
    show "\<forall>g\<in>set (butlast ?w). g \<le> LastSeenAt rec"
      if "map_of (records (persistLocked ok (change_record ?k ?f (set_window ?k (butlast ?w) a)))) ?k = Some rec" for rec
      using that key_okD(2) [OF assms] by (fastforce dest: in_set_butlastD simp: if_distrib [of LastSeenAt])
  qed (use assms in \<open>auto simp: set_window_def distinct_change_record\<close>)
  have two: "adm_inv (persistLocked ok (change_record ?k ?f a), G, c)"
    by (rule adm_invI [OF assms order_refl]) (use assms in \<open>auto simp: distinct_change_record split: if_splits\<close>)
  show ?thesis using one two assms by (simp add: RefundRequest_def Let_def del: adm_inv.simps)
qed


lemma Prune_proj [simp]:
  "cfg (fst (Prune ok cutoff a)) = cfg a"
  "records (fst (Prune ok cutoff a)) = records (prune_state cutoff a)"
  "rejected (fst (Prune ok cutoff a)) = rejected (prune_state cutoff a)"
  "requestWindows (fst (Prune ok cutoff a)) = requestWindows (prune_state cutoff a)"
  "admissions (fst (Prune ok cutoff a)) = admissions (prune_state cutoff a)"
  by (simp_all add: Prune_def prune_state_def Let_def split: prod.split)

lemma stale_ids_iff:
  "distinct (map fst (records a)) \<Longrightarrow>
    k \<in> set (stale_ids cutoff a) \<longleftrightarrow> (\<exists>rec. map_of (records a) k = Some rec \<and> LastSeenAt rec < cutoff)"
  by (auto simp: stale_ids_def image_iff)

lemma Prune_fields:
  assumes "distinct (map fst (records a))" "distinct (map fst (requestWindows a))"
  shows "distinct (map fst (records (prune_state cutoff a)))"
    and "distinct (map fst (requestWindows (prune_state cutoff a)))"
    and "map_of (records (prune_state cutoff a)) k = (case map_of (records a) k of None \<Rightarrow> None
       | Some rec \<Rightarrow> if LastSeenAt rec < cutoff then None else Some rec)"
    and "window_of (fst (Prune ok cutoff a)) k =
      (if \<exists>rec. map_of (records a) k = Some rec \<and> LastSeenAt rec < cutoff then []
       else keepAfter (window_of a k) cutoff)"
    and "Rejected k (fst (Prune ok cutoff a)) \<longleftrightarrow> Rejected k a
       \<and> (\<exists>rec. map_of (records a) k = Some rec \<and> cutoff \<le> LastSeenAt rec)"
proof -
  let ?ws = "filter (\<lambda>(k, w). k \<notin> set (stale_ids cutoff a)) (requestWindows a)"
  let ?m = "map (\<lambda>(k, w). (k, keepAfter w cutoff)) ?ws"
  have "map fst ?m = map fst ?ws" by (simp add: comp_def case_prod_beta)
  then have dm: "distinct (map fst ?m)" using distinct_filter_fst [OF assms(2)] by metis
  have m: "map_of ?m k = (if k \<in> set (stale_ids cutoff a) then None
      else map_option (\<lambda>w. keepAfter w cutoff) (map_of (requestWindows a) k))"
    by (simp add: map_of_map map_of_filter_keys [where P = "\<lambda>k. k \<notin> set (stale_ids cutoff a)"])
  have w: "requestWindows (prune_state cutoff a) = filter (\<lambda>(k, w). w \<noteq> []) ?m"
    by (simp add: prune_state_def Let_def)
  show "distinct (map fst (records (prune_state cutoff a)))"
    using assms(1) by (simp add: prune_state_def Let_def distinct_filter_fst)
  show "distinct (map fst (requestWindows (prune_state cutoff a)))"
    unfolding w by (rule distinct_filter_fst [OF dm])
  show recs: "map_of (records (prune_state cutoff a)) k = (case map_of (records a) k of None \<Rightarrow> None
       | Some rec \<Rightarrow> if LastSeenAt rec < cutoff then None else Some rec)"
    using assms(1) by (simp add: prune_state_def Let_def lookup_kept split: option.split)
  show "window_of (fst (Prune ok cutoff a)) k =
      (if \<exists>rec. map_of (records a) k = Some rec \<and> LastSeenAt rec < cutoff then []
       else keepAfter (window_of a k) cutoff)"
    unfolding stale_ids_iff [OF assms(1), symmetric] window_of_def Prune_proj w lookup_kept [OF dm] m
    by (simp split: option.split)
  have "Rejected k (fst (Prune ok cutoff a)) \<longleftrightarrow> Rejected k a \<and> map_of (records (prune_state cutoff a)) k \<noteq> None"
    unfolding Rejected_def Prune_proj by (simp add: prune_state_def Let_def map_of_filter_keys)
  then show "Rejected k (fst (Prune ok cutoff a)) \<longleftrightarrow> Rejected k a
       \<and> (\<exists>rec. map_of (records a) k = Some rec \<and> cutoff \<le> LastSeenAt rec)"
    unfolding recs by (auto split: option.split)
qed

lemma adm_inv_Prune:
  assumes "adm_inv (a, G, c)" "c \<le> now" "cutoff \<le> now - Hour"
  shows "adm_inv (fst (Prune ok cutoff a), G, now)"
proof -
  have d: "distinct (map fst (records a))" "distinct (map fst (requestWindows a))" using assms(1) by auto
  have "key_ok (fst (Prune ok cutoff a)) G now k" for k
  proof -
    have ok: "window_ok (ProvisionalQuotaPerHour (cfg a)) now (G k) (window_of a k)"
      by (rule window_ok_later [OF key_okD(1) [OF assms(1)] assms(2)])
    show ?thesis
    proof (cases "\<exists>rec. map_of (records a) k = Some rec \<and> LastSeenAt rec < cutoff")
      case True
      then obtain rec where rec: "map_of (records a) k = Some rec" "LastSeenAt rec < cutoff" by blast
      have "\<forall>g\<in>set (window_of a k). g \<le> now - Hour"
        using key_okD(2) [OF assms(1) rec(1)] rec(2) assms(3) by fastforce
      then show ?thesis using window_ok_drop [OF ok] True by (simp add: key_ok_def Prune_fields [OF d])
    next
      case False
      then show ?thesis
        using window_ok_keep [OF ok assms(3)] key_okD(2) [OF assms(1), of k] keepAfter_subset [of "window_of a k" cutoff]
        unfolding key_ok_def Prune_proj Prune_fields [OF d] by (auto split: option.split_asm if_splits)
    qed
  qed
  then show ?thesis unfolding adm_inv.simps Prune_proj using Prune_fields(1,2) [OF d] by blast
qed

lemma adm_inv_step:
  assumes "adm_inv s" "legal_adm x s"
  shows "adm_inv (step_adm x s)"
proof -
  obtain a G c where s: "s = (a, G, c)" by (cases s)
  have inv: "adm_inv (a, G, c)" using assms(1) s by (simp del: adm_inv.simps)
  show ?thesis
  proof (cases x)
    case (OpAdmit ok now h pinned n)
    then show ?thesis using assms(2) s adm_inv_evaluate [OF inv] adm_inv_same [OF inv]
      by (simp add: Admit_def del: adm_inv.simps)
  next
    case (OpCheckAdmit now h pinned n)
    then show ?thesis using assms(2) s adm_inv_evaluate [OF inv] adm_inv_same [OF inv]
      by (simp add: CheckAdmit_def del: adm_inv.simps)
  next
    case (OpReserve now h pinned n)
    then have c: "c \<le> now" using assms(2) s by simp
    obtain b tier code reason where e: "evaluateAdmissionLocked True now h n False a = (b, tier, code, reason)"
      using prod_cases4 by blast
    then have "adm_inv (b, G, now)" using adm_inv_evaluate [OF inv c, of True h n False] by (simp del: adm_inv.simps)
    then have "adm_inv (if code = 0 then b\<lparr>pending := i64 (pending b + 1)\<rparr> else b, G, now)"
      by (rule adm_inv_same) simp_all
    then show ?thesis using OpReserve c s e adm_inv_same [OF inv c]
      by (simp add: ReserveAdmission_def del: adm_inv.simps)
  next
    case (OpCommit ok now h pinned)
    then show ?thesis using assms(2) s adm_inv_recordAdmission [OF inv] adm_inv_same [OF inv]
      by (simp add: CommitReservedAdmission_def del: adm_inv.simps)
  next
    case OpRelease
    then show ?thesis using s adm_inv_same [OF inv order_refl]
      by (simp add: ReleasePendingProvisional_def del: adm_inv.simps)
  next
    case (OpCheckQuota now p)
    then show ?thesis using assms(2) s adm_inv_keep [OF inv] adm_inv_same [OF inv]
      by (simp add: CheckQuota_def Let_def del: adm_inv.simps)
  next
    case (OpTryRequest ok now p)
    then show ?thesis using assms(2) s adm_inv_TryReserve [OF inv] by (simp del: adm_inv.simps)
  next
    case (OpRefund ok p)
    then show ?thesis using s adm_inv_Refund [OF inv, of ok p] by (simp del: adm_inv.simps log_adm.simps)
  next
    case (OpPromote ok now k)
    then have c: "c \<le> now" using assms(2) s by simp
    have "adm_inv (fst (Promote ok now k a), G, now)"
      by (rule adm_invI [OF inv c]) (use inv in \<open>auto simp: Promote_def distinct_change_record simp del: map_of_eq_Some_iff split: if_splits\<close>)
    then show ?thesis using OpPromote s by (simp del: adm_inv.simps)
  next
    case (OpReject ok k reason)
    then show ?thesis using s adm_inv_same [OF inv order_refl] by (simp add: Reject_def del: adm_inv.simps)
  next
    case (OpUnreject ok k)
    then show ?thesis using s adm_inv_same [OF inv order_refl]
      by (simp add: Unreject_def saveLocked_def del: adm_inv.simps split: option.split bool.split)
  next
    case (OpPrune ok now cutoff)
    then show ?thesis using assms(2) s adm_inv_Prune [OF inv] by (simp del: adm_inv.simps)
  qed
qed

interpretation admission: op_system step_adm legal_adm adm_inv
  by unfold_locales (rule adm_inv_step)


abbreviation adm_start :: "AdmissionConfig \<Rightarrow> time \<Rightarrow> adm_run" where
  "adm_start c t0 \<equiv> (NewAdmissionManager c, \<lambda>_. [], t0)"

lemma adm_inv_start: "adm_inv (adm_start c t0)"
  by (auto simp: NewAdmissionManager_def key_ok_def window_of_def)

lemma evaluate_simps [simp]:
  "cfg (fst (evaluateAdmissionLocked ok now h n rec a)) = cfg a"
  "rejected (fst (evaluateAdmissionLocked ok now h n rec a)) = rejected a"
  by (simp_all add: evaluateAdmissionLocked_def Let_def)

lemma Reserve_fst:
  "fst (ReserveAdmission now h pinned n a) = (if pinned then a
     else let e = evaluateAdmissionLocked True now h n False a
          in if fst (snd (snd e)) = 0 then (fst e)\<lparr>pending := i64 (pending (fst e) + 1)\<rparr> else fst e)"
  by (simp add: ReserveAdmission_def Let_def case_prod_beta)

lemma exec_adm_cfg: "cfg (exec_adm x a) = cfg a"
  by (cases x) (simp_all add: Admit_def CheckAdmit_def Reserve_fst CommitReservedAdmission_def
      ReleasePendingProvisional_def CheckQuota_def TryReserveRequest_def RefundRequest_def Promote_def Reject_def
      Unreject_def saveLocked_def Let_def split: option.split bool.split)

section \<open>Properties\<close>

text \<open>C17. The request quota holds over every sliding hour, not only at the moment of a check: along
  every history of manager operations with a clock that does not go back, at most
  \<open>ProvisionalQuotaPerHour\<close> requests of a provisional provider are granted in any interval of one hour,
  each refund cancelling the latest grant still in the window.\<close>

theorem request_quota_sliding_hour:
  assumes "legal_run step_adm legal_adm ops (adm_start c t0)"
  shows "int (in_hour t (fst (snd (fold step_adm ops (adm_start c t0))) k)) \<le> max 0 (ProvisionalQuotaPerHour c)"
proof -
  obtain a G t' where f: "fold step_adm ops (adm_start c t0) = (a, G, t')" by (cases "fold step_adm ops (adm_start c t0)")
  have "cfg (fst (fold step_adm ops (adm_start c t0))) = c"
    by (rule admission.run_preserves [where P = "\<lambda>s. cfg (fst s) = c", OF adm_inv_start assms])
      (auto simp: NewAdmissionManager_def exec_adm_cfg)
  then have "cfg a = c" using f by simp
  moreover have "adm_inv (a, G, t')" using admission.run_inv [OF adm_inv_start assms] unfolding f .
  ultimately show ?thesis using window_ok_hour [OF key_okD(1)] f by (metis fst_conv snd_conv)
qed

definition demo_cfg :: AdmissionConfig where
  "demo_cfg = \<lparr>PinnedOnly = False, ProvisionalAdmissionRatePerHour = 1, ProvisionalPoolMax = 3, ProvisionalQuotaPerHour = 2\<rparr>"

definition demo_hello :: Hello where
  "demo_hello = \<lparr>h_ProviderID = ''mac'', h_Hostname = ''h'', h_ModelID = ''m'', h_BinaryVersion = ''1.0''\<rparr>"

definition demo_mac :: Provider where
  "demo_mac = zeroProvider\<lparr>ProviderID := ''mac'', p_Tier := TierProvisional\<rparr>"

definition demo_adm :: "adm_op list" where
  "demo_adm = [OpReserve 5 demo_hello False 0, OpCommit True 6 demo_hello False, OpRelease,
     OpTryRequest True 10 demo_mac, OpTryRequest True 20 demo_mac, OpTryRequest True 30 demo_mac,
     OpRefund True demo_mac, OpTryRequest True 40 demo_mac]"

theorem request_quota_sliding_hour_witness:
  "int (in_hour 100 (fst (snd (fold step_adm demo_adm (adm_start demo_cfg 0))) ''mac'')) \<le> max 0 (ProvisionalQuotaPerHour demo_cfg)
   \<and> fst (snd (fold step_adm demo_adm (adm_start demo_cfg 0))) ''mac'' = [10, 40]"
proof -
  have "legal_run step_adm legal_adm demo_adm (adm_start demo_cfg 0)" by code_simp
  moreover have "fst (snd (fold step_adm demo_adm (adm_start demo_cfg 0))) ''mac'' = [10, 40]" by code_simp
  ultimately show ?thesis using request_quota_sliding_hour [of demo_adm demo_cfg 0 100 "''mac''"] by blast
qed


definition banned :: "string \<Rightarrow> time \<Rightarrow> adm_run \<Rightarrow> bool" where
  "banned k l s \<longleftrightarrow> Rejected k (fst s) \<and> l \<le> snd (snd s)
     \<and> (\<exists>rec. map_of (records (fst s)) k = Some rec \<and> l \<le> LastSeenAt rec)"

lemma evaluate_records:
  assumes "map_of (records a) k = Some rec" "l \<le> LastSeenAt rec" "l \<le> now"
  shows "\<exists>rec. map_of (records (fst (evaluateAdmissionLocked ok now h n b a))) k = Some rec \<and> l \<le> LastSeenAt rec"
  using assms by (auto simp: evaluateAdmissionLocked_def recordAdmissionLocked_def Let_def split: option.split)

lemma banned_step:
  assumes "adm_inv s" "legal_adm x s" "banned k l s" "\<And>ok. x \<noteq> OpUnreject ok k"
    "\<And>ok now cutoff. x = OpPrune ok now cutoff \<Longrightarrow> cutoff \<le> l"
  shows "banned k l (step_adm x s)"
proof -
  obtain a G c where s: "s = (a, G, c)" by (cases s)
  with assms(3) obtain rec where rec: "Rejected k a" "l \<le> c" "map_of (records a) k = Some rec" "l \<le> LastSeenAt rec"
    by (auto simp: banned_def simp del: map_of_eq_Some_iff)
  have d: "distinct (map fst (records a))" "distinct (map fst (requestWindows a))" using assms(1) s by auto
  have t: "l \<le> (case adm_time x of None \<Rightarrow> c | Some now \<Rightarrow> now)"
    using assms(2) rec(2) s by (simp split: option.split option.split_asm)
  note defs = Admit_def CheckAdmit_def Reserve_fst CommitReservedAdmission_def ReleasePendingProvisional_def
    CheckQuota_def TryReserveRequest_def RefundRequest_def Promote_def Reject_def Unreject_def saveLocked_def Let_def
  have rej: "Rejected k (exec_adm x a)"
  proof (cases x)
    case (OpUnreject ok j)
    then show ?thesis using rec(1) assms(4) by (auto simp: defs Rejected_def split: option.split bool.split)
  next
    case (OpPrune ok now cutoff)
    then show ?thesis using rec assms(5) [OF OpPrune] by (auto simp: Prune_fields(5) [OF d] simp del: map_of_eq_Some_iff)
  qed (use rec(1) in \<open>simp_all add: defs Rejected_def\<close>)
  have "\<exists>rec. map_of (records (exec_adm x a)) k = Some rec \<and> l \<le> LastSeenAt rec"
  proof (cases x)
    case (OpAdmit ok now h pinned n)
    then show ?thesis using evaluate_records [OF rec(3,4)] rec(3,4) t by (simp add: defs del: map_of_eq_Some_iff)
  next
    case (OpCheckAdmit now h pinned n)
    then show ?thesis using evaluate_records [OF rec(3,4)] rec(3,4) t by (simp add: defs del: map_of_eq_Some_iff)
  next
    case (OpReserve now h pinned n)
    then show ?thesis using evaluate_records [OF rec(3,4)] rec(3,4) t by (simp add: defs del: map_of_eq_Some_iff)
  next
    case (OpCommit ok now h pinned)
    then show ?thesis using rec(3,4) t by (auto simp: defs recordAdmissionLocked_def simp del: map_of_eq_Some_iff)
  next
    case (OpRefund ok p)
    then show ?thesis using rec(3,4)
      by (cases "k = ProviderID p") (simp_all add: defs del: map_of_eq_Some_iff map_option_eq_Some)
  next
    case (OpUnreject ok j)
    then show ?thesis using rec(3,4) by (simp add: defs del: map_of_eq_Some_iff split: option.split bool.split)
  next
    case (OpPrune ok now cutoff)
    then show ?thesis using rec(3,4) assms(5) [OF OpPrune] by (simp add: Prune_fields(3) [OF d] del: map_of_eq_Some_iff)
  qed (use rec(3,4) t in \<open>auto simp: defs simp del: map_of_eq_Some_iff\<close>)
  then show ?thesis using rej t s by (simp add: banned_def del: map_of_eq_Some_iff)
qed


definition demo_pre :: "adm_op list" where "demo_pre = demo_adm @ [OpReject True ''mac'' ''abuse'']"
definition demo_post :: "adm_op list" where
  "demo_post = [OpPrune True (Hour + 50) 30, OpCommit True (Hour + 60) demo_hello False]"



subsection \<open>Restart\<close>

text \<open>What a snapshot promises at time \<open>c\<close>: records and rejections are the live ones, and the windows
  agree on every timestamp that can still count.\<close>

definition synced :: "time \<Rightarrow> AdmissionManager \<Rightarrow> AdmissionState \<Rightarrow> bool" where
  "synced c a st \<longleftrightarrow> as_Records st = records a \<and> as_Rejected st = rejected a
     \<and> (\<forall>t \<ge> c - Hour. keepAfter (as_Admissions st) t = keepAfter (admissions a) t
         \<and> (\<forall>k. keepAfter (case map_of (as_RequestWindows st) k of Some w \<Rightarrow> w | None \<Rightarrow> []) t = keepAfter (window_of a k) t))"

lemma keepAfter_keepAfter: "t \<le> t' \<Longrightarrow> keepAfter (keepAfter w t) t' = keepAfter w t'"
  by (induction w) auto

lemma synced_snapshot: "synced c a (snapshot a)"
  by (simp add: synced_def snapshot_def window_of_def)

lemma synced_change:
  assumes "synced c a st" "c \<le> c'" "records a' = records a" "rejected a' = rejected a"
    "\<And>t. c' - Hour \<le> t \<Longrightarrow> keepAfter (admissions a') t = keepAfter (admissions a) t"
    "\<And>t k. c' - Hour \<le> t \<Longrightarrow> keepAfter (window_of a' k) t = keepAfter (window_of a k) t"
  shows "synced c' a' st"
  using assms by (simp add: synced_def)

fun saves_ok :: "adm_op \<Rightarrow> bool" where
  "saves_ok (OpAdmit ok now h pinned n) = ok"
| "saves_ok (OpCommit ok now h pinned) = ok"
| "saves_ok (OpTryRequest ok now p) = ok"
| "saves_ok (OpRefund ok p) = ok"
| "saves_ok (OpPromote ok now k) = ok"
| "saves_ok (OpReject ok k reason) = ok"
| "saves_ok (OpUnreject ok k) = ok"
| "saves_ok (OpPrune ok now cutoff) = ok"
| "saves_ok _ = True"

definition stored :: "time \<Rightarrow> AdmissionManager \<Rightarrow> bool" where
  "stored c a \<longleftrightarrow> (\<exists>st. store a = Some st \<and> synced c a st)"

lemma stored_persist: "store a \<noteq> None \<Longrightarrow> stored c (persistLocked True a)"
  using synced_snapshot [of c a]
  by (auto simp: stored_def persistLocked_def saveLocked_def synced_def window_of_def)

lemma stored_change:
  assumes "stored c a" "c \<le> c'" "records a' = records a" "rejected a' = rejected a" "store a' = store a"
    "\<And>t. c' - Hour \<le> t \<Longrightarrow> keepAfter (admissions a') t = keepAfter (admissions a) t"
    "\<And>t k. c' - Hour \<le> t \<Longrightarrow> keepAfter (window_of a' k) t = keepAfter (window_of a k) t"
  shows "stored c' a'"
proof -
  from assms(1) obtain st where "store a = Some st" "synced c a st" by (auto simp: stored_def)
  then show ?thesis using synced_change [OF _ assms(2-4,6,7)] assms(5) by (auto simp: stored_def)
qed

lemma store_simps [simp]: "store (set_window k w a) = store a" "store (change_record k f a) = store a"
  by (simp_all add: set_window_def change_record_def split: option.split)

lemma stored_record: "store a \<noteq> None \<Longrightarrow> stored c (recordAdmissionLocked True h now a)"
  by (simp add: recordAdmissionLocked_def Let_def stored_persist)

lemma stored_evaluate:
  assumes "stored c a" "c \<le> now" "b \<longrightarrow> ok"
  shows "stored now (fst (evaluateAdmissionLocked ok now h n b a))"
proof -
  have st: "store a \<noteq> None" using assms(1) by (auto simp: stored_def)
  have "stored now a" "stored now (a\<lparr>admissions := keepAfter (admissions a) (now - Hour)\<rparr>)"
    by (rule stored_change [OF assms(1,2)]; simp add: keepAfter_keepAfter window_of_def)+
  then show ?thesis using stored_record [of "a\<lparr>admissions := keepAfter (admissions a) (now - Hour),
      pending := i64 (pending a + 1)\<rparr>" now h now] st assms(3)
    by (simp add: evaluateAdmissionLocked_def Let_def)
qed

lemma stored_Prune:
  assumes "stored c a" "c \<le> now" "cutoff \<le> now - Hour"
    and d: "distinct (map fst (records a))" "distinct (map fst (requestWindows a))"
  shows "stored now (fst (Prune True cutoff a))"
proof -
  have st: "store (prune_state cutoff a) \<noteq> None" using assms(1) by (auto simp: stored_def prune_state_def Let_def)
  obtain r j n where cnt: "prune_counts cutoff a = (r, j, n)" by (cases "prune_counts cutoff a")
  show ?thesis
  proof (cases "r > 0 \<or> j > 0 \<or> n > 0")
    case True
    then show ?thesis using stored_persist [OF st] by (simp add: Prune_def cnt)
  next
    case False
    then have none: "stale_ids cutoff a = []" "\<not> length (rejected (prune_state cutoff a)) < length (rejected a)"
      using cnt by (auto simp: prune_counts_def Let_def)
    have fresh: "\<not> (\<exists>rec. map_of (records a) k = Some rec \<and> LastSeenAt rec < cutoff)" for k
      using stale_ids_iff [OF d(1), of k cutoff] none(1) by simp
    have "filter (\<lambda>(k, rec). LastSeenAt rec < cutoff) (records a) = []" using none(1) by (simp add: stale_ids_def)
    then have "\<forall>(k, rec)\<in>set (records a). \<not> LastSeenAt rec < cutoff" by (auto simp: filter_empty_conv)
    then have recs: "records (prune_state cutoff a) = records a"
      by (auto simp: prune_state_def Let_def intro!: filter_True)
    obtain P where P: "rejected (prune_state cutoff a) = filter P (rejected a)"
      by (simp add: prune_state_def Let_def)
    then have "\<forall>x\<in>set (rejected a). P x" using none(2) length_filter_less by metis
    then have rej: "rejected (prune_state cutoff a) = rejected a" unfolding P by (rule filter_True)
    have "store (fst (Prune True cutoff a)) = store a" using False
      by (simp add: Prune_def cnt) (simp add: prune_state_def Let_def)
    moreover have "admissions (prune_state cutoff a) = keepAfter (admissions a) cutoff"
      by (simp add: prune_state_def Let_def)
    ultimately show ?thesis using assms(3)
      by (intro stored_change [OF assms(1,2)])
        (simp_all add: recs rej Prune_fields(4) [OF d] fresh keepAfter_keepAfter del: map_of_eq_Some_iff)
  qed
qed

lemma stored_step:
  assumes "adm_inv s" "legal_adm x s" "stored (snd (snd s)) (fst s)" "saves_ok x"
  shows "stored (snd (snd (step_adm x s))) (fst (step_adm x s))"
proof -
  obtain a G c where s: "s = (a, G, c)" by (cases s)
  have sa: "stored c a" using assms(3) s by simp
  then have st: "store a \<noteq> None" by (auto simp: stored_def)
  have d: "distinct (map fst (records a))" "distinct (map fst (requestWindows a))" using assms(1) s by auto
  note later = stored_change [OF sa _ refl refl refl refl refl]
  have keep: "stored now (set_window k (keepAfter (window_of a k) (now - Hour)) a)" if "c \<le> now" for now k
    by (rule stored_change [OF sa that]) (simp_all add: keepAfter_keepAfter)
  have "stored (case adm_time x of None \<Rightarrow> c | Some now \<Rightarrow> now) (exec_adm x a)"
  proof (cases x)
    case (OpReserve now h pinned n)
    then have c: "c \<le> now" using assms(2) s by simp
    have "stored now (fst (evaluateAdmissionLocked True now h n False a))" by (rule stored_evaluate [OF sa c]) simp
    then have "stored now ((fst (evaluateAdmissionLocked True now h n False a))\<lparr>pending := m\<rparr>)" for m
      by (rule stored_change) (simp_all add: window_of_def)
    then show ?thesis using OpReserve c later stored_evaluate [OF sa c] by (simp add: Reserve_fst Let_def)
  next
    case OpRelease
    have "stored c (a\<lparr>pending := m\<rparr>)" for m by (rule stored_change [OF sa]) (simp_all add: window_of_def)
    then show ?thesis using OpRelease sa by (simp add: ReleasePendingProvisional_def)
  next
    case (OpUnreject ok k)
    then show ?thesis using sa st assms(4) stored_persist [of "a\<lparr>rejected := AList.delete k (rejected a)\<rparr>" c]
      by (auto simp: Unreject_def persistLocked_def saveLocked_def split: option.split)
  qed (use assms(2,4) s st later keep stored_Prune [OF sa _ _ d] in
      \<open>simp_all add: Admit_def CheckAdmit_def CommitReservedAdmission_def CheckQuota_def TryReserveRequest_def
        RefundRequest_def Promote_def Reject_def Let_def stored_persist stored_record stored_evaluate [OF sa]\<close>)
  then show ?thesis using s by simp
qed



definition demo_empty :: AdmissionState where
  "demo_empty = \<lparr>as_Admissions = [], as_Records = [], as_Rejected = [], as_RequestWindows = []\<rparr>"



section \<open>Boundary behaviour\<close>

text \<open>A reservation does not count against the hourly rate before it is committed, and the commit does
  not look at the rate again: with a rate of one admission per hour two overlapping handshakes both pass.\<close>

lemma overlapping_reservations_exceed_rate:
  "(let h = demo_hello\<lparr>h_ProviderID := ''other''\<rparr>;
        (a, v) = ReserveAdmission 1 demo_hello False 0 (NewAdmissionManager demo_cfg);
        (a, w) = ReserveAdmission 2 h False 0 a;
        a = fst (CommitReservedAdmission True 3 demo_hello False a);
        a = fst (CommitReservedAdmission True 4 h False a)
    in v = (TierProvisional, 0, []) \<and> w = (TierProvisional, 0, []) \<and> admissions a = [3, 4])"
  by code_simp

text \<open>A rejection of an id that never had a provisional record does not survive the next prune.\<close>

lemma rejection_without_record_is_pruned:
  "map_of (records a) k = None \<Longrightarrow> \<not> Rejected k (fst (Prune ok cutoff (Reject ok' k reason a)))"
proof -
  assume "map_of (records a) k = None"
  then have "map_of (records (prune_state cutoff (Reject ok' k reason a))) k = None"
    by (auto simp: prune_state_def Reject_def Let_def map_of_eq_None_iff)
  then show ?thesis unfolding Rejected_def Prune_proj by (simp add: prune_state_def Let_def map_of_filter_keys)
qed

text \<open>A timestamp equal to the cutoff is dropped, a record last seen at the cutoff is kept.\<close>

lemma keepAfter_drops_cutoff: "keepAfter [t] t = []"
  by simp

end
