(* ===== verification/Routing_Filter.thy ===== *)
theory Routing_Filter
  imports Pool_Types
begin

text \<open>
  The composition gates of \<open>internal/routing\<close>: the exclusion set (\<open>exclusion.go\<close>) and the filter that
  reduces a pool snapshot to the eligible candidates (\<open>filter.go\<close>). The Go interface
  \<open>EligibilityChecker\<close> is a record of functions; what its documentation demands of an implementation is
  the locale \<open>eligibility_checker\<close>.
\<close>

section \<open>Exclusion set\<close>

text \<open>\<open>None\<close> is the zero value with a nil map.\<close>

type_synonym Excluded = "string set option"

definition NewExcluded :: "int \<Rightarrow> Excluded" where
  "NewExcluded capacityHint = Some {}"

definition AddKey :: "string \<Rightarrow> Excluded \<Rightarrow> Excluded" where
  "AddKey k e = (case e of None \<Rightarrow> None | Some ks \<Rightarrow> Some (insert k ks))"

definition Add :: "Provider \<Rightarrow> (Provider \<Rightarrow> string) \<Rightarrow> Excluded \<Rightarrow> Excluded" where
  "Add p keyer e = (case e of None \<Rightarrow> None | Some ks \<Rightarrow> Some (insert (keyer p) ks))"

definition Has :: "string \<Rightarrow> Excluded \<Rightarrow> bool" where
  "Has k e \<longleftrightarrow> (case e of None \<Rightarrow> False | Some ks \<Rightarrow> k \<in> ks)"

definition excluded_Len :: "Excluded \<Rightarrow> nat" where
  "excluded_Len e = (case e of None \<Rightarrow> 0 | Some ks \<Rightarrow> card ks)"


section \<open>Filter\<close>

datatype RejectionReason =
    ReasonExcluded
  | ReasonModelMismatch
  | ReasonContextTooSmall
  | ReasonTier2HashMismatch
  | ReasonTier2HashRequired
  | ReasonTier2EncryptedLeg
  | ReasonTier2Attestation
  | ReasonQuotaBlocked
  | ReasonModelVersionFloor

text \<open>The zero reason of \<open>Tier2Decision\<close> is \<open>None\<close>.\<close>

record EligibilityChecker =
  ProviderMatchesRequest :: "Provider \<Rightarrow> bool"
  ProviderMeetsModelVersionFloor :: "Provider \<Rightarrow> bool"
  ProviderContextSufficient :: "Provider \<Rightarrow> bool"
  Tier2Decision :: "Provider \<Rightarrow> RejectionReason option \<times> HashStatus"
  QuotaPermits :: "Provider \<Rightarrow> bool"

record RejectedProvider =
  rj_Provider :: Provider
  rj_Reason :: RejectionReason
  rj_HashStatus :: HashStatus

record FilterResult =
  Eligible :: "Provider list"
  Counts :: "RejectionReason \<Rightarrow> int"
  HashMismatches :: "RejectedProvider list"
  PreQuotaCount :: int

definition bump :: "RejectionReason \<Rightarrow> FilterResult \<Rightarrow> FilterResult" where
  "bump r res = res\<lparr>Counts := (Counts res)(r := Counts res r + 1)\<rparr>"

text \<open>One round of the first loop, on the result and \<open>preQuota\<close>.\<close>

definition gate :: "Excluded \<Rightarrow> (Provider \<Rightarrow> string) \<Rightarrow> EligibilityChecker \<Rightarrow> Provider \<Rightarrow>
    FilterResult \<times> Provider list \<Rightarrow> FilterResult \<times> Provider list" where
  "gate excluded keyer checker p acc = (case acc of (res, preQuota) \<Rightarrow>
    if Has (keyer p) excluded then (bump ReasonExcluded res, preQuota)
    else if \<not> ProviderMatchesRequest checker p then (bump ReasonModelMismatch res, preQuota)
    else if \<not> ProviderMeetsModelVersionFloor checker p then (bump ReasonModelVersionFloor res, preQuota)
    else if \<not> ProviderContextSufficient checker p then (bump ReasonContextTooSmall res, preQuota)
    else case Tier2Decision checker p of
        (Some reason, hashStatus) \<Rightarrow>
          (let res = bump reason res in
           if reason = ReasonTier2HashMismatch
           then res\<lparr>HashMismatches := HashMismatches res @ [\<lparr>rj_Provider = p\<lparr>p_HashStatus := hashStatus\<rparr>,
                  rj_Reason = reason, rj_HashStatus = hashStatus\<rparr>]\<rparr>
           else res, preQuota)
      | (None, hashStatus) \<Rightarrow> (res, preQuota @ [p]))"

definition quota_gate :: "EligibilityChecker \<Rightarrow> Provider \<Rightarrow> FilterResult \<Rightarrow> FilterResult" where
  "quota_gate checker p res = (if QuotaPermits checker p then res\<lparr>Eligible := Eligible res @ [p]\<rparr>
     else bump ReasonQuotaBlocked res)"

definition EligibleCandidates ::
  "Provider list \<Rightarrow> Excluded \<Rightarrow> (Provider \<Rightarrow> string) \<Rightarrow> EligibilityChecker \<Rightarrow> FilterResult" where
  "EligibleCandidates providers excluded keyer checker =
    (let res = \<lparr>Eligible = [], Counts = (\<lambda>_. 0), HashMismatches = [], PreQuotaCount = 0\<rparr>;
         (res, preQuota) = fold (gate excluded keyer checker) providers (res, [])
     in fold (quota_gate checker) preQuota (res\<lparr>PreQuotaCount := int (length preQuota)\<rparr>))"


section \<open>Reference definition\<close>

text \<open>The reason a single provider is dropped for: the first gate it fails.\<close>

definition first_pass :: "Excluded \<Rightarrow> (Provider \<Rightarrow> string) \<Rightarrow> EligibilityChecker \<Rightarrow> Provider \<Rightarrow> RejectionReason option" where
  "first_pass excluded keyer checker p =
    (if Has (keyer p) excluded then Some ReasonExcluded
     else if \<not> ProviderMatchesRequest checker p then Some ReasonModelMismatch
     else if \<not> ProviderMeetsModelVersionFloor checker p then Some ReasonModelVersionFloor
     else if \<not> ProviderContextSufficient checker p then Some ReasonContextTooSmall
     else fst (Tier2Decision checker p))"

definition drop_reason :: "Excluded \<Rightarrow> (Provider \<Rightarrow> string) \<Rightarrow> EligibilityChecker \<Rightarrow> Provider \<Rightarrow> RejectionReason option" where
  "drop_reason excluded keyer checker p =
    (case first_pass excluded keyer checker p of Some r \<Rightarrow> Some r
     | None \<Rightarrow> if QuotaPermits checker p then None else Some ReasonQuotaBlocked)"

lemma gate_fold:
  "fold (gate excluded keyer checker) ps (res, preQuota) =
    (res\<lparr>Counts := (\<lambda>r. Counts res r + int (length (filter (\<lambda>p. first_pass excluded keyer checker p = Some r) ps))),
       HashMismatches := HashMismatches res @ map (\<lambda>p. \<lparr>rj_Provider = p\<lparr>p_HashStatus := snd (Tier2Decision checker p)\<rparr>,
            rj_Reason = ReasonTier2HashMismatch, rj_HashStatus = snd (Tier2Decision checker p)\<rparr>)
          (filter (\<lambda>p. first_pass excluded keyer checker p = Some ReasonTier2HashMismatch) ps)\<rparr>,
     preQuota @ filter (\<lambda>p. first_pass excluded keyer checker p = None) ps)"
proof (induction ps arbitrary: res preQuota)
  case (Cons p ps)
  show ?case
  proof (cases "first_pass excluded keyer checker p")
    case None
    then have "gate excluded keyer checker p (res, preQuota) = (res, preQuota @ [p])"
      by (auto simp: gate_def first_pass_def split: if_splits prod.splits option.splits)
    then show ?thesis using None by (simp add: Cons.IH)
  next
    case (Some r)
    then have "gate excluded keyer checker p (res, preQuota) = ((bump r res)\<lparr>HashMismatches := HashMismatches res @
        (if r = ReasonTier2HashMismatch then [\<lparr>rj_Provider = p\<lparr>p_HashStatus := snd (Tier2Decision checker p)\<rparr>,
            rj_Reason = r, rj_HashStatus = snd (Tier2Decision checker p)\<rparr>] else [])\<rparr>, preQuota)"
      by (auto simp: gate_def first_pass_def bump_def Let_def split: if_splits prod.splits option.splits)
    then show ?thesis using Some by (auto simp: Cons.IH bump_def fun_eq_iff intro!: FilterResult.equality)
  qed
qed simp

lemma quota_fold:
  "fold (quota_gate checker) ps res =
    res\<lparr>Eligible := Eligible res @ filter (QuotaPermits checker) ps,
        Counts := (Counts res)(ReasonQuotaBlocked := Counts res ReasonQuotaBlocked + int (length (filter (\<lambda>p. \<not> QuotaPermits checker p) ps)))\<rparr>"
  by (induction ps arbitrary: res) (auto simp: quota_gate_def bump_def algebra_simps)


lemma Eligible_spec:
  "EligibleCandidates ps excluded keyer checker =
    \<lparr>Eligible = filter (\<lambda>p. drop_reason excluded keyer checker p = None) ps,
     Counts = (\<lambda>r. int (length (filter (\<lambda>p. first_pass excluded keyer checker p = Some r) ps))
        + (if r = ReasonQuotaBlocked then int (length (filter (\<lambda>p. first_pass excluded keyer checker p = None \<and> \<not> QuotaPermits checker p) ps)) else 0)),
     HashMismatches = map (\<lambda>p. \<lparr>rj_Provider = p\<lparr>p_HashStatus := snd (Tier2Decision checker p)\<rparr>,
            rj_Reason = ReasonTier2HashMismatch, rj_HashStatus = snd (Tier2Decision checker p)\<rparr>)
          (filter (\<lambda>p. first_pass excluded keyer checker p = Some ReasonTier2HashMismatch) ps),
     PreQuotaCount = int (length (filter (\<lambda>p. first_pass excluded keyer checker p = None) ps))\<rparr>"
proof -
  have "filter (QuotaPermits checker) (filter (\<lambda>p. first_pass excluded keyer checker p = None) ps) =
      filter (\<lambda>p. drop_reason excluded keyer checker p = None) ps"
    by (auto simp: drop_reason_def filter_filter intro!: filter_cong split: option.split)
  then show ?thesis
    by (auto simp: EligibleCandidates_def Let_def gate_fold quota_fold filter_filter conj_commute fun_eq_iff)
qed

definition all_reasons :: "RejectionReason list" where
  "all_reasons = [ReasonExcluded, ReasonModelMismatch, ReasonContextTooSmall, ReasonTier2HashMismatch,
     ReasonTier2HashRequired, ReasonTier2EncryptedLeg, ReasonTier2Attestation, ReasonQuotaBlocked, ReasonModelVersionFloor]"

lemma all_reasons_complete: "r \<in> set all_reasons"
  by (cases r) (simp_all add: all_reasons_def)


section \<open>The checker contract\<close>

text \<open>What the interface documentation demands: the match gate includes the routing state of the
  provider, and only \<open>Tier2Decision\<close> reports \<open>ReasonTier2*\<close>, nothing else.\<close>

definition tier2_reasons :: "RejectionReason list" where
  "tier2_reasons = [ReasonTier2HashMismatch, ReasonTier2HashRequired, ReasonTier2EncryptedLeg, ReasonTier2Attestation]"

locale eligibility_checker =
  fixes checker :: EligibilityChecker
  assumes matches_routable: "ProviderMatchesRequest checker p \<Longrightarrow> RoutingEligible p"
    and tier2_reason: "fst (Tier2Decision checker p) = Some r \<Longrightarrow> r \<in> set tier2_reasons"
begin

lemma eligible_routable:
  "p \<in> set (Eligible (EligibleCandidates ps excluded keyer checker)) \<Longrightarrow>
    p \<in> set ps \<and> RoutingEligible p \<and> \<not> Has (keyer p) excluded \<and> ProviderMatchesRequest checker p
    \<and> ProviderMeetsModelVersionFloor checker p \<and> ProviderContextSufficient checker p
    \<and> fst (Tier2Decision checker p) = None \<and> QuotaPermits checker p"
  by (auto simp: Eligible_spec drop_reason_def first_pass_def split: if_splits option.splits intro: matches_routable)

lemma first_pass_not_quota: "first_pass excluded keyer checker p \<noteq> Some ReasonQuotaBlocked"
  using tier2_reason [of p ReasonQuotaBlocked] by (auto simp: first_pass_def tier2_reasons_def)

lemma Counts_drop_reason:
  "Counts (EligibleCandidates ps excluded keyer checker) r =
    int (length (filter (\<lambda>p. drop_reason excluded keyer checker p = Some r) ps))"
proof (cases "r = ReasonQuotaBlocked")
  case True
  have "drop_reason excluded keyer checker p = Some r \<longleftrightarrow>
      first_pass excluded keyer checker p = None \<and> \<not> QuotaPermits checker p" for p
    using True first_pass_not_quota by (auto simp: drop_reason_def split: option.split)
  then show ?thesis using True by (simp add: Eligible_spec first_pass_not_quota)
next
  case False
  have "drop_reason excluded keyer checker p = Some r \<longleftrightarrow> first_pass excluded keyer checker p = Some r" for p
    using False by (auto simp: drop_reason_def split: option.split)
  then show ?thesis using False by (simp add: Eligible_spec)
qed

lemma accounted:
  "int (length ps) = int (length (Eligible (EligibleCandidates ps excluded keyer checker)))
    + sum_list (map (Counts (EligibleCandidates ps excluded keyer checker)) all_reasons)"
proof -
  have "int (length ps) = int (length (filter (\<lambda>p. f p = None) ps))
      + sum_list (map (\<lambda>r. int (length (filter (\<lambda>p. f p = Some r) ps))) all_reasons)" for f :: "Provider \<Rightarrow> RejectionReason option"
  proof (induction ps)
    case (Cons p ps)
    show ?case
    proof (cases "f p")
      case (Some r)
      then show ?thesis using Cons by (cases r) (simp_all add: all_reasons_def)
    qed (use Cons in \<open>simp add: all_reasons_def\<close>)
  qed (simp add: all_reasons_def)
  from this [of "drop_reason excluded keyer checker"] show ?thesis
    by (simp add: Counts_drop_reason [abs_def]) (simp add: Eligible_spec)
qed

text \<open>The test the server uses for its 429 answer.\<close>

lemma quota_exhausted_iff:
  "PreQuotaCount (EligibleCandidates ps excluded keyer checker) > 0
     \<and> Counts (EligibleCandidates ps excluded keyer checker) ReasonQuotaBlocked = PreQuotaCount (EligibleCandidates ps excluded keyer checker)
   \<longleftrightarrow> (\<exists>p\<in>set ps. first_pass excluded keyer checker p = None)
     \<and> Eligible (EligibleCandidates ps excluded keyer checker) = []"
proof -
  let ?A = "filter (\<lambda>p. first_pass excluded keyer checker p = None) ps"
  have "filter (\<lambda>p. first_pass excluded keyer checker p = None \<and> \<not> QuotaPermits checker p) ps = filter (\<lambda>p. \<not> QuotaPermits checker p) ?A"
    by (simp add: conj_commute)
  moreover have "filter (\<lambda>p. drop_reason excluded keyer checker p = None) ps = filter (QuotaPermits checker) ?A"
    by (auto simp: drop_reason_def intro!: filter_cong split: option.split)
  moreover have "length (filter (\<lambda>p. \<not> QuotaPermits checker p) ?A) = length ?A \<longleftrightarrow> filter (QuotaPermits checker) ?A = []"
    using sum_length_filter_compl [of "QuotaPermits checker" ?A] by (simp flip: length_0_conv del: filter_filter) linarith
  moreover have "?A \<noteq> [] \<longleftrightarrow> (\<exists>p\<in>set ps. first_pass excluded keyer checker p = None)" by (auto simp: filter_empty_conv)
  ultimately show ?thesis by (simp add: Eligible_spec first_pass_not_quota del: filter_filter)
qed

end

end
