(* ===== verification/Stable_Sort.thy ===== *)
theory Stable_Sort
  imports Main "HOL-Library.Multiset"
begin

text \<open>
  \<open>sort.SliceStable\<close> with a \<open>less\<close> function. The definition is the insertion sort that the library
  runs on a block: each element moves left over the elements it is less than. When \<open>less\<close> (here \<open>lt\<close>) is a strict
  weak order on the elements (the documented requirement, locale \<open>weak_order\<close>), the sorted and stable
  rearrangement is unique, so the definition agrees with the library for every length.
\<close>

text \<open>The sorted prefix is kept in reverse, its last element first.\<close>

fun ins_back :: "('a \<Rightarrow> 'a \<Rightarrow> bool) \<Rightarrow> 'a \<Rightarrow> 'a list \<Rightarrow> 'a list" where
  "ins_back lt x [] = [x]"
| "ins_back lt x (y # ys) = (if lt x y then y # ins_back lt x ys else x # y # ys)"

definition SliceStable :: "('a \<Rightarrow> 'a \<Rightarrow> bool) \<Rightarrow> 'a list \<Rightarrow> 'a list" where
  "SliceStable lt xs = rev (fold (ins_back lt) xs [])"

lemma mset_ins_back [simp]: "mset (ins_back lt x ys) = add_mset x (mset ys)"
  by (induction ys) auto

lemma mset_fold_ins: "mset (fold (ins_back lt) xs ys) = mset xs + mset ys"
  by (induction xs arbitrary: ys) auto

lemma mset_SliceStable [simp]: "mset (SliceStable lt xs) = mset xs"
  by (simp add: SliceStable_def mset_fold_ins)

lemma set_SliceStable [simp]: "set (SliceStable lt xs) = set xs"
  by (metis mset_SliceStable set_mset_mset)

lemma length_SliceStable [simp]: "length (SliceStable lt xs) = length xs"
  by (metis mset_SliceStable size_mset)

locale weak_order =
  fixes lt :: "'a \<Rightarrow> 'a \<Rightarrow> bool" and ok :: "'a \<Rightarrow> bool"
  assumes irrefl: "ok x \<Longrightarrow> \<not> lt x x"
    and not_less_trans: "ok x \<Longrightarrow> ok y \<Longrightarrow> ok z \<Longrightarrow> \<not> lt x y \<Longrightarrow> \<not> lt y z \<Longrightarrow> \<not> lt x z"
    and asym: "ok x \<Longrightarrow> ok y \<Longrightarrow> lt x y \<Longrightarrow> \<not> lt y x"
begin

definition eqv :: "'a \<Rightarrow> 'a \<Rightarrow> bool" where
  "eqv x y \<longleftrightarrow> \<not> lt x y \<and> \<not> lt y x"

definition in_order :: "'a list \<Rightarrow> bool" where
  "in_order xs \<longleftrightarrow> sorted_wrt (\<lambda>a b. \<not> lt b a) xs"

lemma set_ins_back: "set (ins_back lt x ys) = insert x (set ys)"
  by (induction ys) auto

lemma ins_back_order:
  assumes "ok x" "\<forall>y\<in>set ys. ok y" "sorted_wrt (\<lambda>a b. \<not> lt a b) ys"
  shows "sorted_wrt (\<lambda>a b. \<not> lt a b) (ins_back lt x ys)"
  using assms
proof (induction ys)
  case (Cons y ys)
  show ?case
  proof (cases "lt x y")
    case True
    then have "\<not> lt y x" using asym Cons.prems by auto
    then show ?thesis using Cons True by (auto simp: set_ins_back)
  next
    case False
    then have "\<not> lt x z" if "z \<in> set ys" for z
      using not_less_trans [of x y z] Cons.prems that by auto
    then show ?thesis using False Cons.prems by auto
  qed
qed simp

lemma fold_ins_order:
  assumes "\<forall>x\<in>set xs. ok x" "\<forall>y\<in>set ys. ok y" "sorted_wrt (\<lambda>a b. \<not> lt a b) ys"
  shows "sorted_wrt (\<lambda>a b. \<not> lt a b) (fold (ins_back lt) xs ys)"
  using assms by (induction xs arbitrary: ys) (auto simp: set_ins_back ins_back_order)

lemma sort_in_order: "\<forall>x\<in>set xs. ok x \<Longrightarrow> in_order (SliceStable lt xs)"
  using fold_ins_order [of xs "[]"] by (simp add: in_order_def SliceStable_def sorted_wrt_rev)

lemma eqv_trans: "ok x \<Longrightarrow> ok y \<Longrightarrow> ok z \<Longrightarrow> eqv x y \<Longrightarrow> eqv y z \<Longrightarrow> eqv x z"
  unfolding eqv_def using not_less_trans by blast

lemma ins_back_stable:
  assumes "ok x" "ok z" "\<forall>y\<in>set ys. ok y"
  shows "filter (eqv z) (ins_back lt x ys) = (if eqv z x then x # filter (eqv z) ys else filter (eqv z) ys)"
  using assms(3)
proof (induction ys)
  case (Cons y ys)
  have "\<not> eqv z y" if "lt x y" "eqv z x"
  proof
    assume "eqv z y"
    then have "eqv x y" using that eqv_trans [of x z y] assms Cons.prems by (auto simp: eqv_def)
    then show False using that by (simp add: eqv_def)
  qed
  then show ?case using Cons by auto
qed simp

lemma fold_ins_stable:
  assumes "ok z" "\<forall>x\<in>set xs. ok x" "\<forall>y\<in>set ys. ok y"
  shows "filter (eqv z) (fold (ins_back lt) xs ys) = rev (filter (eqv z) xs) @ filter (eqv z) ys"
  using assms(2,3) by (induction xs arbitrary: ys) (auto simp: set_ins_back ins_back_stable assms(1))

lemma sort_stable: "ok z \<Longrightarrow> \<forall>x\<in>set xs. ok x \<Longrightarrow> filter (eqv z) (SliceStable lt xs) = filter (eqv z) xs"
  by (simp add: SliceStable_def fold_ins_stable flip: rev_filter)

text \<open>Any two lists in order with the same equivalence classes, each in the same sequence, are equal.\<close>

lemma in_order_unique:
  assumes "\<forall>x\<in>set xs. ok x" "\<forall>y\<in>set ys. ok y" "in_order xs" "in_order ys"
    and "\<And>z. ok z \<Longrightarrow> filter (eqv z) xs = filter (eqv z) ys"
  shows "xs = ys"
  using assms
proof (induction xs arbitrary: ys)
  case Nil
  show ?case
  proof (cases ys)
    case (Cons y ys')
    then have "y \<in> set (filter (eqv y) ys)" using Nil.prems(2) irrefl by (auto simp: eqv_def)
    then show ?thesis using Nil.prems(2,5) Cons by (metis empty_iff filter.simps(1) list.set(1) list.set_intros(1))
  qed simp
next
  case (Cons x xs)
  have okx: "ok x" using Cons.prems(1) by simp
  have exx: "eqv x x" using irrefl [OF okx] by (simp add: eqv_def)
  have fx: "filter (eqv x) ys = x # filter (eqv x) xs" using Cons.prems(5) [OF okx] exx by simp
  then obtain y ys' where ys: "ys = y # ys'" by (cases ys) auto
  have oky: "ok y" using Cons.prems(2) ys by simp
  have eyy: "eqv y y" using irrefl [OF oky] by (simp add: eqv_def)
  have "eqv x y"
  proof (rule ccontr)
    assume n: "\<not> eqv x y"
    have "x \<in> set (filter (eqv x) ys)" using fx by simp
    then have "x \<in> set ys'" using n ys exx by auto
    then have xy: "\<not> lt x y" using Cons.prems(4) ys by (auto simp: in_order_def)
    have "y \<in> set (filter (eqv y) (x # xs))" using Cons.prems(5) [OF oky] ys eyy by simp
    then have "y \<in> set xs" using n by (auto simp: eqv_def)
    then have "\<not> lt y x" using Cons.prems(3) by (auto simp: in_order_def)
    then show False using n xy by (simp add: eqv_def)
  qed
  then have xy: "x = y" using fx ys by simp
  have "xs = ys'"
  proof (rule Cons.IH)
    show "filter (eqv z) xs = filter (eqv z) ys'" if "ok z" for z
      using Cons.prems(5) [OF that] ys xy by (simp split: if_splits)
  qed (use Cons.prems ys in \<open>auto simp: in_order_def\<close>)
  then show ?case using ys xy by simp
qed

text \<open>Every stable sorting algorithm returns the list \<open>SliceStable\<close> returns.\<close>

lemma sort_unique:
  assumes "\<forall>x\<in>set xs. ok x" "set ys = set xs" "in_order ys" "\<And>z. ok z \<Longrightarrow> filter (eqv z) ys = filter (eqv z) xs"
  shows "ys = SliceStable lt xs"
  by (rule in_order_unique) (use assms sort_in_order sort_stable in auto)

lemma sort_head_best:
  assumes "\<forall>x\<in>set xs. ok x" "SliceStable lt xs = y # ys" "x \<in> set xs"
  shows "\<not> lt x y"
proof -
  have "x = y \<or> x \<in> set ys" using assms(2,3) by (metis set_ConsD set_SliceStable)
  then show ?thesis using sort_in_order [OF assms(1)] assms irrefl
    by (metis in_order_def list.set_intros(1) set_SliceStable sorted_wrt.simps(2))
qed

end

end
