(* ===== verification/Routing_Objective.thy ===== *)
theory Routing_Objective
  imports Pool_Types Stable_Sort
begin

text \<open>
  Ranking of the candidates in \<open>internal/routing\<close>: effective throughput (\<open>candidate.go\<close>), the balanced
  score (\<open>class.go\<close>), the four objectives (\<open>objective.go\<close>) and the epsilon cohort (\<open>epsilon.go\<close>). The
  comparators are strict weak orders as long as no metric is NaN, which is the interface \<open>weak_order\<close>
  that the library sort relies on.
\<close>

section \<open>Scores\<close>

record Weights =
  wt_Pinned :: f64
  wt_Provisional :: f64

definition DefaultWeights :: Weights where
  "DefaultWeights = \<lparr>wt_Pinned = Fin 1, wt_Provisional = rnd (3/10)\<rparr>"

definition EffectiveThroughput :: "Weights \<Rightarrow> Provider \<Rightarrow> f64" where
  "EffectiveThroughput w p =
    (let weight = (if p_Tier p = TierProvisional then wt_Provisional w else wt_Pinned w)
     in fmul (ThroughputTPSEstimate (p_Capacity p)) weight)"

fun min_max :: "f64 list \<Rightarrow> f64 \<times> f64 \<Rightarrow> f64 \<times> f64" where
  "min_max [] (minV, maxV) = (minV, maxV)"
| "min_max (v # vs) (minV, maxV) = min_max vs (if flt v minV then v else minV, if flt maxV v then v else maxV)"

definition minMaxNorm :: "f64 list \<Rightarrow> nat \<Rightarrow> f64" where
  "minMaxNorm values idx = (case values of [] \<Rightarrow> Fin 1
     | v # vs \<Rightarrow> (case min_max vs (v, v) of (minV, maxV) \<Rightarrow>
         if feq maxV minV then Fin 1 else fdiv (fsub (values ! idx) minV) (fsub maxV minV)))"

text \<open>\<open>float64(n)\<close> rounds.\<close>

definition f64_of_int :: "int \<Rightarrow> f64" where
  "f64_of_int n = rnd (of_int n)"

text \<open>The products and sums are evaluated from left to right, each rounded.\<close>

definition BalancedScores :: "Provider list \<Rightarrow> f64 list" where
  "BalancedScores cs =
    (let tps = map (\<lambda>p. ThroughputTPSEstimate (p_Capacity p)) cs;
         params = map (\<lambda>p. ModelParamsB (p_Capacity p)) cs;
         ctx = map (\<lambda>p. f64_of_int (MaxContextTokens (p_Capacity p))) cs;
         slots = map (\<lambda>p. if SlotsTotal (p_Capacity p) > 0
           then fdiv (f64_of_int (SlotsFree (p_Capacity p))) (f64_of_int (SlotsTotal (p_Capacity p))) else Fin 0) cs
     in map (\<lambda>i. fadd (fadd (fadd (fmul (rnd (4/10)) (minMaxNorm tps i)) (fmul (rnd (3/10)) (minMaxNorm params i)))
             (fmul (rnd (2/10)) (minMaxNorm ctx i))) (fmul (rnd (1/10)) (minMaxNorm slots i))) [0..<length cs])"

text \<open>A score map; reading a missing key gives 0.\<close>

type_synonym scores = "(string \<times> f64) list"

definition score :: "scores \<Rightarrow> Provider \<Rightarrow> f64" where
  "score sc p = (case map_of sc (SortKey p) of Some v \<Rightarrow> v | None \<Rightarrow> Fin 0)"

definition KeyedBalancedScores :: "Provider list \<Rightarrow> scores" where
  "KeyedBalancedScores cs = fold (\<lambda>(p, v) out. AList.update (SortKey p) v out) (zip cs (BalancedScores cs)) []"


section \<open>Objectives\<close>

type_synonym Objective = string

definition ObjectiveDefault :: Objective where "ObjectiveDefault = ''default''"
definition ObjectiveFast :: Objective where "ObjectiveFast = ''fast''"
definition ObjectiveAccurate :: Objective where "ObjectiveAccurate = ''accurate''"
definition ObjectiveBalanced :: Objective where "ObjectiveBalanced = ''balanced''"

abbreviation slots_free :: "Provider \<Rightarrow> int" where "slots_free p \<equiv> SlotsFree (p_Capacity p)"
abbreviation params_b :: "Provider \<Rightarrow> f64" where "params_b p \<equiv> ModelParamsB (p_Capacity p)"

definition fast_less :: "Weights \<Rightarrow> Provider \<Rightarrow> Provider \<Rightarrow> bool" where
  "fast_less w p q =
    (let ti = EffectiveThroughput w p; tj = EffectiveThroughput w q in
     if feq ti tj then slots_free p < slots_free q else flt tj ti)"

definition accurate_less :: "Weights \<Rightarrow> Provider \<Rightarrow> Provider \<Rightarrow> bool" where
  "accurate_less w p q =
    (if feq (params_b p) (params_b q)
     then let ti = EffectiveThroughput w p; tj = EffectiveThroughput w q in
       if \<not> feq ti tj then flt tj ti else slots_free p < slots_free q
     else flt (params_b q) (params_b p))"

definition balanced_less :: "scores \<Rightarrow> Provider \<Rightarrow> Provider \<Rightarrow> bool" where
  "balanced_less sc p q =
    (if feq (score sc p) (score sc q) then slots_free p < slots_free q else flt (score sc q) (score sc p))"

definition default_less :: "Weights \<Rightarrow> Provider \<Rightarrow> Provider \<Rightarrow> bool" where
  "default_less w p q =
    (if slots_free p = slots_free q then flt (EffectiveThroughput w q) (EffectiveThroughput w p)
     else slots_free p < slots_free q)"

definition SortCandidatesWithScores ::
  "Provider list \<Rightarrow> Objective \<Rightarrow> Weights \<Rightarrow> scores option \<Rightarrow> Provider list \<times> scores option" where
  "SortCandidatesWithScores cs objective w cache =
    (if objective = ObjectiveFast then (SliceStable (fast_less w) cs, None)
     else if objective = ObjectiveAccurate then (SliceStable (accurate_less w) cs, None)
     else if objective = ObjectiveBalanced
     then let sc = (case cache of None \<Rightarrow> KeyedBalancedScores cs | Some sc \<Rightarrow> sc)
          in (SliceStable (balanced_less sc) cs, Some sc)
     else (SliceStable (default_less w) cs, None))"

definition SortCandidates :: "Provider list \<Rightarrow> Objective \<Rightarrow> Weights \<Rightarrow> Provider list" where
  "SortCandidates cs objective w = fst (SortCandidatesWithScores cs objective w None)"

definition ObjectiveScoresWithCache :: "Provider list \<Rightarrow> Objective \<Rightarrow> Weights \<Rightarrow> scores option \<Rightarrow> scores" where
  "ObjectiveScoresWithCache cs objective w cache =
    (if objective = ObjectiveBalanced then (case cache of Some sc \<Rightarrow> sc | None \<Rightarrow> KeyedBalancedScores cs)
     else fold (\<lambda>p out. AList.update (SortKey p)
            (if objective = ObjectiveFast then EffectiveThroughput w p
             else if objective = ObjectiveAccurate then params_b p else EffectiveThroughput w p) out) cs [])"

definition ObjectiveScores :: "Provider list \<Rightarrow> Objective \<Rightarrow> Weights \<Rightarrow> scores" where
  "ObjectiveScores cs objective w = ObjectiveScoresWithCache cs objective w None"


section \<open>Epsilon cohort\<close>

fun fabs :: "f64 \<Rightarrow> f64" where
  "fabs NaN = NaN" | "fabs PInf = PInf" | "fabs NInf = PInf" | "fabs (Fin x) = Fin \<bar>x\<bar>"

definition WithinRelativeEpsilon :: "f64 \<Rightarrow> f64 \<Rightarrow> f64 \<Rightarrow> bool" where
  "WithinRelativeEpsilon tp candidate epsilon =
    (if IsNaN tp \<or> IsNaN candidate \<or> IsNaN epsilon \<or> IsInf tp \<or> IsInf candidate \<or> IsInf epsilon then False
     else if feq tp candidate then True
     else if fle epsilon (Fin 0) then False
     else let denom = fabs tp in
       if feq denom (Fin 0) then fle (fabs candidate) epsilon
       else fle (fabs (fsub tp candidate)) (fmul denom epsilon))"

definition InEpsilonCohort ::
  "Provider \<Rightarrow> Provider \<Rightarrow> Objective \<Rightarrow> f64 \<Rightarrow> Weights \<Rightarrow> (Provider \<Rightarrow> f64) option \<Rightarrow> bool" where
  "InEpsilonCohort tp candidate objective epsilon w balancedScore =
    (if objective = ObjectiveAccurate then WithinRelativeEpsilon (params_b tp) (params_b candidate) epsilon
     else if objective = ObjectiveBalanced
     then (case balancedScore of None \<Rightarrow> False | Some f \<Rightarrow> WithinRelativeEpsilon (f tp) (f candidate) epsilon)
     else if objective = ObjectiveFast
     then WithinRelativeEpsilon (EffectiveThroughput w tp) (EffectiveThroughput w candidate) epsilon
     else if slots_free tp \<noteq> slots_free candidate then False
     else WithinRelativeEpsilon (EffectiveThroughput w tp) (EffectiveThroughput w candidate) epsilon)"



section \<open>The comparators are strict weak orders\<close>

definition candidate_less :: "Objective \<Rightarrow> Weights \<Rightarrow> scores \<Rightarrow> Provider \<Rightarrow> Provider \<Rightarrow> bool" where
  "candidate_less objective w sc =
    (if objective = ObjectiveFast then fast_less w else if objective = ObjectiveAccurate then accurate_less w
     else if objective = ObjectiveBalanced then balanced_less sc else default_less w)"

definition metrics_ok :: "Objective \<Rightarrow> Weights \<Rightarrow> scores \<Rightarrow> Provider \<Rightarrow> bool" where
  "metrics_ok objective w sc p \<longleftrightarrow>
    (if objective = ObjectiveAccurate then \<not> IsNaN (params_b p) \<and> \<not> IsNaN (EffectiveThroughput w p)
     else if objective = ObjectiveBalanced then \<not> IsNaN (score sc p) else \<not> IsNaN (EffectiveThroughput w p))"

text \<open>Two shapes cover the four comparators: a metric in descending order before an integer in ascending
  order, and the other way round.\<close>

definition down_up :: "('a \<Rightarrow> f64) \<Rightarrow> ('a \<Rightarrow> 'a \<Rightarrow> bool) \<Rightarrow> 'a \<Rightarrow> 'a \<Rightarrow> bool" where
  "down_up f lt p q = (if feq (f p) (f q) then lt p q else flt (f q) (f p))"

lemma down_up_weak:
  assumes "weak_order lt ok"
  shows "weak_order (down_up f lt) (\<lambda>p. ok p \<and> f p \<noteq> NaN)"
proof -
  note wo = weak_order.irrefl [OF assms] weak_order.not_less_trans [OF assms] weak_order.asym [OF assms]
  show ?thesis
  proof
    show "\<not> down_up f lt x x" if "ok x \<and> f x \<noteq> NaN" for x using that wo(1) by (simp add: down_up_def feq_def)
    show "\<not> down_up f lt y x" if "ok x \<and> f x \<noteq> NaN" "ok y \<and> f y \<noteq> NaN" "down_up f lt x y" for x y
      using that wo(3) [of x y] flt_asym [of "f y" "f x"] by (auto simp: down_up_def feq_def split: if_splits)
    show "\<not> down_up f lt x z" if "ok x \<and> f x \<noteq> NaN" "ok y \<and> f y \<noteq> NaN" "ok z \<and> f z \<noteq> NaN"
      "\<not> down_up f lt x y" "\<not> down_up f lt y z" for x y z
    proof (cases "f x = f y \<and> f y = f z")
      case True
      then show ?thesis using that wo(2) [of x y z] by (simp add: down_up_def feq_def)
    next
      case False
      have "\<not> flt (f y) (f x)" "\<not> flt (f z) (f y)" using that by (auto simp: down_up_def feq_def split: if_splits)
      then have "flt (f x) (f y) \<or> f x = f y" "flt (f y) (f z) \<or> f y = f z"
        using that(1-3) flt_linear [of "f x" "f y"] flt_linear [of "f y" "f z"] by auto
      then have "flt (f x) (f z)" using False flt_trans [of "f x" "f y" "f z"] by auto
      then show ?thesis using flt_asym [of "f x" "f z"] by (auto simp: down_up_def feq_def)
    qed
  qed
qed

lemma slots_weak: "weak_order (\<lambda>p q. slots_free p < slots_free q) (\<lambda>_. True)"
  by unfold_locales auto

lemma default_weak: "weak_order (default_less w) (\<lambda>p. \<not> IsNaN (EffectiveThroughput w p))"
  by unfold_locales (auto simp: default_less_def IsNaN_def dest: flt_asym not_flt_trans split: if_splits)

lemma fast_weak: "weak_order (fast_less w) (\<lambda>p. \<not> IsNaN (EffectiveThroughput w p))"
  using down_up_weak [OF slots_weak, of "EffectiveThroughput w"]
  by (simp add: down_up_def [abs_def] fast_less_def [abs_def] IsNaN_def Let_def)

lemma balanced_weak: "weak_order (balanced_less sc) (\<lambda>p. \<not> IsNaN (score sc p))"
  using down_up_weak [OF slots_weak, of "score sc"]
  by (simp add: down_up_def [abs_def] balanced_less_def [abs_def] IsNaN_def)

lemma accurate_weak: "weak_order (accurate_less w) (\<lambda>p. \<not> IsNaN (params_b p) \<and> \<not> IsNaN (EffectiveThroughput w p))"
proof -
  have "accurate_less w = down_up params_b (fast_less w)"
    by (auto simp: fun_eq_iff accurate_less_def down_up_def fast_less_def Let_def)
  then show ?thesis using down_up_weak [OF fast_weak [of w], of params_b] by (simp add: IsNaN_def conj_commute)
qed

interpretation candidates: weak_order "candidate_less objective w sc" "metrics_ok objective w sc" for objective w sc
proof -
  have "ObjectiveFast \<noteq> ObjectiveAccurate" "ObjectiveFast \<noteq> ObjectiveBalanced" "ObjectiveAccurate \<noteq> ObjectiveBalanced"
    by (simp_all add: ObjectiveFast_def ObjectiveAccurate_def ObjectiveBalanced_def)
  then show "weak_order (candidate_less objective w sc) (metrics_ok objective w sc)"
    using fast_weak [of w] accurate_weak [of w] balanced_weak [of sc] default_weak [of w]
    by (auto simp: candidate_less_def metrics_ok_def [abs_def])
qed

definition request_scores :: "Provider list \<Rightarrow> scores option \<Rightarrow> scores" where
  "request_scores cs cache = (case cache of None \<Rightarrow> KeyedBalancedScores cs | Some sc \<Rightarrow> sc)"

lemma SortCandidates_eq:
  "fst (SortCandidatesWithScores cs objective w cache) = SliceStable (candidate_less objective w (request_scores cs cache)) cs"
  by (simp add: SortCandidatesWithScores_def candidate_less_def request_scores_def Let_def)

lemma SortCandidates_mset: "mset (fst (SortCandidatesWithScores cs objective w cache)) = mset cs"
  by (simp add: SortCandidates_eq)


section \<open>Properties\<close>



definition demo_cand :: "string \<Rightarrow> int \<Rightarrow> int \<Rightarrow> Provider" where
  "demo_cand k params free = zeroProvider\<lparr>ProviderID := k, AssignedID := ''s'', p_Tier := TierPinned, p_State := StateReady,
     p_Capacity := (p_Capacity zeroProvider)\<lparr>ModelParamsB := Fin (of_int params), SlotsFree := free, SlotsTotal := 4,
       MaxContextTokens := 8192\<rparr>\<rparr>"

definition demo_cands :: "Provider list" where
  "demo_cands = [demo_cand ''a'' 7 2, demo_cand ''b'' 32 3, demo_cand ''c'' 32 1, demo_cand ''d'' 7 2]"

definition demo_weights :: Weights where
  "demo_weights = \<lparr>wt_Pinned = Fin 1, wt_Provisional = Fin 1\<rparr>"


definition finite64 :: "f64 \<Rightarrow> bool" where
  "finite64 x \<longleftrightarrow> \<not> IsNaN x \<and> \<not> IsInf x"

definition cohort_metric :: "Objective \<Rightarrow> Weights \<Rightarrow> (Provider \<Rightarrow> f64) \<Rightarrow> Provider \<Rightarrow> f64" where
  "cohort_metric objective w f p =
    (if objective = ObjectiveAccurate then params_b p else if objective = ObjectiveBalanced then f p else EffectiveThroughput w p)"

lemma InEpsilonCohort_metric:
  "InEpsilonCohort tp c objective epsilon w (Some f) \<longleftrightarrow>
    WithinRelativeEpsilon (cohort_metric objective w f tp) (cohort_metric objective w f c) epsilon
    \<and> (objective \<notin> {ObjectiveAccurate, ObjectiveBalanced, ObjectiveFast} \<longrightarrow> slots_free tp = slots_free c)"
  by (auto simp: InEpsilonCohort_def cohort_metric_def ObjectiveFast_def ObjectiveAccurate_def ObjectiveBalanced_def)

text \<open>C22. The cohort test fails closed: a provider enters the tie-break cohort of the leader only when
  both metrics and epsilon are finite, with an epsilon of at most zero only on equal metrics, and under
  the utilization objective only with the same number of free slots. The leader itself is always in its
  cohort when its metric is finite.\<close>

theorem epsilon_cohort_fails_closed:
  shows "(InEpsilonCohort tp c objective epsilon w (Some f) \<longrightarrow>
      finite64 epsilon \<and> finite64 (cohort_metric objective w f tp) \<and> finite64 (cohort_metric objective w f c)
      \<and> (fle epsilon (Fin 0) \<longrightarrow> cohort_metric objective w f tp = cohort_metric objective w f c)
      \<and> (objective = ObjectiveDefault \<longrightarrow> slots_free tp = slots_free c))
    \<and> (finite64 epsilon \<longrightarrow> finite64 (cohort_metric objective w f tp) \<longrightarrow>
        InEpsilonCohort tp tp objective epsilon w (Some f))"
  unfolding InEpsilonCohort_metric
  by (auto simp: WithinRelativeEpsilon_def finite64_def feq_def IsNaN_def ObjectiveDefault_def ObjectiveFast_def
      ObjectiveAccurate_def ObjectiveBalanced_def split: if_splits)

theorem epsilon_cohort_fails_closed_witness:
  "InEpsilonCohort (demo_cand ''c'' 20 3) (demo_cand ''d'' 19 3) ObjectiveDefault (Fin (1/16)) demo_weights (Some (\<lambda>_. Fin 0))
   \<and> slots_free (demo_cand ''c'' 20 3) = slots_free (demo_cand ''d'' 19 3)"
proof -
  let ?p = "demo_cand ''c'' 20 3" and ?q = "demo_cand ''d'' 19 3"
  have "InEpsilonCohort ?p ?q ObjectiveDefault (Fin (1/16)) demo_weights (Some (\<lambda>_. Fin 0))" by code_simp
  then show ?thesis using epsilon_cohort_fails_closed [of ?p ?q ObjectiveDefault "Fin (1/16)" demo_weights "\<lambda>_. Fin 0"] by blast
qed

end
