(* ===== verification/Slot_Queue.thy ===== *)
theory Slot_Queue
  imports Go_Prelude
begin

text \<open>
  The slot queue of \<open>internal/buyer/slot_queue.go\<close>: requests that found every slot of a provider taken
  wait in a bounded queue per provider, and the first of the queue reserves the next free slot. A
  \<open>*slotWaiter\<close> is compared by pointer, so a waiter carries the address it was allocated at; \<open>alloc\<close> is
  the next free address.
\<close>

section \<open>Model\<close>

record slotWaiter =
  w_addr :: nat
  w_providerID :: string

record slotQueue =
  maxPending :: int
  queues :: "(string \<times> slotWaiter list) list"
  reserved :: "(string \<times> int) list"
  alloc :: nat

definition newSlotQueue :: "int \<Rightarrow> slotQueue" where
  "newSlotQueue n = \<lparr>maxPending = (if n \<le> 0 then 1 else n), queues = [], reserved = [], alloc = 0\<rparr>"

definition queue_of :: "slotQueue \<Rightarrow> string \<Rightarrow> slotWaiter list" where
  "queue_of q k = (case map_of (queues q) k of Some ws \<Rightarrow> ws | None \<Rightarrow> [])"

definition reserved_of :: "slotQueue \<Rightarrow> string \<Rightarrow> int" where
  "reserved_of q k = (case map_of (reserved q) k of Some n \<Rightarrow> n | None \<Rightarrow> 0)"

definition push_waiter :: "string \<Rightarrow> slotQueue \<Rightarrow> slotQueue \<times> slotWaiter" where
  "push_waiter k q = (let w = \<lparr>w_addr = alloc q, w_providerID = k\<rparr>
     in (q\<lparr>queues := AList.update k (queue_of q k @ [w]) (queues q), alloc := alloc q + 1\<rparr>, w))"

definition enter :: "string \<Rightarrow> slotQueue \<Rightarrow> slotQueue \<times> slotWaiter option" where
  "enter k q = (if int (length (queue_of q k)) \<ge> maxPending q then (q, None)
     else case push_waiter k q of (q', w) \<Rightarrow> (q', Some w))"

fun best_scan :: "slotQueue \<Rightarrow> string set \<Rightarrow> string list \<Rightarrow> string \<times> int \<Rightarrow> string" where
  "best_scan q tried [] (best, bestLen) = best"
| "best_scan q tried (k # ks) (best, bestLen) =
     (let n = int (length (queue_of q k)) in
      if k \<in> tried then best_scan q tried ks (best, bestLen)
      else if n \<ge> maxPending q then best_scan q tried ks (best, bestLen)
      else if best = [] \<or> n < bestLen then best_scan q tried ks (k, n)
      else best_scan q tried ks (best, bestLen))"

definition enterBest :: "string list \<Rightarrow> string set \<Rightarrow> slotQueue \<Rightarrow> slotQueue \<times> slotWaiter option" where
  "enterBest candidates tried q =
    (let best = best_scan q tried candidates ([], 0) in
     if best = [] then (q, None)
     else case push_waiter best q of (q', w) \<Rightarrow> (q', Some w))"

definition leave :: "slotWaiter option \<Rightarrow> slotQueue \<Rightarrow> slotQueue" where
  "leave waiter q = (case waiter of None \<Rightarrow> q | Some w \<Rightarrow>
     let k = w_providerID w; ws = queue_of q k in
     if w \<in> set ws
     then let ws' = remove1 w ws in
       if ws' = [] then q\<lparr>queues := AList.delete k (queues q)\<rparr>
       else q\<lparr>queues := AList.update k ws' (queues q)\<rparr>
     else q)"

definition head :: "slotWaiter option \<Rightarrow> slotQueue \<Rightarrow> bool" where
  "head waiter q \<longleftrightarrow> (case waiter of None \<Rightarrow> False | Some w \<Rightarrow>
     (case queue_of q (w_providerID w) of [] \<Rightarrow> False | x # _ \<Rightarrow> x = w))"

definition blocksProvider :: "string \<Rightarrow> int \<Rightarrow> slotQueue \<Rightarrow> bool" where
  "blocksProvider k slotsFree q \<longleftrightarrow> int (length (queue_of q k)) + reserved_of q k \<ge> slotsFree"

definition reserveHead :: "slotWaiter option \<Rightarrow> int \<Rightarrow> slotQueue \<Rightarrow> slotQueue \<times> bool" where
  "reserveHead waiter slotsFree q = (case waiter of None \<Rightarrow> (q, False) | Some w \<Rightarrow>
     let k = w_providerID w in
     if \<not> head (Some w) q then (q, False)
     else if slotsFree - reserved_of q k \<le> 0 then (q, False)
     else (q\<lparr>reserved := AList.update k (reserved_of q k + 1) (reserved q)\<rparr>, True))"

definition releaseReservation :: "string \<Rightarrow> slotQueue \<Rightarrow> slotQueue" where
  "releaseReservation k q = (if k = [] then q
     else if reserved_of q k \<le> 1 then q\<lparr>reserved := AList.delete k (reserved q)\<rparr>
     else q\<lparr>reserved := AList.update k (reserved_of q k - 1) (reserved q)\<rparr>)"


section \<open>Invariant\<close>

text \<open>Every queue is bounded, holds waiters of its own provider in the order of arrival, and no recorded
  reservation is empty.\<close>

definition slot_inv :: "slotQueue \<Rightarrow> bool" where
  "slot_inv q \<longleftrightarrow> 1 \<le> maxPending q
     \<and> (\<forall>k. int (length (queue_of q k)) \<le> maxPending q \<and> sorted_wrt (<) (map w_addr (queue_of q k))
          \<and> (\<forall>w\<in>set (queue_of q k). w_providerID w = k \<and> w_addr w < alloc q) \<and> 0 \<le> reserved_of q k)
     \<and> (\<forall>k n. map_of (reserved q) k = Some n \<longrightarrow> 1 \<le> n)"

lemma queue_of_update [simp]:
  "queue_of (q\<lparr>queues := AList.update k ws (queues q)\<rparr>) j = (if j = k then ws else queue_of q j)"
  "queue_of (q\<lparr>queues := AList.delete k (queues q)\<rparr>) j = (if j = k then [] else queue_of q j)"
  "queue_of (q\<lparr>reserved := r\<rparr>) = queue_of q" "queue_of (q\<lparr>alloc := a\<rparr>) = queue_of q"
  by (simp_all add: queue_of_def fun_eq_iff)

lemma reserved_of_update [simp]:
  "reserved_of (q\<lparr>reserved := AList.update k n (reserved q)\<rparr>) j = (if j = k then n else reserved_of q j)"
  "reserved_of (q\<lparr>reserved := AList.delete k (reserved q)\<rparr>) j = (if j = k then 0 else reserved_of q j)"
  "reserved_of (q\<lparr>queues := r\<rparr>) = reserved_of q" "reserved_of (q\<lparr>alloc := a\<rparr>) = reserved_of q"
  by (simp_all add: reserved_of_def fun_eq_iff)

lemma push_waiter_inv:
  assumes "slot_inv q" "int (length (queue_of q k)) < maxPending q"
  shows "slot_inv (fst (push_waiter k q))"
  using assms by (fastforce simp: slot_inv_def push_waiter_def Let_def sorted_wrt_append intro: less_SucI)

definition open_for :: "slotQueue \<Rightarrow> string set \<Rightarrow> string \<Rightarrow> bool" where
  "open_for q tried k \<longleftrightarrow> k \<notin> tried \<and> int (length (queue_of q k)) < maxPending q"

text \<open>The scan returns a shortest queue among the open candidates, and the empty string when none is
  open.\<close>

lemma best_scan_spec:
  assumes "[] \<notin> set ks" "best \<noteq> [] \<longrightarrow> open_for q tried best \<and> bestLen = int (length (queue_of q best))"
  shows "let k = best_scan q tried ks (best, bestLen) in
      (k = [] \<longleftrightarrow> best = [] \<and> (\<forall>j\<in>set ks. \<not> open_for q tried j))
      \<and> (k \<noteq> [] \<longrightarrow> open_for q tried k \<and> (k = best \<or> k \<in> set ks)
           \<and> (best \<noteq> [] \<longrightarrow> length (queue_of q k) \<le> length (queue_of q best))
           \<and> (\<forall>j\<in>set ks. open_for q tried j \<longrightarrow> length (queue_of q k) \<le> length (queue_of q j)))"
  using assms
proof (induction ks arbitrary: best bestLen)
  case (Cons j ks)
  show ?case
  proof (cases "open_for q tried j \<and> (best = [] \<or> int (length (queue_of q j)) < bestLen)")
    case True
    then have "best_scan q tried (j # ks) (best, bestLen) = best_scan q tried ks (j, int (length (queue_of q j)))"
      by (auto simp: open_for_def Let_def)
    moreover have "j \<noteq> []" "[] \<notin> set ks" using Cons.prems(1) by auto
    ultimately show ?thesis using Cons.IH [of j "int (length (queue_of q j))"] True Cons.prems(2)
      by (auto simp: Let_def)
  next
    case False
    then have "best_scan q tried (j # ks) (best, bestLen) = best_scan q tried ks (best, bestLen)"
      by (auto simp: open_for_def Let_def)
    then show ?thesis using Cons.IH [of best bestLen] False Cons.prems by (fastforce simp: Let_def)
  qed
qed (auto simp: Let_def)

lemma leave_queue:
  assumes "slot_inv q"
  shows "queue_of (leave (Some w) q) k = remove1 w (queue_of q k)"
proof (cases "k = w_providerID w")
  case True
  then show ?thesis by (auto simp: leave_def Let_def remove1_idem)
next
  case False
  then have "w \<notin> set (queue_of q k)" using assms by (auto simp: slot_inv_def)
  then show ?thesis using False by (auto simp: leave_def Let_def remove1_idem)
qed


section \<open>The queue as a system\<close>

datatype slot_op =
    OpEnter string
  | OpEnterBest "string list" "string list"
  | OpLeave "slotWaiter option"
  | OpReserveHead "slotWaiter option" int
  | OpReleaseReservation string

fun exec_slot :: "slot_op \<Rightarrow> slotQueue \<Rightarrow> slotQueue" where
  "exec_slot (OpEnter k) q = fst (enter k q)"
| "exec_slot (OpEnterBest ks tried) q = fst (enterBest ks (set tried) q)"
| "exec_slot (OpLeave w) q = leave w q"
| "exec_slot (OpReserveHead w slots) q = fst (reserveHead w slots q)"
| "exec_slot (OpReleaseReservation k) q = releaseReservation k q"

text \<open>Candidates come from registered providers, whose ids are not empty.\<close>

fun legal_slot :: "slot_op \<Rightarrow> slotQueue \<Rightarrow> bool" where
  "legal_slot (OpEnterBest ks tried) q \<longleftrightarrow> [] \<notin> set ks"
| "legal_slot _ q \<longleftrightarrow> True"

lemma leave_simps [simp]: "maxPending (leave w q) = maxPending q" "alloc (leave w q) = alloc q" "reserved (leave w q) = reserved q"
  by (simp_all add: leave_def Let_def split: option.split)

lemma sorted_addr_remove1: "sorted_wrt (<) (map w_addr ws) \<Longrightarrow> sorted_wrt (<) (map w_addr (remove1 w ws))"
proof (induction ws)
  case (Cons x ws)
  then show ?case using set_remove1_subset [of w ws] by auto
qed simp

lemma leave_inv: "slot_inv q \<Longrightarrow> slot_inv (leave (Some w) q)"
  using sorted_addr_remove1 set_remove1_subset [of w]
  by (fastforce simp: slot_inv_def leave_queue length_remove1 reserved_of_def)

lemma slot_inv_step:
  assumes "slot_inv q" "legal_slot x q"
  shows "slot_inv (exec_slot x q)"
proof (cases x)
  case (OpEnter k)
  then show ?thesis using assms(1) push_waiter_inv [OF assms(1)]
    by (auto simp: enter_def case_prod_beta)
next
  case (OpEnterBest ks tried)
  then show ?thesis using assms push_waiter_inv [OF assms(1)] best_scan_spec [of ks "[]" q "set tried" 0]
    by (auto simp: enterBest_def case_prod_beta Let_def open_for_def)
next
  case (OpLeave w)
  then show ?thesis using assms(1) leave_inv by (cases w) (auto simp: leave_def)
next
  case (OpReserveHead w slots)
  then show ?thesis using assms(1) by (auto simp: reserveHead_def slot_inv_def Let_def split: option.split)
next
  case (OpReleaseReservation k)
  then show ?thesis using assms(1) by (auto simp: releaseReservation_def slot_inv_def)
qed

interpretation slots: op_system exec_slot legal_slot slot_inv
  by unfold_locales (rule slot_inv_step)

lemma slot_run_inv: "legal_run exec_slot legal_slot ops (newSlotQueue n) \<Longrightarrow> slot_inv (fold exec_slot ops (newSlotQueue n))"
  by (rule slots.run_inv) (simp add: slot_inv_def newSlotQueue_def queue_of_def reserved_of_def)


section \<open>Properties\<close>

text \<open>C20. The queue is fair and never overbooks: in every reachable state a reservation is granted only to
  the waiter that arrived first among all that still wait for the provider, it leaves the queue as it is
  and adds one reservation, and the reservations then do not exceed the free slots the provider reported.
  No queue ever exceeds \<open>maxPending\<close>.\<close>

theorem slot_queue_fair:
  assumes "legal_run exec_slot legal_slot ops (newSlotQueue n)" "q = fold exec_slot ops (newSlotQueue n)"
    and "reserveHead (Some w) slotsFree q = (q', True)"
  shows "w \<in> set (queue_of q (w_providerID w))
    \<and> (\<forall>v\<in>set (queue_of q (w_providerID w)). v \<noteq> w \<longrightarrow> w_addr w < w_addr v)
    \<and> queue_of q' = queue_of q
    \<and> reserved_of q' (w_providerID w) = reserved_of q (w_providerID w) + 1
    \<and> reserved_of q' (w_providerID w) \<le> slotsFree
    \<and> int (length (queue_of q k)) \<le> maxPending q"
proof -
  have inv: "slot_inv q" using slot_run_inv [OF assms(1)] assms(2) by simp
  from assms(3) obtain vs where "queue_of q (w_providerID w) = w # vs"
    by (auto simp: reserveHead_def head_def Let_def split: if_splits list.splits)
  moreover have "sorted_wrt (<) (map w_addr (queue_of q (w_providerID w)))" "int (length (queue_of q k)) \<le> maxPending q"
    using inv by (simp_all add: slot_inv_def)
  ultimately show ?thesis using assms(3) by (auto simp: reserveHead_def Let_def split: if_splits)
qed

definition demo_slots :: "slot_op list" where
  "demo_slots = [OpEnter ''mac-1'', OpEnter ''mac-1'', OpEnterBest [''mac-1'', ''mac-2''] [], OpReserveHead (Some \<lparr>w_addr = 0, w_providerID = ''mac-1''\<rparr>) 1,
     OpLeave (Some \<lparr>w_addr = 0, w_providerID = ''mac-1''\<rparr>)]"

theorem slot_queue_fair_witness:
  "\<exists>q'. reserveHead (Some \<lparr>w_addr = 1, w_providerID = ''mac-1''\<rparr>) 2 (fold exec_slot demo_slots (newSlotQueue 3)) = (q', True)
    \<and> reserved_of q' ''mac-1'' \<le> 2"
proof -
  let ?q = "fold exec_slot demo_slots (newSlotQueue 3)" and ?w = "\<lparr>w_addr = 1, w_providerID = ''mac-1''\<rparr>"
  have leg: "legal_run exec_slot legal_slot demo_slots (newSlotQueue 3)" by code_simp
  obtain q' b where r: "reserveHead (Some ?w) 2 ?q = (q', b)" by fastforce
  have "snd (reserveHead (Some ?w) 2 ?q)" by code_simp
  then have t: "reserveHead (Some ?w) 2 ?q = (q', True)" using r by simp
  have "reserved_of q' (w_providerID ?w) \<le> 2" using slot_queue_fair [OF leg refl t] by blast
  then have "reserved_of q' ''mac-1'' \<le> 2" by (simp only: slotWaiter.select_convs)
  then show ?thesis using t by blast
qed

text \<open>\<open>enterBest\<close> finds a place exactly when some candidate that was not tried yet has room, and then
  the new waiter stands at the end of a shortest such queue; without a place nothing changes.\<close>

theorem enterBest_shortest_queue:
  assumes "[] \<notin> set candidates" "enterBest candidates tried q = (q', r)"
  shows "(r = None \<longleftrightarrow> (\<forall>k\<in>set candidates. \<not> open_for q tried k)) \<and> (r = None \<longrightarrow> q' = q)
    \<and> (\<forall>w. r = Some w \<longrightarrow> w_providerID w \<in> set candidates \<and> open_for q tried (w_providerID w)
        \<and> queue_of q' (w_providerID w) = queue_of q (w_providerID w) @ [w]
        \<and> (\<forall>k\<in>set candidates. open_for q tried k \<longrightarrow> length (queue_of q (w_providerID w)) \<le> length (queue_of q k))
        \<and> (\<forall>k. k \<noteq> w_providerID w \<longrightarrow> queue_of q' k = queue_of q k))"
  using assms(2) best_scan_spec [OF assms(1), of "[]" q tried 0]
  by (auto simp: enterBest_def Let_def push_waiter_def split: if_splits)

theorem enterBest_shortest_queue_witness:
  "\<exists>q' w. enterBest [''mac-1'', ''mac-2''] {} (fold exec_slot demo_slots (newSlotQueue 3)) = (q', Some w)
    \<and> w_providerID w \<in> set [''mac-1'', ''mac-2'']"
proof -
  let ?q = "fold exec_slot demo_slots (newSlotQueue 3)"
  have ne: "[] \<notin> set [''mac-1'', ''mac-2'']" by simp
  obtain q' r where e: "enterBest [''mac-1'', ''mac-2''] {} ?q = (q', r)" by fastforce
  have "snd (enterBest [''mac-1'', ''mac-2''] {} ?q) \<noteq> None" by code_simp
  then obtain w where "r = Some w" using e by auto
  then show ?thesis using enterBest_shortest_queue [OF ne e] e by auto
qed

end
