(* ===== verification/Sticky_Map.thy ===== *)
theory Sticky_Map
  imports Go_Prelude
begin

text \<open>
  The sticky-affinity store of \<open>internal/routing/sticky/sticky.go\<close>: conversation keys to providers with
  a time to live and least-recently-used eviction under a fixed capacity. Every method runs under the
  store's mutex; \<open>now\<close> is the injected clock. The Go map is an association list whose order is the
  iteration order.
\<close>

section \<open>Model\<close>

record Entry =
  ConversationKey :: string
  e_ProviderID :: string
  AccountID :: string
  ModelScope :: string
  CreatedAt :: time
  LastUsedAt :: time

record Map =
  entries :: "(string \<times> Entry) list"
  ttl :: int
  maxEntries :: int

definition NewMap :: "int \<Rightarrow> int \<Rightarrow> Map" where
  "NewMap t n = \<lparr>entries = [], ttl = t, maxEntries = n\<rparr>"

record LookupResult =
  lr_Entry :: "Entry option"
  Hit :: bool
  MissReason :: string

definition expired :: "time \<Rightarrow> Map \<Rightarrow> Entry \<Rightarrow> bool" where
  "expired now m e \<longleftrightarrow> Sub now (LastUsedAt e) > ttl m"

definition Lookup :: "time \<Rightarrow> string \<Rightarrow> Map \<Rightarrow> Map \<times> LookupResult" where
  "Lookup now k m = (case map_of (entries m) k of
     None \<Rightarrow> (m, \<lparr>lr_Entry = None, Hit = False, MissReason = ''not_found''\<rparr>)
   | Some e \<Rightarrow>
       if expired now m e
       then (m\<lparr>entries := AList.delete k (entries m)\<rparr>, \<lparr>lr_Entry = None, Hit = False, MissReason = ''expired''\<rparr>)
       else let e' = e\<lparr>LastUsedAt := now\<rparr>
            in (m\<lparr>entries := AList.update k e' (entries m)\<rparr>, \<lparr>lr_Entry = Some e', Hit = True, MissReason = []\<rparr>))"

text \<open>The eviction scan of \<open>Update\<close>: expired entries are deleted on the way, and the oldest survivor is
  tracked with the empty string as "none yet".\<close>

fun oldest_scan :: "time \<Rightarrow> Map \<Rightarrow> (string \<times> Entry) list \<Rightarrow> string \<times> time \<Rightarrow> string \<times> time" where
  "oldest_scan now m [] acc = acc"
| "oldest_scan now m ((k, e) # es) (oldestKey, oldest) =
     (if expired now m e then oldest_scan now m es (oldestKey, oldest)
      else if oldestKey = [] \<or> LastUsedAt e < oldest then oldest_scan now m es (k, LastUsedAt e)
      else oldest_scan now m es (oldestKey, oldest))"

definition make_room :: "time \<Rightarrow> Map \<Rightarrow> Map" where
  "make_room now m =
    (if int (length (entries m)) \<ge> maxEntries m
     then let oldestKey = fst (oldest_scan now m (entries m) ([], 0));
              survivors = filter (\<lambda>(k, e). \<not> expired now m e) (entries m)
          in m\<lparr>entries := (if int (length survivors) \<ge> maxEntries m \<and> oldestKey \<noteq> []
                then AList.delete oldestKey survivors else survivors)\<rparr>
     else m)"

definition Update :: "time \<Rightarrow> string \<Rightarrow> string \<Rightarrow> string \<Rightarrow> string \<Rightarrow> Map \<Rightarrow> Map \<times> bool" where
  "Update now k account provider scope m =
    (case map_of (entries m) k of
       Some ex \<Rightarrow>
         if AccountID ex \<noteq> [] \<and> account \<noteq> [] \<and> AccountID ex \<noteq> account then (m, True)
         else let eff = (if account = [] \<and> AccountID ex \<noteq> [] then AccountID ex else account)
              in (m\<lparr>entries := AList.update k \<lparr>ConversationKey = k, e_ProviderID = provider, AccountID = eff,
                    ModelScope = scope, CreatedAt = CreatedAt ex, LastUsedAt = now\<rparr> (entries m)\<rparr>, False)
     | None \<Rightarrow>
         let m' = make_room now m
         in (m'\<lparr>entries := AList.update k \<lparr>ConversationKey = k, e_ProviderID = provider, AccountID = account,
               ModelScope = scope, CreatedAt = now, LastUsedAt = now\<rparr> (entries m')\<rparr>, False))"

definition PurgeAccount :: "string \<Rightarrow> Map \<Rightarrow> Map \<times> int" where
  "PurgeAccount account m = (if account = [] then (m, 0)
     else (m\<lparr>entries := filter (\<lambda>(k, e). AccountID e \<noteq> account) (entries m)\<rparr>,
           int (length (filter (\<lambda>(k, e). AccountID e = account) (entries m)))))"

definition InvalidateClass :: "string \<Rightarrow> Map \<Rightarrow> Map \<times> int" where
  "InvalidateClass className m =
     (m\<lparr>entries := filter (\<lambda>(k, e). \<not> EqualFold (ModelScope e) className) (entries m)\<rparr>,
      int (length (filter (\<lambda>(k, e). EqualFold (ModelScope e) className) (entries m))))"

definition Len :: "Map \<Rightarrow> int" where
  "Len m = int (length (entries m))"


section \<open>Eviction\<close>

definition sticky_inv :: "Map \<Rightarrow> bool" where
  "sticky_inv m \<longleftrightarrow> distinct (map fst (entries m)) \<and> [] \<notin> fst ` set (entries m)
     \<and> 1 \<le> maxEntries m \<and> Len m \<le> maxEntries m"

text \<open>The scan returns the key of a survivor that was used no later than any other.\<close>

lemma oldest_scan_sound:
  assumes "[] \<notin> fst ` set es"
    and "fst acc \<noteq> [] \<or> (\<exists>(k, e)\<in>set es. \<not> expired now m e)"
  shows "let (k, t) = oldest_scan now m es acc in k \<noteq> [] \<and>
      ((k, t) = acc \<or> (\<exists>e. (k, e) \<in> set es \<and> \<not> expired now m e \<and> LastUsedAt e = t))
      \<and> (fst acc \<noteq> [] \<longrightarrow> t \<le> snd acc) \<and> (\<forall>(j, e)\<in>set es. \<not> expired now m e \<longrightarrow> t \<le> LastUsedAt e)"
  using assms
proof (induction now m es acc rule: oldest_scan.induct)
  case (2 now m k e es ok ot)
  show ?case
  proof (cases "expired now m e")
    case True
    have "let (j, t) = oldest_scan now m es (ok, ot) in j \<noteq> [] \<and>
      ((j, t) = (ok, ot) \<or> (\<exists>e. (j, e) \<in> set es \<and> \<not> expired now m e \<and> LastUsedAt e = t))
      \<and> (fst (ok, ot) \<noteq> [] \<longrightarrow> t \<le> snd (ok, ot)) \<and> (\<forall>(j, e)\<in>set es. \<not> expired now m e \<longrightarrow> t \<le> LastUsedAt e)"
      by (rule "2.IH"(1) [OF True]) (use "2.prems" True in auto)
    then show ?thesis using True by (auto simp: Let_def split: prod.splits)
  next
    case False
    show ?thesis
    proof (cases "ok = [] \<or> LastUsedAt e < ot")
      case True
      have "let (j, t) = oldest_scan now m es (k, LastUsedAt e) in j \<noteq> [] \<and>
        ((j, t) = (k, LastUsedAt e) \<or> (\<exists>e. (j, e) \<in> set es \<and> \<not> expired now m e \<and> LastUsedAt e = t))
        \<and> (fst (k, LastUsedAt e) \<noteq> [] \<longrightarrow> t \<le> snd (k, LastUsedAt e))
        \<and> (\<forall>(j, e)\<in>set es. \<not> expired now m e \<longrightarrow> t \<le> LastUsedAt e)"
        by (rule "2.IH"(2) [OF False True]) (use "2.prems" in auto)
      then show ?thesis using False True "2.prems"(1) by (auto simp: Let_def split: prod.splits)
    next
      case older: False
      have "let (j, t) = oldest_scan now m es (ok, ot) in j \<noteq> [] \<and>
        ((j, t) = (ok, ot) \<or> (\<exists>e. (j, e) \<in> set es \<and> \<not> expired now m e \<and> LastUsedAt e = t))
        \<and> (fst (ok, ot) \<noteq> [] \<longrightarrow> t \<le> snd (ok, ot)) \<and> (\<forall>(j, e)\<in>set es. \<not> expired now m e \<longrightarrow> t \<le> LastUsedAt e)"
        by (rule "2.IH"(3) [OF False older]) (use "2.prems" older in auto)
      then show ?thesis using False older by (auto simp: Let_def split: prod.splits)
    qed
  qed
qed auto


lemma make_room_simps [simp]: "ttl (make_room now m) = ttl m" "maxEntries (make_room now m) = maxEntries m"
  by (simp_all add: make_room_def Let_def)

lemma make_room_cases:
  assumes "sticky_inv m"
  obtains (room) "make_room now m = m" "Len m < maxEntries m"
  | (swept) "entries (make_room now m) = filter (\<lambda>(k, e). \<not> expired now m e) (entries m)"
      "Len (make_room now m) < maxEntries m" "Len m = maxEntries m"
  | (lru) k e where "entries (make_room now m) = AList.delete k (entries m)" "map_of (entries m) k = Some e"
      "\<forall>(j, e)\<in>set (entries m). \<not> expired now m e" "\<forall>(j, e')\<in>set (entries m). LastUsedAt e \<le> LastUsedAt e'"
      "Len m = maxEntries m"
proof (cases "Len m < maxEntries m")
  case True
  then show thesis by (intro room) (simp_all add: make_room_def Len_def)
next
  case full: False
  let ?S = "filter (\<lambda>(k, e). \<not> expired now m e) (entries m)"
  have len: "Len m = maxEntries m" using full assms by (simp add: sticky_inv_def)
  show thesis
  proof (cases "int (length ?S) \<ge> maxEntries m")
    case False
    then show thesis using len by (intro swept) (simp_all add: make_room_def Len_def Let_def)
  next
    case True
    have alive: "\<forall>x\<in>set (entries m). \<not> (case x of (k, e) \<Rightarrow> expired now m e)"
    proof (rule ccontr)
      assume "\<not> ?thesis"
      then obtain x where "x \<in> set (entries m)" "\<not> (case x of (k, e) \<Rightarrow> \<not> expired now m e)" by auto
      then have "length ?S < length (entries m)" by (rule length_filter_less)
      then show False using True len by (simp add: Len_def)
    qed
    then have S: "?S = entries m" by (auto intro!: filter_True)
    obtain k t where kt: "oldest_scan now m (entries m) ([], 0) = (k, t)" by fastforce
    have "entries m \<noteq> []" using len assms by (auto simp: sticky_inv_def Len_def)
    then have ex: "\<exists>(k, e)\<in>set (entries m). \<not> expired now m e" using alive by (cases "entries m") auto
    have ne: "[] \<notin> fst ` set (entries m)" using assms by (simp add: sticky_inv_def)
    have k: "k \<noteq> []" and e: "(k, t) = ([], 0) \<or> (\<exists>e. (k, e) \<in> set (entries m) \<and> \<not> expired now m e \<and> LastUsedAt e = t)"
      and le: "\<forall>(j, e)\<in>set (entries m). \<not> expired now m e \<longrightarrow> t \<le> LastUsedAt e"
      using oldest_scan_sound [of "entries m" "([], 0)" now m] ne ex by (auto simp: Let_def kt)
    from e k obtain e where e: "(k, e) \<in> set (entries m)" "LastUsedAt e = t" by auto
    then have "map_of (entries m) k = Some e" using assms by (simp add: sticky_inv_def)
    moreover have "\<forall>(j, e')\<in>set (entries m). LastUsedAt e \<le> LastUsedAt e'" using le alive e(2) by auto
    moreover have "entries (make_room now m) = AList.delete k (entries m)"
      using True k S len by (simp add: make_room_def Let_def kt Len_def)
    ultimately show thesis using alive len by (intro lru) auto
  qed
qed

lemma make_room_inv:
  assumes "sticky_inv m"
  shows "sticky_inv (make_room now m)" and "Len (make_room now m) < maxEntries m"
proof -
  have "distinct (map fst (entries (make_room now m))) \<and> [] \<notin> fst ` set (entries (make_room now m))
      \<and> Len (make_room now m) < maxEntries m"
    using assms
  proof (cases rule: make_room_cases [of m now])
    case swept
    then show ?thesis using assms by (auto simp: sticky_inv_def distinct_filter_fst)
  next
    case (lru k e)
    have "k \<in> fst ` set (entries m)" using lru(2) by (force dest: map_of_SomeD)
    then show ?thesis using lru assms length_delete_less [of k "entries m"]
      by (auto simp: sticky_inv_def Len_def distinct_delete keys_delete)
  qed (use assms in \<open>simp_all add: sticky_inv_def\<close>)
  then show "sticky_inv (make_room now m)" "Len (make_room now m) < maxEntries m"
    using assms by (simp_all add: sticky_inv_def)
qed

text \<open>What an insertion may take away from the others.\<close>

definition evictable :: "time \<Rightarrow> Map \<Rightarrow> string \<Rightarrow> bool" where
  "evictable now m j \<longleftrightarrow> Len m = maxEntries m \<and> (\<exists>e. map_of (entries m) j = Some e \<and>
     (expired now m e \<or> (\<forall>(i, e')\<in>set (entries m). \<not> expired now m e' \<and> LastUsedAt e \<le> LastUsedAt e')))"

lemma make_room_lookup:
  assumes "sticky_inv m"
  shows "map_of (entries (make_room now m)) j = map_of (entries m) j
    \<or> (map_of (entries (make_room now m)) j = None \<and> evictable now m j)"
  using assms
proof (cases rule: make_room_cases [of m now])
  case swept
  have d: "distinct (map fst (entries m))" using assms by (simp add: sticky_inv_def)
  show ?thesis unfolding swept(1) lookup_kept [OF d]
    using swept(3) by (auto simp: evictable_def simp del: map_of_eq_Some_iff split: option.split)
next
  case (lru k e)
  then show ?thesis by (auto simp: evictable_def simp del: map_of_eq_Some_iff)
qed simp


section \<open>The store as a system\<close>

datatype sticky_op =
    OpLookup time string
  | OpUpdate time string string string string
  | OpPurge string
  | OpInvalidate string

fun exec_sticky :: "sticky_op \<Rightarrow> Map \<Rightarrow> Map" where
  "exec_sticky (OpLookup now k) m = fst (Lookup now k m)"
| "exec_sticky (OpUpdate now k account provider scope) m = fst (Update now k account provider scope m)"
| "exec_sticky (OpPurge account) m = fst (PurgeAccount account m)"
| "exec_sticky (OpInvalidate c) m = fst (InvalidateClass c m)"

text \<open>Callers store only under keys that start with \<open>conv:\<close>.\<close>

fun legal_sticky :: "sticky_op \<Rightarrow> Map \<Rightarrow> bool" where
  "legal_sticky (OpUpdate now k account provider scope) m \<longleftrightarrow> k \<noteq> []"
| "legal_sticky _ m \<longleftrightarrow> True"

lemma Len_update_le: "Len (m\<lparr>entries := AList.update k e (entries m)\<rparr>) \<le> Len m + 1"
  by (simp add: Len_def alist_length)

lemma Update_inv:
  assumes "sticky_inv m" "k \<noteq> []"
  shows "sticky_inv (fst (Update now k account provider scope m))"
proof (cases "map_of (entries m) k")
  case None
  then show ?thesis using make_room_inv [OF assms(1), of now] assms(2)
    by (simp add: Update_def Let_def sticky_inv_def distinct_update Len_def alist_length keys_update)
next
  case (Some e)
  then have "k \<in> fst ` set (entries m)" by (force dest: map_of_SomeD)
  then show ?thesis using assms Some
    by (auto simp: Update_def Let_def sticky_inv_def distinct_update Len_def alist_length keys_update)
qed

lemma length_filter_int: "int (length xs) \<le> n \<Longrightarrow> int (length (filter P xs)) \<le> n"
  using length_filter_le [of P xs] by linarith

lemma sticky_inv_step:
  assumes "sticky_inv m" "legal_sticky x m"
  shows "sticky_inv (exec_sticky x m)"
proof (cases x)
  case (OpLookup now k)
  show ?thesis
  proof (cases "map_of (entries m) k")
    case (Some e)
    then have "k \<in> fst ` set (entries m)" by (force dest: map_of_SomeD)
    then show ?thesis using OpLookup assms(1) Some length_delete_le [of k "entries m"]
      by (auto simp: Lookup_def Let_def sticky_inv_def Len_def distinct_update distinct_delete alist_length
          keys_delete keys_update)
  qed (use OpLookup assms in \<open>simp add: Lookup_def\<close>)
next
  case (OpUpdate now k account provider scope)
  then show ?thesis using Update_inv [OF assms(1)] assms(2) by simp
next
  case (OpPurge account)
  then show ?thesis using assms(1)
    by (auto simp: PurgeAccount_def sticky_inv_def Len_def distinct_filter_fst length_filter_int)
next
  case (OpInvalidate c)
  then show ?thesis using assms(1)
    by (auto simp: InvalidateClass_def sticky_inv_def Len_def distinct_filter_fst length_filter_int)
qed

interpretation sticky: bounded_store exec_sticky legal_sticky sticky_inv Len maxEntries
proof
  show "maxEntries (exec_sticky x s) = maxEntries s" for x s
    by (cases x) (auto simp: Lookup_def Update_def PurgeAccount_def InvalidateClass_def Let_def split: option.split)
  show "sticky_inv s \<Longrightarrow> Len s \<le> maxEntries s" for s by (simp add: sticky_inv_def)
qed (rule sticky_inv_step)



section \<open>Properties\<close>

text \<open>C23. The capacity is a hard bound: whatever the mix of lookups, stores, purges and class
  invalidations, the store never holds more than \<open>MaxEntries\<close> conversations.\<close>

theorem sticky_map_bounded:
  assumes "1 \<le> n" "legal_run exec_sticky legal_sticky ops (NewMap t n)"
  shows "Len (fold exec_sticky ops (NewMap t n)) \<le> n"
proof -
  have "sticky_inv (NewMap t n)" using assms(1) by (simp add: NewMap_def sticky_inv_def Len_def)
  from sticky.run_bounded [OF this assms(2)] show ?thesis by (simp add: NewMap_def)
qed

definition demo_sticky :: "sticky_op list" where
  "demo_sticky = [OpUpdate 1 ''conv:a'' ''acct'' ''mac-1'' ''m'', OpUpdate 2 ''conv:b'' ''acct'' ''mac-2'' ''m'',
     OpLookup 3 ''conv:a'', OpUpdate 4 ''conv:c'' ''other'' ''mac-3'' ''m'']"

theorem sticky_map_bounded_witness:
  "Len (fold exec_sticky demo_sticky (NewMap 100 2)) \<le> 2
   \<and> map fst (entries (fold exec_sticky demo_sticky (NewMap 100 2))) = [''conv:a'', ''conv:c'']"
proof -
  have "legal_run exec_sticky legal_sticky demo_sticky (NewMap 100 2)" by code_simp
  then have "Len (fold exec_sticky demo_sticky (NewMap 100 2)) \<le> 2" by (intro sticky_map_bounded) simp_all
  moreover have "map fst (entries (fold exec_sticky demo_sticky (NewMap 100 2))) = [''conv:a'', ''conv:c'']"
    by code_simp
  ultimately show ?thesis by blast
qed

lemma Update_entry:
  assumes "Update now k account provider scope m = (m', False)"
  shows "\<exists>e. map_of (entries m') k = Some e \<and> e_ProviderID e = provider \<and> ModelScope e = scope \<and> LastUsedAt e = now"
  using assms by (auto simp: Update_def Let_def split: option.splits if_splits)

text \<open>C24. A store of a conversation does exactly what it promises. It is refused, and changes nothing,
  precisely when the conversation belongs to a different account. Otherwise the conversation points at
  the new provider, a known account is never erased and the creation time survives a refresh. Another
  conversation is lost only when a new one enters a full store, and then it was expired, or nothing was
  expired and it was the least recently used.\<close>

theorem sticky_update_contract:
  assumes "sticky_inv m" "Update now k account provider scope m = (m', mismatch)"
  shows "(mismatch \<longleftrightarrow> (\<exists>e. map_of (entries m) k = Some e \<and> AccountID e \<noteq> [] \<and> account \<noteq> [] \<and> AccountID e \<noteq> account))
    \<and> (mismatch \<longrightarrow> m' = m)
    \<and> (\<not> mismatch \<longrightarrow> (\<exists>e. map_of (entries m') k = Some e \<and> e_ProviderID e = provider \<and> ModelScope e = scope
         \<and> LastUsedAt e = now
         \<and> (case map_of (entries m) k of None \<Rightarrow> AccountID e = account \<and> CreatedAt e = now
            | Some old \<Rightarrow> CreatedAt e = CreatedAt old \<and> AccountID e = (if AccountID old \<noteq> [] then AccountID old else account))))
    \<and> (\<forall>j. j \<noteq> k \<longrightarrow> map_of (entries m') j = map_of (entries m) j
         \<or> (map_of (entries m') j = None \<and> map_of (entries m) k = None \<and> evictable now m j))"
proof (cases "map_of (entries m) k")
  case None
  then have m': "mismatch = False" "map_of (entries m') = (map_of (entries (make_room now m)))(k \<mapsto>
      \<lparr>ConversationKey = k, e_ProviderID = provider, AccountID = account, ModelScope = scope, CreatedAt = now, LastUsedAt = now\<rparr>)"
    using assms(2) by (auto simp: Update_def Let_def)
  show ?thesis unfolding m' using None make_room_lookup [OF assms(1), of now] by simp
next
  case (Some e)
  then show ?thesis using assms(2) by (auto simp: Update_def Let_def simp del: map_of_eq_Some_iff split: if_splits)
qed

theorem sticky_update_contract_witness:
  "\<exists>m m'. m = fold exec_sticky demo_sticky (NewMap 100 2)
    \<and> Update 5 ''conv:a'' ''other'' ''mac-9'' ''m'' m = (m', True) \<and> m' = m"
proof -
  let ?m = "fold exec_sticky demo_sticky (NewMap 100 2)"
  have inv: "sticky_inv ?m" by code_simp
  obtain m' b where u: "Update 5 ''conv:a'' ''other'' ''mac-9'' ''m'' ?m = (m', b)" by fastforce
  have "snd (Update 5 ''conv:a'' ''other'' ''mac-9'' ''m'' ?m)" by code_simp
  then have b: "b" using u by simp
  have "m' = ?m" using sticky_update_contract [OF inv u] b by blast
  then show ?thesis using u b by auto
qed

text \<open>A conversation stays where it is across operations that do not concern it, as long as the store has
  room for them.\<close>

fun concerns :: "string \<Rightarrow> string \<Rightarrow> string \<Rightarrow> sticky_op \<Rightarrow> bool" where
  "concerns k account scope (OpLookup now j) = (j = k)"
| "concerns k account scope (OpUpdate now j a p sc) = (j = k)"
| "concerns k account scope (OpPurge a) = (a = account)"
| "concerns k account scope (OpInvalidate c) = EqualFold scope c"

lemma exec_sticky_frame:
  assumes "map_of (entries m) k = Some e" "\<not> concerns k (AccountID e) (ModelScope e) x"
    "Len m < maxEntries m" "distinct (map fst (entries m))"
  shows "map_of (entries (exec_sticky x m)) k = Some e"
    and "Len (exec_sticky x m) \<le> Len m + 1" "distinct (map fst (entries (exec_sticky x m)))"
    and "maxEntries (exec_sticky x m) = maxEntries m" "ttl (exec_sticky x m) = ttl m"
proof -
  have room: "make_room now m = m" for now using assms(3) by (simp add: make_room_def Len_def)
  show "map_of (entries (exec_sticky x m)) k = Some e"
    using assms(1,2) by (cases x) (auto simp: Lookup_def Update_def PurgeAccount_def InvalidateClass_def Let_def room
        lookup_kept [OF assms(4)] simp del: map_of_eq_Some_iff split: option.split)
  show "Len (exec_sticky x m) \<le> Len m + 1"
    by (cases x) (auto simp: Lookup_def Update_def PurgeAccount_def InvalidateClass_def Let_def room Len_def
        alist_length AList.delete_eq length_filter_int split: option.split)
  show "distinct (map fst (entries (exec_sticky x m)))"
    using assms(4) by (cases x) (auto simp: Lookup_def Update_def PurgeAccount_def InvalidateClass_def Let_def room
        distinct_update distinct_delete distinct_filter_fst split: option.split)
  show "maxEntries (exec_sticky x m) = maxEntries m" by (rule sticky.capacity_const)
  show "ttl (exec_sticky x m) = ttl m"
    by (cases x) (auto simp: Lookup_def Update_def PurgeAccount_def InvalidateClass_def Let_def split: option.split)
qed

lemma run_sticky_frame:
  assumes "map_of (entries m) k = Some e" "\<forall>x\<in>set ops. \<not> concerns k (AccountID e) (ModelScope e) x"
    "Len m + int (length ops) \<le> maxEntries m" "distinct (map fst (entries m))"
  shows "map_of (entries (fold exec_sticky ops m)) k = Some e \<and> ttl (fold exec_sticky ops m) = ttl m"
  using assms
proof (induction ops arbitrary: m)
  case (Cons x ops)
  then have x: "\<not> concerns k (AccountID e) (ModelScope e) x" "Len m < maxEntries m" by auto
  note fr = exec_sticky_frame [OF Cons.prems(1) x Cons.prems(4)]
  have "map_of (entries (fold exec_sticky ops (exec_sticky x m))) k = Some e
      \<and> ttl (fold exec_sticky ops (exec_sticky x m)) = ttl (exec_sticky x m)"
    by (rule Cons.IH [OF fr(1) _ _ fr(3)]) (use Cons.prems fr(2,4) in auto)
  then show ?case using fr(5) by simp
qed simp

text \<open>C25. Store and lookup round trip: a conversation that was stored for a provider is found again with
  that provider by a lookup within the time to live, whatever happened to other conversations in between,
  as long as the store had room.\<close>

theorem sticky_store_lookup_roundtrip:
  assumes "sticky_inv m" "k \<noteq> []" "Update now k account provider scope m = (m1, False)"
    and "map_of (entries m1) k = Some e"
    and "\<forall>x\<in>set ops. \<not> concerns k (AccountID e) (ModelScope e) x"
    and "Len m1 + int (length ops) \<le> maxEntries m1"
    and "Sub later now \<le> ttl m"
  shows "\<exists>e'. snd (Lookup later k (fold exec_sticky ops m1)) = \<lparr>lr_Entry = Some e', Hit = True, MissReason = []\<rparr>
    \<and> e_ProviderID e' = provider \<and> ModelScope e' = scope \<and> LastUsedAt e' = later"
proof -
  have e: "e_ProviderID e = provider" "ModelScope e = scope" "LastUsedAt e = now"
    using Update_entry [OF assms(3)] assms(4) by auto
  have "sticky_inv m1" using Update_inv [OF assms(1,2), of now account provider scope] assms(3) by simp
  then have "distinct (map fst (entries m1))" by (simp add: sticky_inv_def)
  moreover have "ttl m1 = ttl m" using assms(3) by (auto simp: Update_def Let_def split: option.splits if_splits)
  ultimately show ?thesis using run_sticky_frame [OF assms(4-6)] e assms(7)
    by (auto simp: Lookup_def expired_def Let_def simp del: map_of_eq_Some_iff)
qed


theorem sticky_store_lookup_roundtrip_witness:
  "\<exists>e'. snd (Lookup 90 ''conv:a'' (fold exec_sticky [OpUpdate 8 ''conv:z'' ''x'' ''mac-8'' ''m'', OpPurge ''x'']
      (fst (Update 7 ''conv:a'' ''acct'' ''mac-1'' ''m'' (NewMap 100 5))))) = \<lparr>lr_Entry = Some e', Hit = True, MissReason = []\<rparr>
    \<and> e_ProviderID e' = ''mac-1''"
proof -
  let ?m = "NewMap 100 5"
  let ?m1 = "fst (Update 7 ''conv:a'' ''acct'' ''mac-1'' ''m'' ?m)"
  let ?ops = "[OpUpdate 8 ''conv:z'' ''x'' ''mac-8'' ''m'', OpPurge ''x'']"
  have inv: "sticky_inv ?m" by code_simp
  have "Update 7 ''conv:a'' ''acct'' ''mac-1'' ''m'' ?m = (?m1, False)"
    "\<exists>e. map_of (entries ?m1) ''conv:a'' = Some e \<and> AccountID e = ''acct'' \<and> ModelScope e = ''m''"
    by (simp_all add: Update_def NewMap_def make_room_def Let_def)
  then obtain e where u: "Update 7 ''conv:a'' ''acct'' ''mac-1'' ''m'' ?m = (?m1, False)"
    "map_of (entries ?m1) ''conv:a'' = Some e" and e: "AccountID e = ''acct''" "ModelScope e = ''m''" by blast
  have "\<forall>x\<in>set ?ops. \<not> concerns ''conv:a'' (AccountID e) (ModelScope e) x" unfolding e by code_simp
  moreover have "Len ?m1 + int (length ?ops) \<le> maxEntries ?m1" by code_simp
  moreover have "Sub 90 7 \<le> ttl ?m" by code_simp
  ultimately show ?thesis using sticky_store_lookup_roundtrip [OF inv _ u, of ?ops 90] by auto
qed

end
