(* ===== verification/Buyer_Eligibility.thy ===== *)
theory Buyer_Eligibility
  imports Version_Floor Admission Routing_Filter Routing_Objective Slot_Queue Sticky_Map
begin

text \<open>
  The gates of the buyer server (\<open>internal/buyer/server.go\<close>) that decide which provider may serve a
  request: request headers and model classes, the Tier-2 predicates, the version floor, the quota and
  the adapter \<open>eligibilityCtx\<close> that implements the routing package's \<open>EligibilityChecker\<close>.
\<close>

section \<open>Request headers\<close>

text \<open>\<open>http.Header\<close>: canonical names with their values. \<open>Get\<close> canonicalises its argument.\<close>

type_synonym headers = "(string \<times> string list) list"

definition upper_char :: "char \<Rightarrow> char" where
  "upper_char c = (let n = of_char c :: nat in if 97 \<le> n \<and> n \<le> 122 then char_of (n - 32) else c)"

fun canonical :: "bool \<Rightarrow> string \<Rightarrow> string" where
  "canonical up [] = []"
| "canonical up (c # cs) = (if up then upper_char c else lower_char c) # canonical (c = CHR ''-'') cs"

definition CanonicalHeaderKey :: "string \<Rightarrow> string" where
  "CanonicalHeaderKey k = canonical True k"

definition header_Get :: "headers \<Rightarrow> string \<Rightarrow> string" where
  "header_Get h k = (case map_of h (CanonicalHeaderKey k) of Some (v # vs) \<Rightarrow> v | _ \<Rightarrow> [])"

definition header_Del :: "string \<Rightarrow> headers \<Rightarrow> headers" where
  "header_Del k h = AList.delete (CanonicalHeaderKey k) h"

definition hasPinnedRoute :: "headers \<Rightarrow> bool" where
  "hasPinnedRoute h \<longleftrightarrow> header_Get h ''X-MacProvider-Provider'' \<noteq> [] \<or> header_Get h ''X-MacProvider-Session'' \<noteq> []"

definition hasInternalRoutingHeader :: "headers \<Rightarrow> bool" where
  "hasInternalRoutingHeader h \<longleftrightarrow> list_ex (\<lambda>(key, vals).
     (ToLower key = ''x-macprovider-account'' \<or> HasPrefix (ToLower key) ''x-macprovider-internal-'')
     \<and> list_ex (\<lambda>v. TrimSpace v \<noteq> []) vals) h"


section \<open>Server configuration and state\<close>

record Tier2Config =
  ObserveEnabled :: bool
  CatalogPath :: string
  RequireHashVerified :: bool
  RequireEncryptedLeg :: bool
  RequireAttestation :: bool

record ModelClassConfig =
  Members :: "string list"
  Models :: "string list"
  mc_Objective :: string

record PreflightResult =
  Accepted :: bool
  pf_Reason :: string

text \<open>\<open>preflight\<close> is the injected call to the provider, \<open>None\<close> inside for a timeout or an error. \<open>sha256\<close> is
  the hash of the standard library, \<open>draw\<close> the first \<open>Float64\<close> of a generator with the given seed.\<close>

record Server =
  modelVersionFloors :: floors
  modelClasses :: "(string \<times> ModelClassConfig) list"
  provisionalWeight :: f64
  tiebreakRandomize :: bool
  tiebreakEpsilon :: f64
  stickyEnabled :: bool
  stickyMap :: Map
  s_tier2 :: Tier2Config
  preflightThreshold :: int
  preflight :: "(Provider \<Rightarrow> string \<Rightarrow> int \<Rightarrow> PreflightResult option) option"
  s_slotQueue :: "slotQueue option"
  s_admission :: "AdmissionManager option"
  gatewayServiceToken :: string
  failoverEnabled :: bool
  sha256 :: "string \<Rightarrow> string"
  draw :: "int \<Rightarrow> f64"

record routeError =
  re_status :: int
  re_code :: string
  re_message :: string
  re_typ :: string

definition route_error :: "int \<Rightarrow> string \<Rightarrow> string \<Rightarrow> string \<Rightarrow> routeError" where
  "route_error st c msg t = \<lparr>re_status = st, re_code = c, re_message = msg, re_typ = t\<rparr>"

definition estimateTokens :: "string \<Rightarrow> int" where
  "estimateTokens raw = (let n = int (length raw) div 4 in if n < 1 then 1 else n)"

definition BearerTokenMatchesHeader :: "(string \<Rightarrow> string) \<Rightarrow> headers \<Rightarrow> string \<Rightarrow> bool" where
  "BearerTokenMatchesHeader hash h expected =
    (let expected = TrimSpace expected; auth = TrimSpace (header_Get h ''Authorization'') in
     expected \<noteq> [] \<and> HasPrefix auth ''Bearer ''
     \<and> hash (TrimSpace (TrimPrefix auth ''Bearer '')) = hash expected)"

definition internalBearerAuthorized :: "Server \<Rightarrow> headers \<Rightarrow> bool" where
  "internalBearerAuthorized s h \<longleftrightarrow> gatewayServiceToken s \<noteq> [] \<and> BearerTokenMatchesHeader (sha256 s) h (gatewayServiceToken s)"


section \<open>Model classes\<close>

definition modelIDEqual :: "string \<Rightarrow> string \<Rightarrow> bool" where
  "modelIDEqual a b = EqualFold a b"

definition resolveModelClass :: "Server \<Rightarrow> string \<Rightarrow> ModelClassConfig option" where
  "resolveModelClass s model = map_option snd (find (\<lambda>(name, c). EqualFold name model) (modelClasses s))"

definition classForRequest :: "Server \<Rightarrow> string \<Rightarrow> Provider list \<Rightarrow> ModelClassConfig option" where
  "classForRequest s model ps = (if list_ex (\<lambda>p. modelIDEqual (ModelID p) model) ps then None else resolveModelClass s model)"

definition modelClassMembers :: "ModelClassConfig option \<Rightarrow> string list" where
  "modelClassMembers cl = (case cl of None \<Rightarrow> [] | Some c \<Rightarrow> if Models c \<noteq> [] then Models c else Members c)"

definition providerMatchesRequest :: "Provider \<Rightarrow> string \<Rightarrow> ModelClassConfig option \<Rightarrow> bool" where
  "providerMatchesRequest p model cl = (case cl of None \<Rightarrow> modelIDEqual (ModelID p) model
     | Some c \<Rightarrow> list_ex (\<lambda>m. modelIDEqual (ModelID p) m) (modelClassMembers cl))"

definition objectiveForRequest :: "headers \<Rightarrow> ModelClassConfig option \<Rightarrow> string" where
  "objectiveForRequest h cl = (case cl of Some c \<Rightarrow> mc_Objective c
     | None \<Rightarrow> let pref = header_Get h ''X-MacProvider-Pref'' in
         if pref = ''fast'' \<or> pref = ''accurate'' then pref else ''default'')"


section \<open>Tier-2 predicates, floor and quota\<close>

definition ModelHashActive :: "Tier2Config \<Rightarrow> bool" where
  "ModelHashActive c \<longleftrightarrow> ObserveEnabled c \<or> TrimSpace (CatalogPath c) \<noteq> [] \<or> RequireHashVerified c"

definition normalizedStatus :: "HashStatus \<Rightarrow> HashStatus" where
  "normalizedStatus st = (if st = HashStatusUnset then HashStatusUncatalogued else st)"

definition IsHashPredicateFailure :: "HashStatus \<Rightarrow> bool \<Rightarrow> bool" where
  "IsHashPredicateFailure st requireHashVerified =
    (let st = normalizedStatus st in
     if st = HashStatusMismatch \<or> st = HashStatusInvalid then True
     else requireHashVerified \<and> st \<noteq> HashStatusVerified)"

definition effectiveHashStatus :: "Tier2Config \<Rightarrow> Provider \<Rightarrow> HashStatus" where
  "effectiveHashStatus c p = (if \<not> ModelHashActive c then p_HashStatus p
     else if p_HashStatus p = HashStatusUnset then HashStatusUncatalogued else p_HashStatus p)"

definition tier2ProviderExcludedStatus :: "Tier2Config \<Rightarrow> HashStatus \<Rightarrow> bool" where
  "tier2ProviderExcludedStatus c st = (if \<not> ModelHashActive c then False else IsHashPredicateFailure st (RequireHashVerified c))"

definition tier2ProviderExcludedForConfig :: "Tier2Config \<Rightarrow> Provider \<Rightarrow> bool" where
  "tier2ProviderExcludedForConfig c p =
    (if tier2ProviderExcludedStatus c (effectiveHashStatus c p) then True
     else if RequireEncryptedLeg c \<and> \<not> EncryptedLeg p then True
     else RequireAttestation c \<and> p_AttestationStatus (p_Attestation p) \<noteq> AttestationStatusAttested)"

definition tier2ProviderExcluded :: "Server \<Rightarrow> Provider \<Rightarrow> bool" where
  "tier2ProviderExcluded s p = tier2ProviderExcludedForConfig (s_tier2 s) p"

definition providerMeetsModelVersionFloor :: "Server \<Rightarrow> Provider \<Rightarrow> bool" where
  "providerMeetsModelVersionFloor s p = res_Allowed (Check (modelVersionFloors s) (ModelID p) (BinaryVersion p))"

definition modelVersionFloorFor :: "Server \<Rightarrow> Provider \<Rightarrow> string" where
  "modelVersionFloorFor s p = res_Floor (Check (modelVersionFloors s) (ModelID p) (BinaryVersion p))"

text \<open>The verdict of the admission manager; that asking also trims the windows is \<open>checkQuota_repeatable\<close>
  below.\<close>

definition checkQuota :: "Server \<Rightarrow> time \<Rightarrow> Provider \<Rightarrow> bool" where
  "checkQuota s now p = (case s_admission s of None \<Rightarrow> True | Some a \<Rightarrow> snd (CheckQuota now p a))"

lemma checkQuota_repeatable: "snd (CheckQuota now p (fst (CheckQuota now q a))) = snd (CheckQuota now p a)"
  by (auto simp: CheckQuota_def Let_def keepAfter_keepAfter)

definition hasAvailableSlot :: "Provider \<Rightarrow> bool" where
  "hasAvailableSlot p = (if \<not> CapacityEligible p then False else p_State p = StateReady \<and> slots_free p > 0)"


section \<open>The checker\<close>

record eligibilityCtx =
  ctx_s :: Server
  ctx_now :: time
  ctx_model :: string
  ctx_class :: "ModelClassConfig option"
  ctx_estimatedTokens :: int

definition ctx_Tier2Decision :: "eligibilityCtx \<Rightarrow> Provider \<Rightarrow> RejectionReason option \<times> HashStatus" where
  "ctx_Tier2Decision c p =
    (let cfg = s_tier2 (ctx_s c); hashStatus = effectiveHashStatus cfg p in
     if tier2ProviderExcludedStatus cfg hashStatus
     then if hashStatus = HashStatusMismatch \<or> hashStatus = HashStatusInvalid then (Some ReasonTier2HashMismatch, hashStatus)
          else (Some ReasonTier2HashRequired, hashStatus)
     else if RequireEncryptedLeg cfg \<and> \<not> EncryptedLeg p then (Some ReasonTier2EncryptedLeg, hashStatus)
     else if RequireAttestation cfg \<and> p_AttestationStatus (p_Attestation p) \<noteq> AttestationStatusAttested
     then (Some ReasonTier2Attestation, hashStatus)
     else (None, hashStatus))"

definition ctx_ProviderContextSufficient :: "eligibilityCtx \<Rightarrow> Provider \<Rightarrow> bool" where
  "ctx_ProviderContextSufficient c p \<longleftrightarrow> MaxContextTokens (p_Capacity p) \<ge> ctx_estimatedTokens c"

definition ctx_ProviderMatchesRequest :: "eligibilityCtx \<Rightarrow> Provider \<Rightarrow> bool" where
  "ctx_ProviderMatchesRequest c p \<longleftrightarrow> providerMatchesRequest p (ctx_model c) (ctx_class c) \<and> RoutingEligible p"

definition checker_of :: "eligibilityCtx \<Rightarrow> EligibilityChecker" where
  "checker_of c = \<lparr>ProviderMatchesRequest = ctx_ProviderMatchesRequest c,
     ProviderMeetsModelVersionFloor = providerMeetsModelVersionFloor (ctx_s c),
     ProviderContextSufficient = ctx_ProviderContextSufficient c,
     Tier2Decision = ctx_Tier2Decision c,
     QuotaPermits = checkQuota (ctx_s c) (ctx_now c)\<rparr>"

interpretation buyer: eligibility_checker "checker_of c" for c
proof
  show "ProviderMatchesRequest (checker_of c) p \<Longrightarrow> RoutingEligible p" for p
    by (simp add: checker_of_def ctx_ProviderMatchesRequest_def)
  show "fst (Tier2Decision (checker_of c) p) = Some r \<Longrightarrow> r \<in> set tier2_reasons" for p r
    by (auto simp: checker_of_def ctx_Tier2Decision_def Let_def tier2_reasons_def split: if_splits)
qed

text \<open>The hand-written Tier-2 gate of the pinned and queued paths agrees with the checker's.\<close>

lemma tier2_gates_agree: "fst (ctx_Tier2Decision c p) = None \<longleftrightarrow> \<not> tier2ProviderExcluded (ctx_s c) p"
  by (auto simp: ctx_Tier2Decision_def tier2ProviderExcluded_def tier2ProviderExcludedForConfig_def Let_def)

end
