(* ===== verification/Buyer_Selection.thy ===== *)
theory Buyer_Selection
  imports Buyer_Eligibility
begin

text \<open>
  Provider selection of the buyer server (\<open>selectProviderExcluding\<close> and what it calls in
  \<open>internal/buyer/server.go\<close>): filter, rank, sticky affinity, seeded tie-break, slot queue and preflight.
  The server is passed and returned because a sticky lookup refreshes its entry and the slot queue
  changes. Log calls are left out.
\<close>

section \<open>Tie-break and sticky affinity\<close>

definition weights_of :: "Server \<Rightarrow> Weights" where
  "weights_of s = \<lparr>wt_Pinned = Fin 1, wt_Provisional = provisionalWeight s\<rparr>"

definition sortCandidates :: "Server \<Rightarrow> Provider list \<Rightarrow> string \<Rightarrow> Provider list \<times> scores option" where
  "sortCandidates s cs objective = SortCandidatesWithScores cs objective (weights_of s) None"

definition inEpsilonCohort :: "Server \<Rightarrow> Provider \<Rightarrow> Provider \<Rightarrow> string \<Rightarrow> Provider list \<Rightarrow> scores option \<Rightarrow> bool" where
  "inEpsilonCohort s tp c objective cs cache =
    (let scoreFn = (if objective = ''balanced''
           then Some (score (case cache of None \<Rightarrow> KeyedBalancedScores cs | Some sc \<Rightarrow> sc)) else None)
     in InEpsilonCohort tp c objective (tiebreakEpsilon s) (weights_of s) scoreFn)"

text \<open>FNV-1a over the bytes.\<close>

definition fnv1a :: "string \<Rightarrow> 64 word \<Rightarrow> 64 word" where
  "fnv1a bs h = fold (\<lambda>c h. Bit_Operations.xor h (of_nat (of_char c)) * 1099511628211) bs h"

definition seedForRequestWithKey :: "string \<Rightarrow> string \<Rightarrow> int" where
  "seedForRequestWithKey requestID dailyKey =
     sint (fnv1a requestID (fnv1a ''|'' (fnv1a dailyKey 14695981039346656037)))"

text \<open>\<open>int(x)\<close> for a finite value truncates; other values do not occur.\<close>

fun int_of_f64 :: "f64 \<Rightarrow> int" where
  "int_of_f64 (Fin x) = (if x \<ge> 0 then \<lfloor>x\<rfloor> else \<lceil>x\<rceil>)"
| "int_of_f64 _ = 0"

definition swap_first :: "'a list \<Rightarrow> nat \<Rightarrow> 'a list" where
  "swap_first xs i = xs[0 := xs ! i, i := xs ! 0]"

text \<open>\<open>today\<close> is the UTC date that \<open>defaultDailyKey\<close> returns.\<close>

definition applyRandomTiebreak ::
  "Server \<Rightarrow> string \<Rightarrow> string \<Rightarrow> Provider list \<Rightarrow> string \<Rightarrow> string \<Rightarrow> scores option \<Rightarrow> Provider list \<times> int \<times> f64 \<times> string" where
  "applyRandomTiebreak s today requestID cs objective dailyKey cache =
    (if \<not> tiebreakRandomize s \<or> length cs < 2 then (cs, 0, Fin 0, ''deterministic'')
     else let cohortEnd = 1 + length (takeWhile (\<lambda>c. inEpsilonCohort s (cs ! 0) c objective cs cache) (tl cs)) in
       if cohortEnd < 2 then (cs, 0, Fin 0, ''deterministic'')
       else let dailyKey = (if dailyKey = [] then today else dailyKey);
                seed = seedForRequestWithKey requestID dailyKey;
                d = draw s seed;
                pick = int_of_f64 (fmul d (f64_of_int (int cohortEnd)));
                pick = (if pick \<ge> int cohortEnd then int cohortEnd - 1 else pick)
            in (if pick \<noteq> 0 then swap_first cs (nat pick) else cs, seed, d, ''randomized''))"

text \<open>The index of the first candidate of the entry's provider.\<close>

fun find_index :: "('a \<Rightarrow> bool) \<Rightarrow> 'a list \<Rightarrow> nat option" where
  "find_index P [] = None"
| "find_index P (x # xs) = (if P x then Some 0 else map_option Suc (find_index P xs))"

definition applySticky ::
  "Server \<Rightarrow> time \<Rightarrow> headers \<Rightarrow> ModelClassConfig option \<Rightarrow> Provider list \<Rightarrow> scores option \<Rightarrow> Server \<times> Provider list \<times> string \<times> string" where
  "applySticky s now h cl cs cache =
    (if \<not> stickyEnabled s \<or> hasPinnedRoute h then (s, cs, ''disabled'', [])
     else if cs = [] then (s, cs, ''miss'', ''provider_not_candidate'')
     else let key = TrimSpace (header_Get h ''X-MacProvider-Internal-Conv'') in
       if \<not> HasPrefix key ''conv:'' then (s, cs, ''no_key'', [])
       else let (m, res) = Lookup now key (stickyMap s); s = s\<lparr>stickyMap := m\<rparr> in
         case lr_Entry res of
           None \<Rightarrow> (s, cs, ''miss'', MissReason res)
         | Some e \<Rightarrow>
             (case find_index (\<lambda>c. ProviderID c = e_ProviderID e) cs of
                None \<Rightarrow> (s, cs, ''miss'', ''provider_not_candidate'')
              | Some i \<Rightarrow>
                  if i = 0 then (s, cs, ''hit'', [])
                  else if \<not> inEpsilonCohort s (cs ! 0) (cs ! i) (objectiveForRequest h cl) cs cache
                  then (s, cs, ''miss'', ''outside_epsilon'')
                  else (s, swap_first cs i, ''hit'', [])))"

definition stickyStore :: "Server \<Rightarrow> time \<Rightarrow> headers \<Rightarrow> Provider \<Rightarrow> string \<Rightarrow> Server \<times> bool" where
  "stickyStore s now h p modelScope =
    (if \<not> stickyEnabled s \<or> hasPinnedRoute h then (s, False)
     else let key = TrimSpace (header_Get h ''X-MacProvider-Internal-Conv'') in
       if \<not> HasPrefix key ''conv:'' then (s, False)
       else let (m, mismatch) = Update now key (header_Get h ''X-MacProvider-Account'') (ProviderID p) modelScope (stickyMap s)
            in (s\<lparr>stickyMap := m\<rparr>, mismatch))"

text \<open>The ranking that \<open>selectProviderExcluding\<close> and \<open>trySelectQueuedProvider\<close> share.\<close>

definition order_candidates ::
  "Server \<Rightarrow> time \<Rightarrow> string \<Rightarrow> string \<Rightarrow> headers \<Rightarrow> ModelClassConfig option \<Rightarrow> string \<Rightarrow> Provider list \<Rightarrow> Server \<times> Provider list \<times> string \<times> string" where
  "order_candidates s now today requestID h cl dailyKey cs =
    (let objective = objectiveForRequest h cl;
         (cs, cache) = sortCandidates s cs objective;
         (s, cs, stickyResult, missReason) = applySticky s now h cl cs cache
     in (s, if stickyResult \<noteq> ''hit'' then fst (applyRandomTiebreak s today requestID cs objective dailyKey cache) else cs,
         stickyResult, missReason))"


section \<open>Preflight and pinned providers\<close>

definition preflightCandidate :: "Server \<Rightarrow> Provider \<Rightarrow> string \<Rightarrow> int \<Rightarrow> routeError + Provider" where
  "preflightCandidate s p requestID est =
    (case preflight s of
       None \<Rightarrow> Inr p
     | Some call \<Rightarrow>
         if est \<le> preflightThreshold s then Inr p
         else case call p requestID est of
             None \<Rightarrow> Inl (route_error 503 ''preflight_rejected'' ''Provider preflight timed out'' [])
           | Some r \<Rightarrow>
               if \<not> Accepted r
               then Inl (route_error 503 ''preflight_rejected''
                      (''Provider rejected preflight'' @ (if pf_Reason r \<noteq> [] then '': '' @ pf_Reason r else [])) [])
               else Inr p)"

definition validatePinnedProviderForRequest ::
  "Server \<Rightarrow> Provider \<Rightarrow> string \<Rightarrow> int \<Rightarrow> string \<Rightarrow> ModelClassConfig option \<Rightarrow> routeError + Provider" where
  "validatePinnedProviderForRequest s p model est unavailable cl =
    (if \<not> providerMatchesRequest p model cl
     then Inl (route_error 404 ''model_not_found'' ''Pinned provider serves different model'' [])
     else if \<not> providerMeetsModelVersionFloor s p
     then Inl (route_error 503 ''model_version_floor_unmet''
            (''Pinned provider `'' @ ProviderID p @ ''` runs a binary below the minimum version required for model `''
             @ ModelID p @ ''` (>= '' @ modelVersionFloorFor s p @ '').'') ''server_error'')
     else if MaxContextTokens (p_Capacity p) < est
     then Inl (route_error 413 ''context_exceeds_capacity'' ''Request exceeds pinned provider context capacity'' [])
     else if \<not> RoutingEligible p then Inl (route_error 503 ''no_provider_available'' unavailable [])
     else if (case s_slotQueue s of None \<Rightarrow> False | Some q \<Rightarrow> blocksProvider (ProviderID p) (slots_free p) q)
     then Inl (route_error 503 ''no_provider_available'' unavailable [])
     else if tier2ProviderExcluded s p
     then Inl (route_error 400 ''tier2_hard_pin_predicate_failed''
            (''Hard-pinned provider `'' @ ProviderID p @ ''` does not satisfy enabled Tier-2 predicates.'') ''invalid_request'')
     else Inr p)"

definition select_pinned ::
  "Server \<Rightarrow> time \<Rightarrow> string \<Rightarrow> string \<Rightarrow> int \<Rightarrow> string \<Rightarrow> ModelClassConfig option \<Rightarrow> Provider \<Rightarrow> routeError + Provider" where
  "select_pinned s now requestID model est unavailable cl p =
    (case validatePinnedProviderForRequest s p model est unavailable cl of
       Inl e \<Rightarrow> Inl e
     | Inr p \<Rightarrow>
         if \<not> checkQuota s now p
         then Inl (route_error 429 ''provisional_quota_exceeded'' ''Pinned provisional provider is over request quota'' [])
         else preflightCandidate s p requestID est)"



section \<open>The slot queue\<close>

text \<open>The part of \<open>forwardState\<close> that selection writes (the wait time is a measurement and left out).\<close>

record forwardState =
  queuedSlotProviderID :: string
  stickyResult :: string
  stickyMissReason :: string

datatype queuedProviderStatus = queuedProviderWait | queuedProviderAvailable | queuedProviderTerminal

text \<open>What a poll sees: the time, the pool snapshot, what other requests did to the queue since the
  previous poll, and whether the wait context is done when the poll finds nothing.\<close>

record poll =
  pl_now :: time
  pl_snapshot :: "Provider list"
  pl_others :: "slotQueue \<Rightarrow> slotQueue"
  pl_done :: bool

definition pollQueuedProvider ::
  "Server \<Rightarrow> time \<Rightarrow> Provider list \<Rightarrow> slotWaiter \<Rightarrow> string \<Rightarrow> ModelClassConfig option \<Rightarrow> int \<Rightarrow> slotQueue \<Rightarrow>
    slotQueue \<times> Provider option \<times> queuedProviderStatus" where
  "pollQueuedProvider s now ps w model cl est q =
    (if \<not> head (Some w) q then (q, None, queuedProviderWait)
     else case find (\<lambda>p. ProviderID p = w_providerID w) ps of
         None \<Rightarrow> (q, None, queuedProviderTerminal)
       | Some p \<Rightarrow>
           if \<not> providerMatchesRequest p model cl \<or> MaxContextTokens (p_Capacity p) < est then (q, None, queuedProviderTerminal)
           else if \<not> providerMeetsModelVersionFloor s p then (q, None, queuedProviderTerminal)
           else if \<not> CapacityEligible p \<or> p_State p \<noteq> StateReady \<or> tier2ProviderExcluded s p \<or> \<not> checkQuota s now p
           then (q, None, queuedProviderTerminal)
           else if slots_free p \<le> 0 then (q, None, queuedProviderWait)
           else if \<not> RoutingEligible p then (q, None, queuedProviderTerminal)
           else (case reserveHead (Some w) (slots_free p) q of
               (q, False) \<Rightarrow> (q, None, queuedProviderWait)
             | (q, True) \<Rightarrow> (q, Some p, queuedProviderAvailable)))"

datatype wait_result = WaitAvailable Provider | WaitTerminal | WaitDeadline

text \<open>The inner loop on one waiter. It ends with an answer of the poll or when the wait context is done;
  \<open>leave\<close> runs on every way out.\<close>

fun wait_loop :: "Server \<Rightarrow> slotWaiter \<Rightarrow> string \<Rightarrow> ModelClassConfig option \<Rightarrow> int \<Rightarrow> poll list \<Rightarrow> slotQueue \<Rightarrow>
    slotQueue \<times> poll list \<times> wait_result" where
  "wait_loop s w model cl est [] q = (leave (Some w) q, [], WaitDeadline)"
| "wait_loop s w model cl est (pl # pls) q =
    (case pollQueuedProvider s (pl_now pl) (pl_snapshot pl) w model cl est (pl_others pl q) of
       (q, Some p, queuedProviderAvailable) \<Rightarrow> (leave (Some w) q, pls, WaitAvailable p)
     | (q, _, queuedProviderTerminal) \<Rightarrow> (leave (Some w) q, pls, WaitTerminal)
     | (q, _, _) \<Rightarrow> if pl_done pl then (leave (Some w) q, pls, WaitDeadline) else wait_loop s w model cl est pls q)"

declare wait_loop.simps(2) [simp del]

lemma wait_loop_shorter: "wait_loop s w model cl est (pl # pls) q = (q', pls', r) \<Longrightarrow> length pls' \<le> length pls"
proof (induction pls arbitrary: pl q)
  case Nil
  then show ?case by (auto simp: wait_loop.simps(2) split: prod.splits option.splits queuedProviderStatus.splits if_splits)
next
  case (Cons p2 pls)
  then show ?case unfolding wait_loop.simps(2) [of s w model cl est pl]
    by (auto split: prod.splits option.splits queuedProviderStatus.splits if_splits dest!: Cons.IH)
qed

lemma wait_loop_le: "wait_loop s w model cl est pls q = (q', pls', r) \<Longrightarrow> length pls' \<le> length pls"
  by (cases pls) (auto dest: wait_loop_shorter)

lemma wait_loop_less: "wait_loop s w model cl est pls q = (q', pls', r) \<Longrightarrow> r \<noteq> WaitDeadline \<Longrightarrow> length pls' < length pls"
  by (cases pls) (auto dest: wait_loop_shorter simp: less_Suc_eq_le)

definition unavailable_error :: "string \<Rightarrow> routeError" where
  "unavailable_error model = route_error 503 ''no_provider_available'' (''No provider available for model '' @ model) []"

text \<open>The outer loop over candidates that were not tried yet. The third result is whether a waiter was
  ever enqueued.\<close>

function queue_loop :: "Server \<Rightarrow> string \<Rightarrow> string \<Rightarrow> ModelClassConfig option \<Rightarrow> int \<Rightarrow> string list \<Rightarrow> string list \<Rightarrow>
    routeError option \<Rightarrow> poll list \<Rightarrow> slotQueue \<Rightarrow> slotQueue \<times> (routeError + Provider) option" where
  "queue_loop s requestID model cl est candidates tried lastErr pls q =
    (let fin = Some (Inl (case lastErr of Some e \<Rightarrow> e | None \<Rightarrow> unavailable_error model)) in
     if \<not> length (remdups tried) < length candidates then (q, fin)
     else case enterBest candidates (set tried) q of
         (q, None) \<Rightarrow> (q, if tried = [] then None else fin)
       | (q, Some w) \<Rightarrow>
           (case wait_loop s w model cl est pls q of
              (q, pls', WaitAvailable p) \<Rightarrow>
                (case preflightCandidate s p requestID est of
                   Inl e \<Rightarrow> queue_loop s requestID model cl est candidates (ProviderID p # tried) (Some e) pls'
                       (releaseReservation (ProviderID p) q)
                 | Inr sel \<Rightarrow> (q, Some (Inr sel)))
            | (q, pls', WaitTerminal) \<Rightarrow>
                queue_loop s requestID model cl est candidates (w_providerID w # tried) lastErr pls' q
            | (q, pls', WaitDeadline) \<Rightarrow> (q, Some (Inl (unavailable_error model)))))"
  by auto
termination
  by (relation "measure (\<lambda>(s, r, m, cl, est, cs, tried, e, pls, q). length pls)") (auto dest: wait_loop_less sym)

declare queue_loop.simps [simp del]


type_synonym selection = "Server \<times> forwardState option \<times> (routeError + Provider)"

text \<open>\<open>None\<close> stands for \<open>queued = false\<close>.\<close>

definition trySelectQueuedProvider ::
  "Server \<Rightarrow> time \<Rightarrow> string \<Rightarrow> string \<Rightarrow> string \<Rightarrow> Provider list \<Rightarrow> headers \<Rightarrow> ModelClassConfig option \<Rightarrow> string \<Rightarrow> int \<Rightarrow>
    poll list \<Rightarrow> forwardState option \<Rightarrow> Server \<times> forwardState option \<times> (routeError + Provider) option" where
  "trySelectQueuedProvider s now today requestID model cs h cl dailyKey est pls state =
    (case (s_slotQueue s, state) of
       (Some q0, Some st) \<Rightarrow>
         if cs = [] then (s, state, None)
         else (let (s, ordered, sticky, miss) = order_candidates s now today requestID h cl dailyKey cs
               in case queue_loop s requestID model cl est (map ProviderID ordered) [] None pls q0 of
                    (q, Some (Inr p)) \<Rightarrow> (s\<lparr>s_slotQueue := Some q\<rparr>,
                       Some (st\<lparr>queuedSlotProviderID := ProviderID p, stickyResult := sticky, stickyMissReason := miss\<rparr>), Some (Inr p))
                  | (q, r) \<Rightarrow> (s\<lparr>s_slotQueue := Some q\<rparr>, state, r))
     | _ \<Rightarrow> (s, state, None))"

definition providerSlotQueueEligible :: "Provider \<Rightarrow> bool" where
  "providerSlotQueueEligible p \<longleftrightarrow> CapacityEligible p \<and> p_State p = StateReady
     \<and> SlotsTotal (p_Capacity p) > 0 \<and> slots_free p = 0"

definition slotQueueCandidates :: "Provider list \<Rightarrow> Excluded \<Rightarrow> eligibilityCtx \<Rightarrow> Provider list" where
  "slotQueueCandidates ps excluded c = filter (\<lambda>p.
     \<not> Has (SortKey p) excluded \<and> providerSlotQueueEligible p
     \<and> providerMatchesRequest p (ctx_model c) (ctx_class c) \<and> ctx_ProviderContextSufficient c p
     \<and> providerMeetsModelVersionFloor (ctx_s c) p
     \<and> fst (ctx_Tier2Decision c p) = None \<and> checkQuota (ctx_s c) (ctx_now c) p) ps"

definition splitQueuedCandidates :: "Server \<Rightarrow> Provider list \<Rightarrow> Provider list \<times> Provider list" where
  "splitQueuedCandidates s cs = (case s_slotQueue s of None \<Rightarrow> (cs, [])
     | Some q \<Rightarrow> (filter (\<lambda>p. \<not> blocksProvider (ProviderID p) (slots_free p) q) cs,
                 filter (\<lambda>p. blocksProvider (ProviderID p) (slots_free p) q) cs))"

definition releaseQueuedSlotReservation :: "Server \<Rightarrow> forwardState option \<Rightarrow> Server \<times> forwardState option" where
  "releaseQueuedSlotReservation s state = (case (state, s_slotQueue s) of
     (Some st, Some q) \<Rightarrow> if queuedSlotProviderID st = [] then (s, state)
        else (s\<lparr>s_slotQueue := Some (releaseReservation (queuedSlotProviderID st) q)\<rparr>, Some (st\<lparr>queuedSlotProviderID := []\<rparr>))
   | _ \<Rightarrow> (s, state))"


section \<open>Selection\<close>

text \<open>The error for an empty candidate list, in the order of the code's tests.\<close>

definition no_candidate_error :: "Tier2Config \<Rightarrow> string \<Rightarrow> FilterResult \<Rightarrow> routeError" where
  "no_candidate_error t2 model res =
    (if PreQuotaCount res > 0 \<and> Counts res ReasonQuotaBlocked = PreQuotaCount res
     then route_error 429 ''provisional_quota_exceeded'' ''All otherwise eligible provisional providers are over request quota'' []
     else if Counts res ReasonContextTooSmall > 0
     then route_error 413 ''context_exceeds_capacity'' ''Request exceeds provider context capacity'' []
     else if RequireHashVerified t2 \<and> (Counts res ReasonTier2HashRequired > 0 \<or> HashMismatches res \<noteq> [])
     then route_error 503 ''tier2_hash_verified_required'' (''No hash-verified provider available for model `'' @ model @ ''`.'') ''server_error''
     else if HashMismatches res \<noteq> []
     then route_error 503 ''tier2_hash_mismatch''
       (''Provider `'' @ ProviderID (rj_Provider (hd (HashMismatches res))) @ ''` hash verification failed; excluded from pool.'') ''server_error''
     else if Counts res ReasonTier2EncryptedLeg > 0
     then route_error 503 ''tier2_encrypted_leg_required'' (''No encrypted provider leg available for model `'' @ model @ ''`.'') ''server_error''
     else if Counts res ReasonTier2Attestation > 0
     then route_error 503 ''tier2_attestation_required'' (''No attested provider available for model `'' @ model @ ''`.'') ''server_error''
     else if Counts res ReasonModelVersionFloor > 0
     then route_error 503 ''model_version_floor_unmet''
       (''No provider running a new enough binary is available for model `'' @ model @ ''`.'') ''server_error''
     else unavailable_error model)"

text \<open>The last loop: the first candidate that passes preflight.\<close>

fun first_preflight :: "Server \<Rightarrow> string \<Rightarrow> int \<Rightarrow> Provider list \<Rightarrow> Provider option" where
  "first_preflight s requestID est [] = None"
| "first_preflight s requestID est (c # cs) =
    (case preflightCandidate s c requestID est of Inr p \<Rightarrow> Some p | Inl e \<Rightarrow> first_preflight s requestID est cs)"

definition selectProviderExcluding ::
  "Server \<Rightarrow> time \<Rightarrow> string \<Rightarrow> Provider list \<Rightarrow> poll list \<Rightarrow> string \<Rightarrow> string \<Rightarrow> string \<Rightarrow> headers \<Rightarrow> string list \<Rightarrow> string \<Rightarrow>
    forwardState option \<Rightarrow> selection" where
  "selectProviderExcluding s now today providers pls requestID model raw h excluded dailyKey state =
    (let est = estimateTokens raw;
         cl = classForRequest s model providers;
         session = header_Get h ''X-MacProvider-Session'';
         providerID = header_Get h ''X-MacProvider-Provider''
     in if hasInternalRoutingHeader h \<and> \<not> internalBearerAuthorized s h
     then (s, state, Inl (route_error 400 ''invalid_request'' ''Internal routing header is not accepted on the buyer port'' []))
     else if session \<noteq> []
     then (s, state, case find (\<lambda>p. AssignedID p = session) providers of
             Some p \<Rightarrow> select_pinned s now requestID model est ''Pinned session not available'' cl p
           | None \<Rightarrow> Inl (route_error 503 ''session_ended'' ''Pinned session has ended'' []))
     else if providerID \<noteq> []
     then (s, state, case find (\<lambda>p. ProviderID p = providerID) providers of
             Some p \<Rightarrow> select_pinned s now requestID model est ''Pinned provider not available'' cl p
           | None \<Rightarrow> Inl (route_error 503 ''no_provider_available'' ''Pinned provider not in pool'' []))
     else
       let exSet = fold AddKey excluded (NewExcluded (int (length excluded)));
           checker = \<lparr>ctx_s = s, ctx_now = now, ctx_model = model, ctx_class = cl, ctx_estimatedTokens = est\<rparr>;
           result = EligibleCandidates providers exSet SortKey (checker_of checker);
           (candidates, queued) = splitQueuedCandidates s (Eligible result)
       in if candidates = []
       then let queued = queued @ slotQueueCandidates providers exSet checker in
         case (if queued = [] then (s, state, None)
               else trySelectQueuedProvider s now today requestID model queued h cl dailyKey est pls state) of
           (s', state', Some r) \<Rightarrow> (s', state', r)
         | (s', state', None) \<Rightarrow> (s', state', Inl (no_candidate_error (s_tier2 s) model result))
       else let (s', ordered, sticky, miss) = order_candidates s now today requestID h cl dailyKey candidates in
         case first_preflight s' requestID est ordered of
           Some p \<Rightarrow> (s', map_option (\<lambda>st. if sticky = ''hit'' \<and> ProviderID p \<noteq> ProviderID (hd ordered)
               then st\<lparr>stickyResult := ''miss'', stickyMissReason := ''provider_not_candidate''\<rparr>
               else st\<lparr>stickyResult := sticky, stickyMissReason := miss\<rparr>) state, Inr p)
         | None \<Rightarrow> (s', state, Inl (route_error 503 ''preflight_rejected'' ''All providers rejected the request'' [])))"

definition failoverCandidate ::
  "Server \<Rightarrow> time \<Rightarrow> string \<Rightarrow> Provider list \<Rightarrow> poll list \<Rightarrow> string \<Rightarrow> string \<Rightarrow> string \<Rightarrow> headers \<Rightarrow> Provider \<Rightarrow> string list \<Rightarrow> string \<Rightarrow>
    forwardState option \<Rightarrow> Server \<times> forwardState option \<times> string list \<times> Provider option" where
  "failoverCandidate s now today providers pls requestID model raw h failed excluded dailyKey state =
    (if \<not> failoverEnabled s \<or> hasPinnedRoute h then (s, state, excluded, None)
     else let excluded = List.insert (SortKey failed) excluded;
              h = header_Del ''X-MacProvider-Session'' (header_Del ''X-MacProvider-Provider'' h)
          in case selectProviderExcluding s now today providers pls requestID model raw h excluded dailyKey state of
               (s, state, Inl e) \<Rightarrow> (s, state, excluded, None)
             | (s, state, Inr p) \<Rightarrow> (s, state, excluded, Some p))"



section \<open>What a selected provider satisfies\<close>

definition admissible :: "Server \<Rightarrow> time \<Rightarrow> string \<Rightarrow> ModelClassConfig option \<Rightarrow> int \<Rightarrow> Provider \<Rightarrow> bool" where
  "admissible s now model cl est p \<longleftrightarrow> RoutingEligible p \<and> providerMatchesRequest p model cl
     \<and> providerMeetsModelVersionFloor s p \<and> est \<le> MaxContextTokens (p_Capacity p)
     \<and> \<not> tier2ProviderExcluded s p \<and> checkQuota s now p"

definition passes_preflight :: "Server \<Rightarrow> string \<Rightarrow> int \<Rightarrow> Provider \<Rightarrow> bool" where
  "passes_preflight s requestID est p \<longleftrightarrow> preflightCandidate s p requestID est = Inr p"

lemma preflight_same: "preflightCandidate s p requestID est = Inr q \<Longrightarrow> q = p"
  by (auto simp: preflightCandidate_def split: option.splits if_splits)

lemma gates_sticky [simp]:
  "admissible (s\<lparr>stickyMap := m\<rparr>) = admissible s" "passes_preflight (s\<lparr>stickyMap := m\<rparr>) = passes_preflight s"
  "preflightCandidate (s\<lparr>stickyMap := m\<rparr>) = preflightCandidate s"
  by (simp_all add: fun_eq_iff admissible_def passes_preflight_def preflightCandidate_def providerMeetsModelVersionFloor_def
      tier2ProviderExcluded_def checkQuota_def cong: option.case_cong)

lemma mset_swap_first: "i < length xs \<Longrightarrow> mset (swap_first xs i) = mset xs"
  unfolding swap_first_def by (rule mset_swap) auto

lemma find_index_Some: "find_index P xs = Some i \<Longrightarrow> i < length xs \<and> P (xs ! i)"
  by (induction xs arbitrary: i) (auto split: if_splits)

lemma applyRandomTiebreak_mset: "mset (fst (applyRandomTiebreak s today requestID cs objective dailyKey cache)) = mset cs"
proof -
  let ?n = "1 + length (takeWhile (\<lambda>c. inEpsilonCohort s (cs ! 0) c objective cs cache) (tl cs))"
  have "nat p < length cs" if "p < int ?n" "length cs \<ge> 2" for p
    using that length_takeWhile_le [of "\<lambda>c. inEpsilonCohort s (cs ! 0) c objective cs cache" "tl cs"] by auto
  then show ?thesis by (auto simp: applyRandomTiebreak_def Let_def mset_swap_first)
qed

lemma applySticky_spec:
  "\<exists>m cs' r miss. applySticky s now h cl cs cache = (s\<lparr>stickyMap := m\<rparr>, cs', r, miss) \<and> mset cs' = mset cs"
proof -
  let ?k = "TrimSpace (header_Get h ''X-MacProvider-Internal-Conv'')"
  have id: "s\<lparr>stickyMap := stickyMap s\<rparr> = s" by simp
  obtain m res where l: "Lookup now ?k (stickyMap s) = (m, res)" by fastforce
  show ?thesis
  proof (cases "\<not> stickyEnabled s \<or> hasPinnedRoute h \<or> cs = [] \<or> \<not> HasPrefix ?k ''conv:''")
    case True
    then show ?thesis by (intro exI [of _ "stickyMap s"]) (auto simp: applySticky_def Let_def id)
  next
    case False
    then show ?thesis using l
      by (intro exI [of _ m]) (auto simp: applySticky_def Let_def mset_swap_first split: option.split dest: find_index_Some)
  qed
qed

lemma order_candidates_spec:
  "\<exists>m ordered r miss. order_candidates s now today requestID h cl dailyKey cs = (s\<lparr>stickyMap := m\<rparr>, ordered, r, miss)
     \<and> mset ordered = mset cs"
proof -
  let ?o = "objectiveForRequest h cl"
  obtain cs1 cache where so: "sortCandidates s cs ?o = (cs1, cache)" by fastforce
  then have "mset cs1 = mset cs" using SortCandidates_mset [of cs ?o "weights_of s" None] by (simp add: sortCandidates_def)
  moreover obtain m cs' r miss where "applySticky s now h cl cs1 cache = (s\<lparr>stickyMap := m\<rparr>, cs', r, miss)" "mset cs' = mset cs1"
    using applySticky_spec by blast
  ultimately show ?thesis using so by (auto simp: order_candidates_def Let_def applyRandomTiebreak_mset)
qed

lemma first_preflight_sticky [simp]:
  "first_preflight (s\<lparr>stickyMap := m\<rparr>) requestID est xs = first_preflight s requestID est xs"
  by (induction xs) (simp_all cong: sum.case_cong)

lemma first_preflight_Some:
  "first_preflight s requestID est cs = Some p \<Longrightarrow> p \<in> set cs \<and> passes_preflight s requestID est p"
  by (induction cs) (auto simp: passes_preflight_def split: sum.splits dest: preflight_same)

lemma poll_available:
  "pollQueuedProvider s now ps w model cl est q = (q', Some p, st) \<Longrightarrow> p \<in> set ps \<and> admissible s now model cl est p"
  by (auto simp: pollQueuedProvider_def admissible_def find_Some_iff split: if_splits option.splits prod.splits bool.splits)

lemma wait_loop_available:
  "wait_loop s w model cl est pls q = (q', pls', WaitAvailable p) \<Longrightarrow>
    \<exists>pl\<in>set pls. p \<in> set (pl_snapshot pl) \<and> admissible s (pl_now pl) model cl est p"
proof (induction pls arbitrary: q)
  case (Cons pl pls)
  obtain q1 r st where poll: "pollQueuedProvider s (pl_now pl) (pl_snapshot pl) w model cl est (pl_others pl q) = (q1, r, st)"
    using prod_cases3 by blast
  then show ?case using Cons.prems Cons.IH [of q1] poll_available [of s "pl_now pl" "pl_snapshot pl" w model cl est]
    by (cases r; cases st) (auto simp: wait_loop.simps(2) split: if_splits)
qed simp

lemma wait_loop_rest: "wait_loop s w model cl est pls q = (q', pls', r) \<Longrightarrow> set pls' \<subseteq> set pls"
proof (induction pls arbitrary: q)
  case (Cons pl pls)
  obtain q1 r' st where poll: "pollQueuedProvider s (pl_now pl) (pl_snapshot pl) w model cl est (pl_others pl q) = (q1, r', st)"
    using prod_cases3 by blast
  then show ?case using Cons.prems Cons.IH [of q1]
    by (cases r'; cases st) (auto simp: wait_loop.simps(2) split: if_splits)
qed simp

lemma queue_loop_enter:
  assumes "length (remdups tried) < length cs" "enterBest cs (set tried) q = (q1, Some w)"
    "wait_loop s w model cl est pls q1 = (q2, pls', wr)"
  shows "queue_loop s requestID model cl est cs tried lastErr pls q = (case wr of
      WaitAvailable p \<Rightarrow> (case preflightCandidate s p requestID est of
          Inl e \<Rightarrow> queue_loop s requestID model cl est cs (ProviderID p # tried) (Some e) pls' (releaseReservation (ProviderID p) q2)
        | Inr sel \<Rightarrow> (q2, Some (Inr sel)))
    | WaitTerminal \<Rightarrow> queue_loop s requestID model cl est cs (w_providerID w # tried) lastErr pls' q2
    | WaitDeadline \<Rightarrow> (q2, Some (Inl (unavailable_error model))))"
  using assms by (subst queue_loop.simps) (cases wr; simp add: Let_def)

lemma queue_loop_entered:
  assumes "queue_loop s requestID model cl est cs tried lastErr pls q = (q', Some (Inr p))"
  obtains q1 w where "length (remdups tried) < length cs" "enterBest cs (set tried) q = (q1, Some w)"
proof -
  obtain q1 r where eb: "enterBest cs (set tried) q = (q1, r)" by fastforce
  show thesis
  proof (cases "length (remdups tried) < length cs \<and> r \<noteq> None")
    case True
    then show thesis using that eb by auto
  next
    case False
    then have "snd (queue_loop s requestID model cl est cs tried lastErr pls q) \<noteq> Some (Inr p)"
      using eb by (subst queue_loop.simps) (auto simp: Let_def)
    then show thesis using assms by simp
  qed
qed

lemma queue_loop_selected:
  "queue_loop s requestID model cl est cs tried lastErr pls q = (q', Some (Inr p)) \<Longrightarrow>
    passes_preflight s requestID est p \<and> (\<exists>pl\<in>set pls. p \<in> set (pl_snapshot pl) \<and> admissible s (pl_now pl) model cl est p)"
proof (induction "length pls" arbitrary: tried lastErr pls q rule: less_induct)
  case less
  obtain q1 w where eb: "length (remdups tried) < length cs" "enterBest cs (set tried) q = (q1, Some w)"
    using queue_loop_entered [OF less.prems] .
  obtain q2 pls' wr where wl: "wait_loop s w model cl est pls q1 = (q2, pls', wr)" using prod_cases3 by blast
  note step = less.prems [unfolded queue_loop_enter [OF eb wl]]
  have sub: "set pls' \<subseteq> set pls" by (rule wait_loop_rest [OF wl])
  show ?case
  proof (cases wr)
    case (WaitAvailable p')
    show ?thesis
    proof (cases "preflightCandidate s p' requestID est")
      case (Inl e)
      have short: "length pls' < length pls" using wait_loop_less [OF wl] WaitAvailable by simp
      from less.hyps [OF short] step WaitAvailable Inl sub show ?thesis by fastforce
    next
      case (Inr sel)
      then have "p = p'" using step WaitAvailable preflight_same [OF Inr] by simp
      then show ?thesis using Inr preflight_same [OF Inr] wait_loop_available [OF wl [unfolded WaitAvailable]]
        by (simp add: passes_preflight_def)
    qed
  next
    case WaitTerminal
    have short: "length pls' < length pls" using wait_loop_less [OF wl] WaitTerminal by simp
    from less.hyps [OF short] step WaitTerminal sub show ?thesis by fastforce
  next
    case WaitDeadline
    then show ?thesis using step by simp
  qed
qed



section \<open>Properties\<close>

lemma find_in_set: "find P xs = Some x \<Longrightarrow> x \<in> set xs \<and> P x"
  by (auto simp: find_Some_iff)

lemma fold_AddKey: "fold AddKey ks (Some xs) = Some (set ks \<union> xs)"
  by (induction ks arbitrary: xs) (auto simp: AddKey_def)

abbreviation request_ctx :: "Server \<Rightarrow> time \<Rightarrow> string \<Rightarrow> string \<Rightarrow> Provider list \<Rightarrow> eligibilityCtx" where
  "request_ctx s now model raw ps \<equiv> \<lparr>ctx_s = s, ctx_now = now, ctx_model = model,
     ctx_class = classForRequest s model ps, ctx_estimatedTokens = estimateTokens raw\<rparr>"

lemma Eligible_admissible:
  assumes "p \<in> set (Eligible (EligibleCandidates ps excluded SortKey (checker_of (request_ctx s now model raw ps))))"
  shows "p \<in> set ps \<and> \<not> Has (SortKey p) excluded
    \<and> admissible s now model (classForRequest s model ps) (estimateTokens raw) p"
  using buyer.eligible_routable [OF assms] tier2_gates_agree [of "request_ctx s now model raw ps" p]
  by (auto simp: checker_of_def admissible_def ctx_ProviderMatchesRequest_def ctx_ProviderContextSufficient_def)

lemma select_pinned_Inr:
  assumes "select_pinned s now requestID model est msg cl p = Inr q"
  shows "q = p \<and> admissible s now model cl est p \<and> passes_preflight s requestID est p"
proof -
  have "validatePinnedProviderForRequest s p model est msg cl = Inr p \<and> checkQuota s now p \<and> preflightCandidate s p requestID est = Inr q"
    using assms by (auto simp: select_pinned_def validatePinnedProviderForRequest_def split: if_splits)
  then show ?thesis using preflight_same [of s p requestID est q]
    by (auto simp: validatePinnedProviderForRequest_def admissible_def passes_preflight_def split: if_splits)
qed

lemma trySelectQueued_Inr:
  assumes "trySelectQueuedProvider s now today requestID model cs h cl dailyKey est pls state = (s', state', Some (Inr p))"
  shows "passes_preflight s requestID est p \<and> (\<exists>pl\<in>set pls. p \<in> set (pl_snapshot pl) \<and> admissible s (pl_now pl) model cl est p)"
proof -
  obtain m ordered r miss where o: "order_candidates s now today requestID h cl dailyKey cs = (s\<lparr>stickyMap := m\<rparr>, ordered, r, miss)"
    using order_candidates_spec by blast
  from assms obtain q0 where q0: "s_slotQueue s = Some q0" by (auto simp: trySelectQueuedProvider_def split: option.splits)
  obtain q res where ql: "queue_loop (s\<lparr>stickyMap := m\<rparr>) requestID model cl est (map ProviderID ordered) [] None pls q0 = (q, res)" by fastforce
  have "res = Some (Inr p)"
    using assms q0 o ql by (auto simp: trySelectQueuedProvider_def Let_def split: option.splits if_splits sum.splits)
  then show ?thesis using queue_loop_selected [OF ql [unfolded \<open>res = Some (Inr p)\<close>]] by simp
qed

text \<open>Without a pin the provider comes from the slot queue or from the ranked candidates.\<close>

lemma select_unpinned:
  assumes "selectProviderExcluding s now today ps pls requestID model raw h excluded dailyKey state = (s', state', Inr p)"
    and "header_Get h ''X-MacProvider-Session'' = []" "header_Get h ''X-MacProvider-Provider'' = []"
  shows "(\<exists>qc. trySelectQueuedProvider s now today requestID model qc h (classForRequest s model ps) dailyKey
             (estimateTokens raw) pls state = (s', state', Some (Inr p)))
    \<or> (passes_preflight s requestID (estimateTokens raw) p \<and> s_slotQueue s' = s_slotQueue s
        \<and> p \<in> set (Eligible (EligibleCandidates ps (Some (set excluded)) SortKey (checker_of (request_ctx s now model raw ps)))))"
proof -
  let ?est = "estimateTokens raw" and ?cl = "classForRequest s model ps"
  let ?res = "EligibleCandidates ps (Some (set excluded)) SortKey (checker_of (request_ctx s now model raw ps))"
  have auth: "\<not> (hasInternalRoutingHeader h \<and> \<not> internalBearerAuthorized s h)"
  proof
    assume "hasInternalRoutingHeader h \<and> \<not> internalBearerAuthorized s h"
    then show False using assms by (simp add: selectProviderExcluding_def Let_def)
  qed
  have ex: "fold AddKey excluded (NewExcluded n) = Some (set excluded)" for n by (simp add: NewExcluded_def fold_AddKey)
  obtain cs queued where sp: "splitQueuedCandidates s (Eligible ?res) = (cs, queued)" by fastforce
  obtain m ordered r miss where o: "order_candidates s now today requestID h ?cl dailyKey cs = (s\<lparr>stickyMap := m\<rparr>, ordered, r, miss)"
    "mset ordered = mset cs" using order_candidates_spec by blast
  have sub: "set cs \<subseteq> set (Eligible ?res)" using sp by (auto simp: splitQueuedCandidates_def split: option.splits)
  show ?thesis
  proof (cases "cs = []")
    case True
    then show ?thesis using assms auth sp
      by (auto simp: selectProviderExcluding_def Let_def ex split: option.splits prod.splits if_splits)
  next
    case ne: False
    then have "first_preflight s requestID ?est ordered = Some p" "s' = s\<lparr>stickyMap := m\<rparr>"
      using assms auth sp o by (auto simp: selectProviderExcluding_def Let_def ex split: option.splits)
    then have "p \<in> set ordered" "passes_preflight s requestID ?est p" "s_slotQueue s' = s_slotQueue s"
      using first_preflight_Some by auto
    then show ?thesis using o(2) sub mset_eq_setD by blast
  qed
qed

definition demo_server :: Server where
  "demo_server = \<lparr>modelVersionFloors = [(''qwen'', ''1.2.0'')], modelClasses = [], provisionalWeight = Fin 1, tiebreakRandomize = False,
     tiebreakEpsilon = Fin 0, stickyEnabled = False, stickyMap = NewMap 100 10,
     s_tier2 = \<lparr>ObserveEnabled = False, CatalogPath = [], RequireHashVerified = False, RequireEncryptedLeg = False, RequireAttestation = False\<rparr>,
     preflightThreshold = 1000, preflight = None, s_slotQueue = None,
     s_admission = Some (NewAdmissionManager \<lparr>PinnedOnly = False, ProvisionalAdmissionRatePerHour = 1, ProvisionalPoolMax = 1, ProvisionalQuotaPerHour = 0\<rparr>),
     gatewayServiceToken = [], failoverEnabled = True, sha256 = (\<lambda>x. x), draw = (\<lambda>_. Fin 0)\<rparr>"

definition demo_box :: "string \<Rightarrow> Tier \<Rightarrow> string \<Rightarrow> int \<Rightarrow> Provider" where
  "demo_box k tier version free = zeroProvider\<lparr>ProviderID := k, AssignedID := ''s'', ModelID := ''Qwen'', p_Tier := tier, p_State := StateReady,
     p_AuthState := AuthBearerValidated, BinaryVersion := version,
     p_Capacity := (p_Capacity zeroProvider)\<lparr>SlotsFree := free, SlotsTotal := 4, MaxContextTokens := 8192\<rparr>\<rparr>"

definition demo_pool :: "Provider list" where
  "demo_pool = [demo_box ''old'' TierPinned ''1.1.9'' 1, demo_box ''a'' TierPinned ''1.2.0'' 3, demo_box ''b'' TierPinned ''1.10.0'' 2,
     demo_box ''c'' TierProvisional ''1.2.0'' 1]"

abbreviation demo_select :: "Provider list \<Rightarrow> string list \<Rightarrow> selection" where
  "demo_select ps excluded \<equiv> selectProviderExcluding demo_server 7 ''2026-01-01'' ps [] ''r'' ''qwen'' ''hello'' [] excluded [] None"

text \<open>C14. Whatever path selection takes (pinned session, pinned provider, ranked candidates or the slot
  queue), a provider it returns was in the pool snapshot it was taken from, was routable there, serves
  the requested model or class, meets the version floor, fits the context, satisfies every enabled
  Tier-2 predicate, has quota left and passed preflight; a pin is honoured, and an excluded session is
  never selected from the ranked candidates.\<close>

theorem selected_provider_passes_every_gate:
  assumes "selectProviderExcluding s now today ps pls requestID model raw h excluded dailyKey state = (s', state', Inr p)"
  shows "passes_preflight s requestID (estimateTokens raw) p
    \<and> ((p \<in> set ps \<and> admissible s now model (classForRequest s model ps) (estimateTokens raw) p
         \<and> (if header_Get h ''X-MacProvider-Session'' \<noteq> [] then AssignedID p = header_Get h ''X-MacProvider-Session''
            else if header_Get h ''X-MacProvider-Provider'' \<noteq> [] then ProviderID p = header_Get h ''X-MacProvider-Provider''
            else SortKey p \<notin> set excluded))
      \<or> (\<not> hasPinnedRoute h \<and> (\<exists>pl\<in>set pls. p \<in> set (pl_snapshot pl)
           \<and> admissible s (pl_now pl) model (classForRequest s model ps) (estimateTokens raw) p)))"
proof -
  let ?est = "estimateTokens raw" and ?cl = "classForRequest s model ps"
  let ?session = "header_Get h ''X-MacProvider-Session''" and ?pid = "header_Get h ''X-MacProvider-Provider''"
  have auth: "\<not> (hasInternalRoutingHeader h \<and> \<not> internalBearerAuthorized s h)"
  proof
    assume "hasInternalRoutingHeader h \<and> \<not> internalBearerAuthorized s h"
    then show False using assms by (simp add: selectProviderExcluding_def Let_def)
  qed
  show ?thesis
  proof (cases "?session \<noteq> [] \<or> ?pid \<noteq> []")
    case True
    have "\<exists>q msg. q \<in> set ps \<and> select_pinned s now requestID model ?est msg ?cl q = Inr p
        \<and> (if ?session \<noteq> [] then AssignedID q = ?session else ProviderID q = ?pid)"
    proof (cases "?session \<noteq> []")
      case True
      then show ?thesis using assms auth
        by (cases "find (\<lambda>p. AssignedID p = ?session) ps") (auto simp: selectProviderExcluding_def Let_def dest!: find_in_set)
    next
      case False
      then show ?thesis using assms auth True
        by (cases "find (\<lambda>p. ProviderID p = ?pid) ps") (auto simp: selectProviderExcluding_def Let_def dest!: find_in_set)
    qed
    then show ?thesis using True select_pinned_Inr by fastforce
  next
    case False
    then have pin: "?session = []" "?pid = []" by auto
    from select_unpinned [OF assms pin] show ?thesis
    proof
      assume "\<exists>qc. trySelectQueuedProvider s now today requestID model qc h ?cl dailyKey ?est pls state = (s', state', Some (Inr p))"
      then show ?thesis using trySelectQueued_Inr pin by (auto simp: hasPinnedRoute_def)
    next
      let ?res = "EligibleCandidates ps (Some (set excluded)) SortKey (checker_of (request_ctx s now model raw ps))"
      assume "passes_preflight s requestID ?est p \<and> s_slotQueue s' = s_slotQueue s \<and> p \<in> set (Eligible ?res)"
      then show ?thesis using Eligible_admissible [of p ps "Some (set excluded)" s now model raw] pin by (auto simp: Has_def)
    qed
  qed
qed


theorem selected_provider_passes_every_gate_witness:
  "\<exists>s' state' p. demo_select demo_pool [''b/s''] = (s', state', Inr p) \<and> p \<in> set demo_pool \<and> ProviderID p = ''a'' \<and> RoutingEligible p"
proof -
  obtain s' state' r where r: "demo_select demo_pool [''b/s''] = (s', state', r)" using prod_cases3 by blast
  have "(case snd (snd (demo_select demo_pool [''b/s''])) of Inr p \<Rightarrow> ProviderID p = ''a'' | Inl e \<Rightarrow> False)" by code_simp
  then obtain p where p: "r = Inr p" "ProviderID p = ''a''" using r by (auto split: sum.splits)
  show ?thesis using selected_provider_passes_every_gate [OF r [unfolded p(1)]] r p by (auto simp: admissible_def)
qed

abbreviation request_checker :: "Server \<Rightarrow> time \<Rightarrow> string \<Rightarrow> string \<Rightarrow> Provider list \<Rightarrow> EligibilityChecker" where
  "request_checker s now model raw ps \<equiv> checker_of (request_ctx s now model raw ps)"

lemma first_preflight_skipped:
  assumes "preflight s = None \<or> est \<le> preflightThreshold s" "cs \<noteq> []"
  shows "first_preflight s requestID est cs = Some (hd cs)"
  using assms by (cases cs) (auto simp: preflightCandidate_def split: option.splits)

text \<open>C15. Selection finds a provider whenever there is one: for a request without a pin and without an
  unauthorised internal header, if some provider passes every gate, is not excluded and has a slot that
  the queue does not claim, and preflight does not apply, then selection returns a provider.\<close>

theorem selection_finds_eligible_provider:
  assumes "\<not> hasPinnedRoute h" "hasInternalRoutingHeader h \<longrightarrow> internalBearerAuthorized s h"
    and "p \<in> set ps" "drop_reason (Some (set excluded)) SortKey (request_checker s now model raw ps) p = None"
    and "case s_slotQueue s of None \<Rightarrow> True | Some q \<Rightarrow> \<not> blocksProvider (ProviderID p) (slots_free p) q"
    and "preflight s = None \<or> estimateTokens raw \<le> preflightThreshold s"
  shows "\<exists>s' state' r. selectProviderExcluding s now today ps pls requestID model raw h excluded dailyKey state = (s', state', Inr r)"
proof -
  let ?est = "estimateTokens raw" and ?cl = "classForRequest s model ps"
  let ?res = "EligibleCandidates ps (Some (set excluded)) SortKey (request_checker s now model raw ps)"
  have pin: "header_Get h ''X-MacProvider-Session'' = []" "header_Get h ''X-MacProvider-Provider'' = []"
    using assms(1) by (auto simp: hasPinnedRoute_def)
  have ex: "fold AddKey excluded (NewExcluded n) = Some (set excluded)" for n by (simp add: NewExcluded_def fold_AddKey)
  have el: "p \<in> set (Eligible ?res)" using assms(3,4) by (simp add: Eligible_spec)
  obtain cs queued where sp: "splitQueuedCandidates s (Eligible ?res) = (cs, queued)" by fastforce
  have "p \<in> set cs" using sp el assms(5) by (auto simp: splitQueuedCandidates_def split: option.splits)
  then have ne: "cs \<noteq> []" by auto
  obtain m ordered r miss where o: "order_candidates s now today requestID h ?cl dailyKey cs = (s\<lparr>stickyMap := m\<rparr>, ordered, r, miss)"
    "mset ordered = mset cs" using order_candidates_spec by blast
  have "ordered \<noteq> []" using o(2) ne by auto
  then have "first_preflight s requestID ?est ordered = Some (hd ordered)" by (rule first_preflight_skipped [OF assms(6)])
  then show ?thesis using assms(2) pin sp o ne by (auto simp: selectProviderExcluding_def Let_def ex)
qed

theorem selection_finds_eligible_provider_witness:
  "\<exists>s' state' r. demo_select demo_pool [] = (s', state', Inr r)"
proof -
  have "\<not> hasPinnedRoute []" "hasInternalRoutingHeader [] \<longrightarrow> internalBearerAuthorized demo_server []" by code_simp+
  moreover have "demo_box ''b'' TierPinned ''1.10.0'' 2 \<in> set demo_pool" by (simp add: demo_pool_def)
  moreover have "drop_reason (Some (set [])) SortKey (request_checker demo_server 7 ''qwen'' ''hello'' demo_pool) (demo_box ''b'' TierPinned ''1.10.0'' 2) = None"
    by code_simp
  moreover have "case s_slotQueue demo_server of None \<Rightarrow> True | Some q \<Rightarrow> \<not> blocksProvider ''b'' 2 q" "preflight demo_server = None"
    by (simp_all add: demo_server_def)
  ultimately show ?thesis
    using selection_finds_eligible_provider [of "[]" demo_server "demo_box ''b'' TierPinned ''1.10.0'' 2" demo_pool "[]" 7 "''qwen''" "''hello''"]
    by (simp add: demo_server_def)
qed

text \<open>C16. The 429 answer is reserved for exhausted quota: for an unpinned request that finds no candidate
  (and no queue), selection fails, and its status is 429 exactly when some provider passes every gate
  other than quota.\<close>

theorem quota_error_means_quota:
  assumes "\<not> hasPinnedRoute h" "hasInternalRoutingHeader h \<longrightarrow> internalBearerAuthorized s h" "s_slotQueue s = None"
    and "\<forall>p\<in>set ps. drop_reason (Some (set excluded)) SortKey (request_checker s now model raw ps) p \<noteq> None"
  shows "\<exists>e. selectProviderExcluding s now today ps pls requestID model raw h excluded dailyKey state = (s, state, Inl e)
    \<and> (re_status e = 429 \<longleftrightarrow> (\<exists>p\<in>set ps. first_pass (Some (set excluded)) SortKey (request_checker s now model raw ps) p = None))"
proof -
  let ?res = "EligibleCandidates ps (Some (set excluded)) SortKey (request_checker s now model raw ps)"
  have pin: "header_Get h ''X-MacProvider-Session'' = []" "header_Get h ''X-MacProvider-Provider'' = []"
    using assms(1) by (auto simp: hasPinnedRoute_def)
  have ex: "fold AddKey excluded (NewExcluded n) = Some (set excluded)" for n by (simp add: NewExcluded_def fold_AddKey)
  have none: "Eligible ?res = []" using assms(4) by (simp add: Eligible_spec filter_empty_conv)
  have q: "trySelectQueuedProvider s now today requestID model cs h cl dailyKey est pls state = (s, state, None)" for cs cl est
    using assms(3) by (simp add: trySelectQueuedProvider_def)
  have "selectProviderExcluding s now today ps pls requestID model raw h excluded dailyKey state =
      (s, state, Inl (no_candidate_error (s_tier2 s) model ?res))"
    using assms(2,3) pin none q by (auto simp: selectProviderExcluding_def Let_def ex splitQueuedCandidates_def)
  moreover have "re_status (no_candidate_error (s_tier2 s) model ?res) = 429 \<longleftrightarrow>
      PreQuotaCount ?res > 0 \<and> Counts ?res ReasonQuotaBlocked = PreQuotaCount ?res"
    by (simp add: no_candidate_error_def route_error_def unavailable_error_def)
  ultimately show ?thesis using buyer.quota_exhausted_iff [of ps "Some (set excluded)" SortKey "request_ctx s now model raw ps"] none
    by simp
qed


theorem quota_error_means_quota_witness:
  "\<exists>e. demo_select demo_pool [''a/s'', ''b/s''] = (demo_server, None, Inl e) \<and> re_status e = 429"
proof -
  let ?ex = "[''a/s'', ''b/s'']"
  have "\<not> hasPinnedRoute []" "hasInternalRoutingHeader [] \<longrightarrow> internalBearerAuthorized demo_server []" by code_simp+
  moreover have "s_slotQueue demo_server = None" by (simp add: demo_server_def)
  moreover have "list_all (\<lambda>p. drop_reason (Some (set ?ex)) SortKey (request_checker demo_server 7 ''qwen'' ''hello'' demo_pool) p \<noteq> None) demo_pool"
    by code_simp
  moreover have "list_ex (\<lambda>p. first_pass (Some (set ?ex)) SortKey (request_checker demo_server 7 ''qwen'' ''hello'' demo_pool) p = None) demo_pool"
    by code_simp
  ultimately show ?thesis using quota_error_means_quota [of "[]" demo_server demo_pool ?ex 7 "''qwen''" "''hello''" "''2026-01-01''" "[]" "''r''" "[]" None]
    by (auto simp only: list_all_iff list_ex_iff)
qed

end
