(* ===== verification/Forward_Loop.thy ===== *)
theory Forward_Loop
  imports Buyer_Selection
begin

text \<open>
  One buyer request after its first provider has been selected: the failover loop shared by the three
  transports (\<open>buyer/forward_with_failover.go\<close>) with their callbacks (\<open>forwardStreamSequence\<close>,
  \<open>forwardWSNonStreamSequence\<close> and \<open>forwardHTTPSequence\<close> of \<open>buyer/server.go\<close>), the classification of what a
  transport returned (\<open>buyer/transport_result.go\<close>), the retry policy (\<open>routing/retry.go\<close>) and the sequence of
  the three loops at the end of \<open>handleChatCompletions\<close>.

  What the world does during an attempt is a \<open>step_env\<close>: the outcome of the dispatch, whether the log row and
  its receipt could be stored, whether the request is cancelled, and what the pool looks like when the next
  provider is selected. Times of phases and log lines are left out.
\<close>

section \<open>Retry policy\<close>

definition atoi :: "string \<Rightarrow> int option" where
  "atoi s = (case s of [] \<Rightarrow> None
     | c # cs \<Rightarrow> let ds = (if c = CHR ''+'' \<or> c = CHR ''-'' then cs else s) in
         if ds = [] \<or> \<not> list_all is_digit ds then None
         else let n = (if c = CHR ''-'' then - digits_value ds else digits_value ds) in
           if fits_i64 n then Some n else None)"

definition RetryHeaderLimit :: "string \<Rightarrow> int" where
  "RetryHeaderLimit v = (let v = TrimSpace v in
     if v = [] then 0
     else if EqualFold v ''true'' then max_i64
     else case atoi v of None \<Rightarrow> 0 | Some n \<Rightarrow> if n \<le> 0 then 0 else n)"

record ShouldRetryInput =
  MaxRetries :: int
  RequestedRetries :: int
  HasPinnedRoute :: bool
  ContextErr :: bool
  ExplicitRetries :: int
  FaultedProviders :: int
  MaxFaultedPerRequest :: int
  sr_Now :: time
  StartedAt :: time
  RequestTimeout :: int
  RetryPerAttemptTimeout :: int
  sr_Status :: int
  sr_Err :: bool

definition ShouldRetry :: "ShouldRetryInput \<Rightarrow> bool" where
  "ShouldRetry i \<longleftrightarrow>
    (if MaxRetries i \<le> 0 \<or> RequestedRetries i \<le> 0 \<or> HasPinnedRoute i then False
     else if ContextErr i then False
     else let cap = (if RequestedRetries i < MaxRetries i then RequestedRetries i else MaxRetries i) in
     if ExplicitRetries i \<ge> cap then False
     else if MaxFaultedPerRequest i > 0 \<and> FaultedProviders i \<ge> MaxFaultedPerRequest i then False
     else if RequestTimeout i > 0 \<and> i64 (Sub (sr_Now i) (StartedAt i) + RetryPerAttemptTimeout i) > RequestTimeout i then False
     else if sr_Err i then True
     else sr_Status i = 502 \<or> sr_Status i = 504)"


section \<open>Classification\<close>

datatype wsForwardResult =
    wsForwardComplete | wsForwardFailed | wsForwardQueueFull | wsForwardTimedOut | wsForwardCancelled
  | wsForwardUnavailable | wsForwardProviderDisconnected | wsForwardProviderDisconnectedCommitted

record requestLogAttempt =
  at_Status :: int
  at_PromptTokens :: "int option"
  at_CachedPromptTokens :: "int option"
  at_CompletionTokens :: "int option"
  at_EstimatedCompTokens :: "int option"
  at_Error :: string
  at_ErrorCode :: string
  at_Logged :: bool

record transportResult =
  tr_status :: int
  tr_err :: bool
  retryable :: bool
  failoverEligible :: bool
  markBusy :: bool
  committed :: bool
  cancelled :: bool

definition statusForForwardResult :: "wsForwardResult \<Rightarrow> int" where
  "statusForForwardResult r = (case r of wsForwardTimedOut \<Rightarrow> 504 | wsForwardUnavailable \<Rightarrow> 503 | _ \<Rightarrow> 502)"

definition plain_result :: "int \<Rightarrow> transportResult" where
  "plain_result st = \<lparr>tr_status = st, tr_err = False, retryable = False, failoverEligible = False, markBusy = False,
     committed = False, cancelled = False\<rparr>"

definition classifyWSResult :: "wsForwardResult \<Rightarrow> transportResult" where
  "classifyWSResult r = (let tr = plain_result (statusForForwardResult r) in
     case r of wsForwardComplete \<Rightarrow> tr\<lparr>tr_status := 200\<rparr>
     | wsForwardTimedOut \<Rightarrow> tr\<lparr>retryable := True, tr_status := 504\<rparr>
     | wsForwardQueueFull \<Rightarrow> tr\<lparr>markBusy := True, retryable := True\<rparr>
     | wsForwardProviderDisconnected \<Rightarrow> tr\<lparr>failoverEligible := True\<rparr>
     | wsForwardCancelled \<Rightarrow> tr\<lparr>cancelled := True\<rparr>
     | _ \<Rightarrow> tr)"

definition classifyStreamResult :: "wsForwardResult \<Rightarrow> int \<Rightarrow> transportResult" where
  "classifyStreamResult r st = (let tr = plain_result st in
     case r of wsForwardComplete \<Rightarrow> tr\<lparr>tr_status := 200\<rparr>
     | wsForwardProviderDisconnectedCommitted \<Rightarrow> tr\<lparr>committed := True, tr_status := 200\<rparr>
     | wsForwardCancelled \<Rightarrow> tr\<lparr>committed := True, cancelled := True, tr_status := 200\<rparr>
     | wsForwardProviderDisconnected \<Rightarrow> tr\<lparr>retryable := True, failoverEligible := True\<rparr>
     | wsForwardQueueFull \<Rightarrow> tr\<lparr>markBusy := True, retryable := True\<rparr>
     | _ \<Rightarrow> tr\<lparr>retryable := True\<rparr>)"

text \<open>The status is absent when there was no response.\<close>

definition classifyHTTPResult :: "int option \<Rightarrow> bool \<Rightarrow> transportResult" where
  "classifyHTTPResult resp err =
    (if \<not> err \<and> resp = Some 200 then plain_result 200
     else (plain_result (case resp of Some st \<Rightarrow> st | None \<Rightarrow> 502))\<lparr>tr_err := err, retryable := True\<rparr>)"


section \<open>One request\<close>

datatype transport = Streaming | WSNonStreaming | HTTPNonStreaming

record pick_env =
  pk_now :: time
  pk_today :: string
  pk_pool :: "Provider list"
  pk_polls :: "poll list"
  pk_id :: string
  pk_recorded :: bool

text \<open>A dispatch that ends the request by itself: the body could not be built or sent, the route snapshot could not be
  stored, or an HTTP provider answered and the answer was recorded (with its status and prompt tokens) and relayed.\<close>

datatype dispatch_end = BodyFailed | SnapshotFailed | HTTPAnswered int "int option"

text \<open>What the outside does in one iteration. \<open>se_handled\<close> is such an end of the dispatch. Otherwise \<open>se_relay\<close> is the
  return of \<open>forwardWS\<close> or \<open>forwardStreaming\<close>, and \<open>se_http\<close> the status and error of an HTTP provider that failed;
  \<open>se_nullUsage\<close> says that the failure has a code for null usage and comes from a provider whose receipts count.
  \<open>se_recorded\<close> and \<open>se_receipt\<close> are the success of storing the row and its receipt.\<close>

record step_env =
  se_handled :: "dispatch_end option"
  se_nullUsage :: bool
  se_relay :: "wsForwardResult \<times> int \<times> requestLogAttempt"
  se_http :: "int option \<times> bool"
  se_recorded :: bool
  se_receipt :: bool
  se_cancelled :: bool
  se_now :: time
  se_sticky :: time
  se_failover :: pick_env
  se_advance :: pick_env

record chat_request =
  rq_model :: string
  rq_raw :: string
  rq_headers :: headers
  rq_dailyKey :: string
  rq_started :: time
  rq_maxRetries :: int
  rq_maxFaulted :: int
  rq_timeout :: int
  rq_attemptTimeout :: int

record log_row =
  lr_assigned :: string
  lr_provider :: string
  lr_status :: int
  lr_prompt :: "int option"
  lr_retried :: int

record forward_loop_state =
  fl_server :: Server
  fl_state :: forwardState
  explicitRetries :: int
  faultedProviders :: int
  faultedRoutes :: "string list"
  fl_provider :: Provider
  fl_excluded :: "string list"
  failoverAttempted :: bool
  fl_busy :: "(string \<times> string) list"
  fl_rows :: "log_row list"

datatype reply = NoReply | Wrote int | RouteFailed routeError

datatype verdict = Finished reply | FallThroughToHTTP

definition shouldLogAttempt :: "requestLogAttempt \<Rightarrow> bool" where
  "shouldLogAttempt a \<longleftrightarrow> at_Status a \<noteq> 0 \<or> at_PromptTokens a \<noteq> None \<or> at_CachedPromptTokens a \<noteq> None
     \<or> at_CompletionTokens a \<noteq> None \<or> at_EstimatedCompTokens a \<noteq> None \<or> at_Error a \<noteq> [] \<or> at_ErrorCode a \<noteq> []"

definition add_row :: "Provider \<Rightarrow> int \<Rightarrow> int option \<Rightarrow> forward_loop_state \<Rightarrow> forward_loop_state" where
  "add_row p st prompt l = l\<lparr>fl_rows := fl_rows l @ [\<lparr>lr_assigned = AssignedID p, lr_provider = ProviderID p, lr_status = st,
     lr_prompt = prompt, lr_retried = explicitRetries l\<rparr>]\<rparr>"

text \<open>The row of an attempt, and whether storing it and its receipt succeeded.\<close>

definition logAttempt :: "chat_request \<Rightarrow> step_env \<Rightarrow> int \<Rightarrow> requestLogAttempt \<Rightarrow> forward_loop_state \<Rightarrow> forward_loop_state \<times> bool" where
  "logAttempt rq e fallback a l =
    (if at_Logged a then (l, True)
     else let st = (if at_Status a = 0 then fallback else at_Status a);
              prompt = (if at_PromptTokens a = None \<and> at_ErrorCode a = [] \<and> (at_EstimatedCompTokens a \<noteq> None \<or> st = 502 \<or> st = 504)
                then Some (estimateTokens (rq_raw rq)) else at_PromptTokens a)
          in if \<not> se_recorded e then (l, False) else (add_row (fl_provider l) st prompt l, se_receipt e))"

definition logProviderRow :: "step_env \<Rightarrow> int \<Rightarrow> forward_loop_state \<Rightarrow> forward_loop_state \<times> bool" where
  "logProviderRow e st l = (if \<not> se_recorded e then (l, False) else (add_row (fl_provider l) st None l, se_receipt e))"

definition shouldRetry :: "chat_request \<Rightarrow> step_env \<Rightarrow> transportResult \<Rightarrow> forward_loop_state \<Rightarrow> bool" where
  "shouldRetry rq e tr l = ShouldRetry \<lparr>MaxRetries = rq_maxRetries rq,
     RequestedRetries = RetryHeaderLimit (header_Get (rq_headers rq) ''X-MacProvider-Retry''),
     HasPinnedRoute = hasPinnedRoute (rq_headers rq), ContextErr = se_cancelled e, ExplicitRetries = explicitRetries l,
     FaultedProviders = faultedProviders l, MaxFaultedPerRequest = rq_maxFaulted rq, sr_Now = se_now e,
     StartedAt = rq_started rq, RequestTimeout = rq_timeout rq, RetryPerAttemptTimeout = rq_attemptTimeout rq,
     sr_Status = tr_status tr, sr_Err = tr_err tr\<rparr>"

definition release :: "forward_loop_state \<Rightarrow> forward_loop_state" where
  "release l = (case releaseQueuedSlotReservation (fl_server l) (Some (fl_state l)) of
     (s, st) \<Rightarrow> l\<lparr>fl_server := s, fl_state := (case st of Some x \<Rightarrow> x | None \<Rightarrow> fl_state l)\<rparr>)"

definition advanceToNextProvider :: "chat_request \<Rightarrow> pick_env \<Rightarrow> forward_loop_state \<Rightarrow> forward_loop_state \<times> routeError option" where
  "advanceToNextProvider rq k l = (let l = release l in
     case selectProviderExcluding (fl_server l) (pk_now k) (pk_today k) (pk_pool k) (pk_polls k) (pk_id k) (rq_model rq) (rq_raw rq)
         (rq_headers rq) (fl_excluded l) (rq_dailyKey rq) (Some (fl_state l)) of
       (s, st, Inl err) \<Rightarrow> (l\<lparr>fl_server := s, fl_state := (case st of Some x \<Rightarrow> x | None \<Rightarrow> fl_state l),
           fl_rows := (if pk_recorded k then fl_rows l @ [\<lparr>lr_assigned = [], lr_provider = [], lr_status = re_status err,
             lr_prompt = None, lr_retried = explicitRetries l\<rparr>] else fl_rows l)\<rparr>, Some err)
     | (s, st, Inr p) \<Rightarrow> (l\<lparr>fl_server := s, fl_state := (case st of Some x \<Rightarrow> x | None \<Rightarrow> fl_state l),
           explicitRetries := explicitRetries l + 1, faultedProviders := faultedProviders l + 1, fl_provider := p\<rparr>, None))"


text \<open>The outcome of the dispatch as the loop sees it: the classified result, the kind of relay result and
  whether it is a success.\<close>

definition classify :: "transport \<Rightarrow> Provider \<Rightarrow> wsForwardResult \<Rightarrow> int \<Rightarrow> transportResult" where
  "classify t p r st = (case t of
     Streaming \<Rightarrow> if IsWSTunneled p then classifyStreamResult r (statusForForwardResult r)
       else (classifyStreamResult r st)\<lparr>failoverEligible := False\<rparr>
   | _ \<Rightarrow> classifyWSResult r)"

definition mark_fault :: "transportResult \<Rightarrow> forward_loop_state \<Rightarrow> forward_loop_state" where
  "mark_fault tr l = (let key = SortKey (fl_provider l) in
     l\<lparr>fl_excluded := List.insert key (fl_excluded l), faultedRoutes := List.insert key (faultedRoutes l),
       fl_busy := (if markBusy tr then fl_busy l @ [(ProviderID (fl_provider l), AssignedID (fl_provider l))] else fl_busy l)\<rparr>)"

text \<open>The same-attempt re-route: \<open>Some\<close> when the loop goes on with a new provider or leaves for HTTP.\<close>

definition try_failover :: "chat_request \<Rightarrow> transport \<Rightarrow> step_env \<Rightarrow> requestLogAttempt \<Rightarrow> forward_loop_state \<Rightarrow>
  forward_loop_state \<times> verdict option option" where
  "try_failover rq t e a l =
    (if failoverAttempted l \<or> hasPinnedRoute (rq_headers rq) then (l, None)
     else let l = release l; k = se_failover e in
     case failoverCandidate (fl_server l) (pk_now k) (pk_today k) (pk_pool k) (pk_polls k) (pk_id k) (rq_model rq) (rq_raw rq)
         (rq_headers rq) (fl_provider l) (fl_excluded l) (rq_dailyKey rq) (Some (fl_state l)) of
       (s, st, ex, Some p) \<Rightarrow>
         (let l = l\<lparr>fl_server := s, fl_state := (case st of Some x \<Rightarrow> x | None \<Rightarrow> fl_state l), fl_excluded := ex\<rparr>;
              l = (if t = WSNonStreaming then fst (logAttempt rq e 502 a l) else l);
              l = l\<lparr>failoverAttempted := True, fl_provider := p\<rparr>
          in (l, Some (if t = WSNonStreaming \<and> \<not> IsWSTunneled p then Some FallThroughToHTTP else None)))
     | (s, st, ex, None) \<Rightarrow>
         (release (l\<lparr>fl_server := s, fl_state := (case st of Some x \<Rightarrow> x | None \<Rightarrow> fl_state l), fl_excluded := ex\<rparr>), None))"

definition render :: "forward_loop_state \<times> bool \<Rightarrow> int \<Rightarrow> forward_loop_state \<times> verdict option" where
  "render x st = (fst x, Some (Finished (Wrote (if snd x then st else 500))))"

definition stream_error_status :: "wsForwardResult \<Rightarrow> reply" where
  "stream_error_status r = (case r of wsForwardTimedOut \<Rightarrow> Wrote 504 | wsForwardUnavailable \<Rightarrow> Wrote 503
     | wsForwardCancelled \<Rightarrow> NoReply | wsForwardProviderDisconnectedCommitted \<Rightarrow> NoReply | _ \<Rightarrow> Wrote 502)"

definition advance :: "chat_request \<Rightarrow> transport \<Rightarrow> step_env \<Rightarrow> forward_loop_state \<Rightarrow> forward_loop_state \<times> verdict option" where
  "advance rq t e l = (case advanceToNextProvider rq (se_advance e) l of
     (l, Some err) \<Rightarrow> (l, Some (Finished (RouteFailed err)))
   | (l, None) \<Rightarrow> (l\<lparr>fl_excluded := List.insert (SortKey (fl_provider l)) (fl_excluded l)\<rparr>,
       if t = WSNonStreaming \<and> \<not> IsWSTunneled (fl_provider l) then Some FallThroughToHTTP else None))"

text \<open>The part of an iteration after a failed relay on the two relay transports.\<close>

definition relay_retry :: "chat_request \<Rightarrow> transport \<Rightarrow> step_env \<Rightarrow> wsForwardResult \<Rightarrow> requestLogAttempt \<Rightarrow> transportResult \<Rightarrow>
  forward_loop_state \<Rightarrow> forward_loop_state \<times> verdict option" where
  "relay_retry rq t e r a tr l =
    (if \<not> (t = WSNonStreaming \<and> r = wsForwardQueueFull) \<and> \<not> shouldRetry rq e tr l
     then if t = WSNonStreaming then render (logAttempt rq e 504 a l) 504
       else (case logAttempt rq e (tr_status tr) a l of
           (l, True) \<Rightarrow> (l, Some (Finished (stream_error_status r)))
         | (l, False) \<Rightarrow> (l, Some (Finished (Wrote 500))))
     else let st = (if t = WSNonStreaming then if r = wsForwardQueueFull then 502 else 504 else tr_status tr)
          in advance rq t e (fst (logAttempt rq e st a l)))"

definition relay_attempt :: "chat_request \<Rightarrow> transport \<Rightarrow> step_env \<Rightarrow> wsForwardResult \<Rightarrow> int \<Rightarrow> requestLogAttempt \<Rightarrow>
  forward_loop_state \<Rightarrow> forward_loop_state \<times> verdict option" where
  "relay_attempt rq t e r st a l =
    (let tr = classify t (fl_provider l) r st in
     if committed tr \<and> t = Streaming
     then ((if \<not> cancelled tr \<or> shouldLogAttempt a then fst (logAttempt rq e 200 a l) else l), Some (Finished NoReply))
     else if t = WSNonStreaming \<and> (r = wsForwardFailed \<or> r = wsForwardUnavailable \<or> r = wsForwardCancelled)
     then ((if r \<noteq> wsForwardCancelled \<or> shouldLogAttempt a then fst (logAttempt rq e (statusForForwardResult r) a l) else l),
           Some (Finished NoReply))
     else if r = wsForwardComplete
     then let (l, logged) = logAttempt rq e 200 a l in
       (if logged \<and> (t = WSNonStreaming \<or> IsWSTunneled (fl_provider l))
        then l\<lparr>fl_server := fst (stickyStore (fl_server l) (se_sticky e) (rq_headers rq) (fl_provider l) (rq_model rq))\<rparr> else l,
        Some (Finished NoReply))
     else let l = mark_fault tr l in
     if \<not> failoverEligible tr then relay_retry rq t e r a tr l
     else case try_failover rq t e a l of
       (l, Some v) \<Rightarrow> (l, v)
     | (l, None) \<Rightarrow> if t = WSNonStreaming then render (logAttempt rq e 502 a l) 502 else relay_retry rq t e r a tr l)"

definition end_dispatch :: "chat_request \<Rightarrow> transport \<Rightarrow> step_env \<Rightarrow> dispatch_end \<Rightarrow> forward_loop_state \<Rightarrow> forward_loop_state \<times> verdict option" where
  "end_dispatch rq t e d l = (case d of
     BodyFailed \<Rightarrow> (if se_recorded e
         then add_row ((fl_provider l)\<lparr>ProviderID := (if t = HTTPNonStreaming then ProviderID (fl_provider l) else [])\<rparr>) 502 None l
         else l, Some (Finished (Wrote 502)))
   | SnapshotFailed \<Rightarrow> (if se_recorded e then l\<lparr>fl_rows := fl_rows l @ [\<lparr>lr_assigned = [], lr_provider = [], lr_status = 500,
         lr_prompt = None, lr_retried = 0\<rparr>]\<rparr> else l, Some (Finished (Wrote 500)))
   | HTTPAnswered st prompt \<Rightarrow>
       if \<not> se_recorded e then (l, Some (Finished (Wrote 500)))
       else let l = add_row (fl_provider l) st prompt l in
       if \<not> se_receipt e then (l, Some (Finished (Wrote 500)))
       else (if st = 200 then l\<lparr>fl_server := fst (stickyStore (fl_server l) (se_sticky e) (rq_headers rq) (fl_provider l) (rq_model rq))\<rparr>
             else l, Some (Finished (Wrote st))))"

definition http_attempt :: "chat_request \<Rightarrow> step_env \<Rightarrow> int option \<Rightarrow> bool \<Rightarrow> forward_loop_state \<Rightarrow> forward_loop_state \<times> verdict option" where
  "http_attempt rq e resp err l =
    (let retryRequested = (rq_maxRetries rq > 0 \<and> RetryHeaderLimit (header_Get (rq_headers rq) ''X-MacProvider-Retry'') > 0) in
     case (case resp of Some st \<Rightarrow> if se_nullUsage e \<and> \<not> shouldRetry rq e (plain_result st) l then Some st else None | None \<Rightarrow> None) of
       Some st \<Rightarrow> end_dispatch rq HTTPNonStreaming e (HTTPAnswered st None) l
     | None \<Rightarrow>
       (let tr = classifyHTTPResult resp err; l = mark_fault tr l in
        if \<not> shouldRetry rq e tr l
        then let st = (if retryRequested \<and> resp = Some 504 then 504 else 502) in render (logProviderRow e st l) st
        else advance rq HTTPNonStreaming e (fst (logProviderRow e (tr_status tr) l))))"

text \<open>One iteration of \<open>forwardWithFailover\<close>.\<close>

definition attempt_step :: "chat_request \<Rightarrow> transport \<Rightarrow> step_env \<Rightarrow> forward_loop_state \<Rightarrow> forward_loop_state \<times> verdict option" where
  "attempt_step rq t e l = (case se_handled e of
     Some d \<Rightarrow> end_dispatch rq t e d l
   | None \<Rightarrow> if t = HTTPNonStreaming then (case se_http e of (resp, err) \<Rightarrow> http_attempt rq e resp err l)
       else (case se_relay e of (r, st, a) \<Rightarrow> relay_attempt rq t e r st a l))"

text \<open>\<open>None\<close> is a loop that is still running when the list of steps ends.\<close>

fun forwardWithFailover :: "chat_request \<Rightarrow> transport \<Rightarrow> step_env list \<Rightarrow> forward_loop_state \<Rightarrow>
  forward_loop_state \<times> step_env list \<times> verdict option" where
  "forwardWithFailover rq t [] l = (l, [], None)"
| "forwardWithFailover rq t (e # es) l = (case attempt_step rq t e l of
     (l, Some v) \<Rightarrow> (l, es, Some v) | (l, None) \<Rightarrow> forwardWithFailover rq t es l)"

definition start_loop :: "string list \<Rightarrow> forward_loop_state \<Rightarrow> forward_loop_state" where
  "start_loop ex l = l\<lparr>fl_excluded := ex, failoverAttempted := False\<rparr>"

text \<open>The transport sequence at the end of \<open>handleChatCompletions\<close>.\<close>

definition forward_request :: "chat_request \<Rightarrow> bool \<Rightarrow> step_env list \<Rightarrow> forward_loop_state \<Rightarrow>
  forward_loop_state \<times> step_env list \<times> verdict option" where
  "forward_request rq stream es l =
    (let http = (\<lambda>es l. forwardWithFailover rq HTTPNonStreaming es
           (start_loop (List.insert (SortKey (fl_provider l)) (faultedRoutes l)) l)) in
     if stream then forwardWithFailover rq Streaming es (start_loop [] l)
     else if IsWSTunneled (fl_provider l)
     then (case forwardWithFailover rq WSNonStreaming es (start_loop [] l) of
         (l, es, Some FallThroughToHTTP) \<Rightarrow> http es l
       | res \<Rightarrow> res)
     else http es l)"



section \<open>Attempts are bounded\<close>

definition retry_cap :: "chat_request \<Rightarrow> int" where
  "retry_cap rq = min (rq_maxRetries rq) (RetryHeaderLimit (header_Get (rq_headers rq) ''X-MacProvider-Retry''))"

definition queue_full :: "step_env \<Rightarrow> bool" where
  "queue_full e \<longleftrightarrow> fst (se_relay e) = wsForwardQueueFull"

definition budget :: "chat_request \<Rightarrow> transport \<Rightarrow> forward_loop_state \<Rightarrow> nat" where
  "budget rq t l = nat (retry_cap rq - explicitRetries l) + (if t = HTTPNonStreaming \<or> failoverAttempted l then 0 else 1)"

lemma shouldRetry_cap: "shouldRetry rq e tr l \<Longrightarrow> explicitRetries l < retry_cap rq"
  by (auto simp: shouldRetry_def ShouldRetry_def retry_cap_def Let_def split: if_splits)

text \<open>What the parts of an iteration leave alone.\<close>

definition same_counters :: "forward_loop_state \<Rightarrow> forward_loop_state \<Rightarrow> bool" where
  "same_counters l l' \<longleftrightarrow> explicitRetries l' = explicitRetries l \<and> failoverAttempted l' = failoverAttempted l"

lemma counters_add_row [simp]: "explicitRetries (add_row p st pr l) = explicitRetries l" "failoverAttempted (add_row p st pr l) = failoverAttempted l"
  "fl_provider (add_row p st pr l) = fl_provider l" "fl_excluded (add_row p st pr l) = fl_excluded l" "fl_server (add_row p st pr l) = fl_server l"
  by (simp_all add: add_row_def)

lemma counters_log [simp]:
  "explicitRetries (fst (logAttempt rq e st a l)) = explicitRetries l" "failoverAttempted (fst (logAttempt rq e st a l)) = failoverAttempted l"
  "fl_provider (fst (logAttempt rq e st a l)) = fl_provider l" "fl_excluded (fst (logAttempt rq e st a l)) = fl_excluded l"
  "fl_server (fst (logAttempt rq e st a l)) = fl_server l"
  "explicitRetries (fst (logProviderRow e st l)) = explicitRetries l" "failoverAttempted (fst (logProviderRow e st l)) = failoverAttempted l"
  "fl_provider (fst (logProviderRow e st l)) = fl_provider l" "fl_excluded (fst (logProviderRow e st l)) = fl_excluded l"
  "fl_server (fst (logProviderRow e st l)) = fl_server l"
  by (simp_all add: logAttempt_def logProviderRow_def Let_def)

lemma logAttemptD:
  assumes "logAttempt rq e st a l = (l', b)"
  shows "explicitRetries l' = explicitRetries l \<and> failoverAttempted l' = failoverAttempted l"
  using counters_log(1,2) [of rq e st a l] assms by simp

lemma counters_release [simp]:
  "explicitRetries (release l) = explicitRetries l" "failoverAttempted (release l) = failoverAttempted l"
  "fl_provider (release l) = fl_provider l" "fl_excluded (release l) = fl_excluded l"
  by (simp_all add: release_def split: prod.splits)

lemma counters_fault [simp]:
  "explicitRetries (mark_fault tr l) = explicitRetries l" "failoverAttempted (mark_fault tr l) = failoverAttempted l"
  "fl_provider (mark_fault tr l) = fl_provider l" "fl_server (mark_fault tr l) = fl_server l"
  "fl_excluded (mark_fault tr l) = List.insert (SortKey (fl_provider l)) (fl_excluded l)"
  by (simp_all add: mark_fault_def Let_def)

lemma render_finished: "snd (render x st) \<noteq> None" "fst (render x st) = fst x"
  by (simp_all add: render_def)

lemma advance_counters:
  assumes "advance rq t e l = (l', v)"
  shows "failoverAttempted l' = failoverAttempted l" "v = None \<Longrightarrow> explicitRetries l' = explicitRetries l + 1"
    "explicitRetries l \<le> explicitRetries l'"
  using assms by (auto simp: advance_def advanceToNextProvider_def Let_def split: prod.splits sum.splits option.splits if_splits)

lemma failover_counters:
  assumes "try_failover rq t e a l = (l', v)"
  shows "explicitRetries l' = explicitRetries l" "v = None \<Longrightarrow> failoverAttempted l' = failoverAttempted l"
    "v \<noteq> None \<Longrightarrow> failoverAttempted l' \<and> \<not> failoverAttempted l"
  using assms by (auto simp: try_failover_def Let_def split: prod.splits option.splits if_splits)

lemma end_dispatch_ends:
  assumes "end_dispatch rq t e d l = (l', v)"
  shows "(\<exists>r. v = Some (Finished r)) \<and> explicitRetries l' = explicitRetries l \<and> failoverAttempted l' = failoverAttempted l"
  using assms by (auto simp: end_dispatch_def add_row_def Let_def split: dispatch_end.splits if_splits)

lemma http_attempt_cases:
  assumes "http_attempt rq e resp err l = (l', v)"
  defines "tr \<equiv> classifyHTTPResult resp err"
  obtains (ended) d where "end_dispatch rq HTTPNonStreaming e d l = (l', v)"
    | (stopped) st where "render (logProviderRow e st (mark_fault tr l)) st = (l', v)"
    | (again) "shouldRetry rq e tr (mark_fault tr l)"
        "advance rq HTTPNonStreaming e (fst (logProviderRow e (tr_status tr) (mark_fault tr l))) = (l', v)"
proof -
  let ?n = "case resp of Some st \<Rightarrow> if se_nullUsage e \<and> \<not> shouldRetry rq e (plain_result st) l then Some st else None | None \<Rightarrow> None"
  show thesis
  proof (cases ?n)
    case (Some st)
    then show thesis using assms(1) ended by (simp add: http_attempt_def)
  next
    case None
    then show thesis using assms(1) stopped again unfolding http_attempt_def Let_def None option.case tr_def
      by (cases "shouldRetry rq e (classifyHTTPResult resp err) (mark_fault (classifyHTTPResult resp err) l)") simp_all
  qed
qed

text \<open>An iteration that goes on uses the failover, a retry within the budget, or a full queue.\<close>

definition progress :: "chat_request \<Rightarrow> transport \<Rightarrow> step_env \<Rightarrow> forward_loop_state \<Rightarrow> forward_loop_state \<Rightarrow> bool" where
  "progress rq t e l l' \<longleftrightarrow> (t \<noteq> HTTPNonStreaming \<and> \<not> failoverAttempted l \<and> failoverAttempted l' \<and> explicitRetries l' = explicitRetries l)
     \<or> (failoverAttempted l' = failoverAttempted l \<and> explicitRetries l' = explicitRetries l + 1
        \<and> (explicitRetries l < retry_cap rq \<or> (t = WSNonStreaming \<and> queue_full e)))"

definition no_regress :: "forward_loop_state \<Rightarrow> forward_loop_state \<Rightarrow> bool" where
  "no_regress l l' \<longleftrightarrow> explicitRetries l \<le> explicitRetries l' \<and> (failoverAttempted l \<longrightarrow> failoverAttempted l')"

lemma relay_retry_step:
  assumes "relay_retry rq t e r a tr l = (l', v)"
  shows "no_regress l l'" "v = None \<Longrightarrow> failoverAttempted l' = failoverAttempted l \<and> explicitRetries l' = explicitRetries l + 1
    \<and> (explicitRetries l < retry_cap rq \<or> (t = WSNonStreaming \<and> r = wsForwardQueueFull))"
proof -
  let ?stop = "\<not> (t = WSNonStreaming \<and> r = wsForwardQueueFull) \<and> \<not> shouldRetry rq e tr l"
  have "no_regress l l' \<and> (v = None \<longrightarrow> failoverAttempted l' = failoverAttempted l \<and> explicitRetries l' = explicitRetries l + 1
    \<and> (explicitRetries l < retry_cap rq \<or> (t = WSNonStreaming \<and> r = wsForwardQueueFull)))"
  proof (cases ?stop)
    case True
    then show ?thesis
      using assms by (auto simp: relay_retry_def no_regress_def render_def split: if_splits prod.splits bool.splits dest: logAttemptD)
  next
    case False
    note adv = assms [unfolded relay_retry_def Let_def if_not_P [OF False]]
    from advance_counters [OF adv] False show ?thesis using shouldRetry_cap by (auto simp: no_regress_def)
  qed
  then show "no_regress l l'" "v = None \<Longrightarrow> failoverAttempted l' = failoverAttempted l \<and> explicitRetries l' = explicitRetries l + 1
    \<and> (explicitRetries l < retry_cap rq \<or> (t = WSNonStreaming \<and> r = wsForwardQueueFull))" by auto
qed

lemma no_regress_trans: "no_regress l m \<Longrightarrow> no_regress m n \<Longrightarrow> no_regress l n"
  by (auto simp: no_regress_def)

lemma relay_attempt_step:
  assumes "relay_attempt rq t e r st a l = (l', v)" "r = fst (se_relay e)" "t \<noteq> HTTPNonStreaming"
  shows "no_regress l l' \<and> (v = None \<longrightarrow> progress rq t e l l')"
proof -
  define tr where "tr = classify t (fl_provider l) r st"
  define m where "m = mark_fault tr l"
  have m: "no_regress l m" "explicitRetries m = explicitRetries l" "failoverAttempted m = failoverAttempted l"
    by (simp_all add: m_def no_regress_def)
  have again: "no_regress l l' \<and> (v = None \<longrightarrow> progress rq t e l l')"
    if "relay_retry rq t e r a tr k = (l', v)" "explicitRetries k = explicitRetries l" "failoverAttempted k = failoverAttempted l" for k
    using relay_retry_step [OF that(1)] that(2,3) assms(2) by (auto simp: progress_def queue_full_def no_regress_def)
  consider (ended) "v \<noteq> None" "explicitRetries l' = explicitRetries l" "failoverAttempted l' = failoverAttempted l"
    | (retry) "relay_retry rq t e r a tr m = (l', v)"
    | (hit) "try_failover rq t e a m = (l', Some v)"
    | (miss) k where "try_failover rq t e a m = (k, None)" "render (logAttempt rq e 502 a k) 502 = (l', v) \<or> relay_retry rq t e r a tr k = (l', v)"
    using assms(1) unfolding relay_attempt_def Let_def tr_def [symmetric] m_def [symmetric]
    by (auto split: if_splits prod.splits option.splits dest: logAttemptD)
  then show ?thesis
  proof cases
    case ended
    then show ?thesis by (auto simp: no_regress_def)
  next
    case retry
    then show ?thesis using again m by blast
  next
    case hit
    then show ?thesis using failover_counters [OF hit] m assms(3) by (auto simp: no_regress_def progress_def)
  next
    case (miss k)
    note k = failover_counters(1,2) [OF miss(1)]
    from miss(2) show ?thesis
    proof
      assume "render (logAttempt rq e 502 a k) 502 = (l', v)"
      then show ?thesis using k m counters_log(1,2) [of rq e 502 a k] by (auto simp: render_def no_regress_def)
    next
      assume "relay_retry rq t e r a tr k = (l', v)"
      then show ?thesis using again k m by auto
    qed
  qed
qed


lemma attempt_step_progress:
  assumes "attempt_step rq t e l = (l', v)"
  shows "no_regress l l' \<and> (v = None \<longrightarrow> progress rq t e l l')"
proof (cases "se_handled e")
  case (Some d)
  then have "end_dispatch rq t e d l = (l', v)" using assms by (simp add: attempt_step_def)
  from end_dispatch_ends [OF this] show ?thesis by (auto simp: no_regress_def)
next
  case None
  show ?thesis
  proof (cases "t = HTTPNonStreaming")
    case True
    obtain resp err where h: "se_http e = (resp, err)" by fastforce
    have "http_attempt rq e resp err l = (l', v)" using assms None True h by (simp add: attempt_step_def)
    then show ?thesis
    proof (cases rule: http_attempt_cases)
      case (ended d)
      from end_dispatch_ends [OF this] show ?thesis by (auto simp: no_regress_def)
    next
      case (stopped st)
      then show ?thesis by (auto simp: render_def no_regress_def)
    next
      case again
      from advance_counters [OF again(2)] show ?thesis using shouldRetry_cap [OF again(1)] by (auto simp: no_regress_def progress_def)
    qed
  next
    case False
    obtain r st a where r: "se_relay e = (r, st, a)" by (cases "se_relay e")
    have "relay_attempt rq t e r st a l = (l', v)" using assms None False by (simp add: attempt_step_def r)
    then show ?thesis by (rule relay_attempt_step) (simp_all add: r False)
  qed
qed

lemma budget_step:
  assumes "attempt_step rq t e l = (l', v)"
  shows "budget rq t l' \<le> budget rq t l"
    and "v = None \<Longrightarrow> budget rq t l' < budget rq t l + (if t = WSNonStreaming \<and> queue_full e then 1 else 0)"
  using attempt_step_progress [OF assms] by (auto simp: budget_def no_regress_def progress_def split: if_splits)

definition full_queues :: "transport \<Rightarrow> step_env list \<Rightarrow> nat" where
  "full_queues t es = (if t = WSNonStreaming then length (filter queue_full es) else 0)"

lemma full_queues_Cons [simp]: "full_queues t (e # es) = full_queues t es + (if t = WSNonStreaming \<and> queue_full e then 1 else 0)"
  by (simp add: full_queues_def)

lemma loop_uses:
  assumes "forwardWithFailover rq t es l = (l', rest, v)"
  shows "length es + budget rq t l' + full_queues t rest \<le> length rest + budget rq t l + full_queues t es + 1
    \<and> (v = None \<longrightarrow> rest = [] \<and> length es + budget rq t l' \<le> budget rq t l + full_queues t es)
    \<and> full_queues WSNonStreaming rest \<le> full_queues WSNonStreaming es"
  using assms
proof (induction es arbitrary: l)
  case (Cons e es)
  obtain m w where m: "attempt_step rq t e l = (m, w)" by fastforce
  show ?case
  proof (cases w)
    case None
    have r: "forwardWithFailover rq t es m = (l', rest, v)" using Cons.prems m None by simp
    show ?thesis using Cons.IH [OF r] budget_step(2) [OF m None] by (auto split: if_splits)
  next
    case (Some u)
    then show ?thesis using Cons.prems m budget_step(1) [OF m] by auto
  qed
qed simp


lemma request_uses:
  assumes "forward_request rq stream es l = (l', rest, v)" "0 \<le> explicitRetries l"
  shows "length es \<le> length rest + nat (retry_cap rq) + 3 + full_queues WSNonStreaming es
    \<and> (v = None \<longrightarrow> rest = [])"
proof -
  let ?cap = "nat (retry_cap rq)"
  let ?http = "\<lambda>l. start_loop (List.insert (SortKey (fl_provider l)) (faultedRoutes l)) l"
  consider (one) t x where "forwardWithFailover rq t es (start_loop x l) = (l', rest, v)"
    | (two) k mid u where "forwardWithFailover rq WSNonStreaming es (start_loop [] l) = (k, mid, u)"
        "forwardWithFailover rq HTTPNonStreaming mid (?http k) = (l', rest, v)"
    using assms(1) unfolding forward_request_def Let_def by (auto split: if_splits prod.splits option.splits verdict.splits)
  then show ?thesis
  proof cases
    case one
    moreover have "budget rq t (start_loop x l) \<le> ?cap + 1" using assms(2) by (auto simp: budget_def start_loop_def)
    moreover have "full_queues t es \<le> full_queues WSNonStreaming es" by (simp add: full_queues_def)
    ultimately show ?thesis using loop_uses [OF one] by auto
  next
    case two
    have "budget rq WSNonStreaming (start_loop [] l) \<le> ?cap + 1" using assms(2) by (auto simp: budget_def start_loop_def)
    moreover have "budget rq HTTPNonStreaming (?http k) \<le> budget rq WSNonStreaming k" by (auto simp: budget_def start_loop_def)
    ultimately show ?thesis using loop_uses [OF two(1)] loop_uses [OF two(2)]
      by (auto simp: full_queues_def)
  qed
qed


section \<open>No session is tried twice\<close>

lemma no_queue [simp]: "s_slotQueue s = None \<Longrightarrow> trySelectQueuedProvider s now today requestID model cs h cl dailyKey est pls state = (s, state, None)"
  by (simp add: trySelectQueuedProvider_def)

lemma select_no_queue:
  assumes "selectProviderExcluding s now today ps pls requestID model raw h excluded dailyKey state = (s', state', r)" "s_slotQueue s = None"
  shows "s_slotQueue s' = None"
proof -
  have o: "s_slotQueue a = None" if "order_candidates s now today requestID h cl dailyKey cs = (a, b)" for cl cs a b
    using order_candidates_spec [of s now today requestID h cl dailyKey cs] assms(2) that by auto
  show ?thesis
  proof (cases "header_Get h ''X-MacProvider-Session'' = [] \<and> header_Get h ''X-MacProvider-Provider'' = []
      \<and> \<not> (hasInternalRoutingHeader h \<and> \<not> internalBearerAuthorized s h)")
    case True
    then show ?thesis using assms by (auto simp: selectProviderExcluding_def Let_def split: option.splits prod.splits if_splits dest!: o)
  next
    case False
    then have "s' = s" using assms(1) unfolding selectProviderExcluding_def Let_def by (auto simp only: if_True if_False prod.inject split: if_splits)
    then show ?thesis using assms(2) by simp
  qed
qed

lemma select_fresh:
  assumes "selectProviderExcluding s now today ps pls requestID model raw h excluded dailyKey state = (s', state', Inr p)"
    and "header_Get h ''X-MacProvider-Session'' = []" "header_Get h ''X-MacProvider-Provider'' = []" "s_slotQueue s = None"
  shows "SortKey p \<notin> set excluded"
proof -
  have "p \<in> set (Eligible (EligibleCandidates ps (Some (set excluded)) SortKey (checker_of (request_ctx s now model raw ps))))"
    using select_unpinned [OF assms(1-3)] assms(4) by simp
  from Eligible_admissible [OF this] show ?thesis by (simp add: Has_def)
qed


lemma header_Get_Del: "header_Get h k = [] \<Longrightarrow> header_Get (header_Del k' h) k = []"
  by (auto simp: header_Get_def header_Del_def AList.delete_conv' split: option.splits list.splits)

abbreviation no_slot_queue :: "forward_loop_state \<Rightarrow> bool" where
  "no_slot_queue l \<equiv> s_slotQueue (fl_server l) = None"

lemma release_no_queue [simp]: "no_slot_queue l \<Longrightarrow> release l = l"
  by (simp add: release_def releaseQueuedSlotReservation_def split: option.splits)

lemma routes_kept [simp]:
  "faultedRoutes (fst (logAttempt rq e st a l)) = faultedRoutes l" "faultedRoutes (fst (logProviderRow e st l)) = faultedRoutes l"
  "faultedRoutes (mark_fault tr l) = List.insert (SortKey (fl_provider l)) (faultedRoutes l)"
  by (simp_all add: logAttempt_def logProviderRow_def add_row_def mark_fault_def Let_def)

text \<open>A hand-over from one provider to the next, after the first was marked as faulted.\<close>

definition hands_over :: "forward_loop_state \<Rightarrow> forward_loop_state \<Rightarrow> bool" where
  "hands_over l l' \<longleftrightarrow> SortKey (fl_provider l') \<notin> set (fl_excluded l) \<and> set (fl_excluded l) \<subseteq> set (fl_excluded l')
     \<and> faultedRoutes l' = faultedRoutes l \<and> no_slot_queue l'"

lemma advance_fresh:
  assumes "advance rq t e l = (l', v)" "\<not> hasPinnedRoute (rq_headers rq)" "no_slot_queue l" "\<forall>r. v \<noteq> Some (Finished r)"
  shows "hands_over l l'"
proof -
  let ?k = "se_advance e"
  obtain s st r where sel: "selectProviderExcluding (fl_server l) (pk_now ?k) (pk_today ?k) (pk_pool ?k) (pk_polls ?k) (pk_id ?k) (rq_model rq)
    (rq_raw rq) (rq_headers rq) (fl_excluded l) (rq_dailyKey rq) (Some (fl_state l)) = (s, st, r)" using prod_cases3 by blast
  obtain p where p: "r = Inr p" using assms(1,3,4) sel
    by (cases r) (auto simp: advance_def advanceToNextProvider_def)
  have "SortKey p \<notin> set (fl_excluded l)" using select_fresh [OF sel [unfolded p]] assms(2,3) by (simp add: hasPinnedRoute_def)
  then show ?thesis using assms(1,3) sel p select_no_queue [OF sel assms(3)]
    by (auto simp: advance_def advanceToNextProvider_def hands_over_def split: if_splits)
qed

lemma failover_fresh:
  assumes "try_failover rq t e a l = (l', v)" "no_slot_queue l"
  shows "v \<noteq> None \<Longrightarrow> hands_over l l'"
    and "v = None \<Longrightarrow> set (fl_excluded l) \<subseteq> set (fl_excluded l') \<and> faultedRoutes l' = faultedRoutes l \<and> no_slot_queue l'
      \<and> fl_provider l' = fl_provider l"
proof -
  have "(v \<noteq> None \<longrightarrow> hands_over l l') \<and> (v = None \<longrightarrow> set (fl_excluded l) \<subseteq> set (fl_excluded l')
    \<and> faultedRoutes l' = faultedRoutes l \<and> no_slot_queue l' \<and> fl_provider l' = fl_provider l)"
  proof (cases "failoverAttempted l \<or> hasPinnedRoute (rq_headers rq)")
    case True
    then show ?thesis using assms by (simp add: try_failover_def)
  next
    case pin: False
    let ?k = "se_failover e" and ?h = "header_Del ''X-MacProvider-Session'' (header_Del ''X-MacProvider-Provider'' (rq_headers rq))"
    let ?ex = "List.insert (SortKey (fl_provider l)) (fl_excluded l)"
    obtain s st r where sel: "selectProviderExcluding (fl_server l) (pk_now ?k) (pk_today ?k) (pk_pool ?k) (pk_polls ?k) (pk_id ?k)
      (rq_model rq) (rq_raw rq) ?h ?ex (rq_dailyKey rq) (Some (fl_state l)) = (s, st, r)" using prod_cases3 by blast
    note q = select_no_queue [OF sel assms(2)]
    show ?thesis
    proof (cases "\<exists>p. r = Inr p \<and> failoverEnabled (fl_server l)")
      case True
      then obtain p where p: "r = Inr p" "failoverEnabled (fl_server l)" by blast
      have "SortKey p \<notin> set ?ex" using select_fresh [OF sel [unfolded p(1)]] pin assms(2) by (simp add: hasPinnedRoute_def header_Get_Del)
      moreover have "v \<noteq> None" using assms sel p pin by (auto simp: try_failover_def failoverCandidate_def Let_def)
      ultimately show ?thesis using assms sel p pin q
        by (auto simp: try_failover_def failoverCandidate_def hands_over_def Let_def split: if_splits)
    next
      case False
      then show ?thesis using assms sel pin q
        by (cases r; cases "failoverEnabled (fl_server l)") (auto simp: try_failover_def failoverCandidate_def Let_def)
    qed
  qed
  then show "v \<noteq> None \<Longrightarrow> hands_over l l'" "v = None \<Longrightarrow> set (fl_excluded l) \<subseteq> set (fl_excluded l') \<and> faultedRoutes l' = faultedRoutes l
    \<and> no_slot_queue l' \<and> fl_provider l' = fl_provider l" by blast+
qed


abbreviation goes_on :: "verdict option \<Rightarrow> bool" where
  "goes_on v \<equiv> \<forall>r. v \<noteq> Some (Finished r)"

lemma hands_over_cong:
  assumes "hands_over k l'" "set (fl_excluded l) \<subseteq> set (fl_excluded k)" "faultedRoutes k = faultedRoutes l"
  shows "hands_over l l'"
  using assms by (auto simp: hands_over_def)

lemma relay_retry_fresh:
  assumes "relay_retry rq t e r a tr l = (l', v)" "\<not> hasPinnedRoute (rq_headers rq)" "no_slot_queue l" "goes_on v"
  shows "hands_over l l'"
proof (cases "\<not> (t = WSNonStreaming \<and> r = wsForwardQueueFull) \<and> \<not> shouldRetry rq e tr l")
  case True
  then show ?thesis using assms(1,4) by (auto simp: relay_retry_def render_def split: if_splits prod.splits bool.splits)
next
  case False
  note adv = assms(1) [unfolded relay_retry_def Let_def if_not_P [OF False]]
  show ?thesis using advance_fresh [OF adv assms(2) _ assms(4)] assms(3) by (auto elim!: hands_over_cong)
qed

lemma relay_attempt_fresh:
  assumes "relay_attempt rq t e r st a l = (l', v)" "\<not> hasPinnedRoute (rq_headers rq)" "no_slot_queue l" "goes_on v"
  shows "hands_over (mark_fault tr l) l'"
proof -
  define tr' where "tr' = classify t (fl_provider l) r st"
  define m where "m = mark_fault tr' l"
  have m: "no_slot_queue m" using assms(3) by (simp add: m_def)
  consider (retry) "relay_retry rq t e r a tr' m = (l', v)"
    | (hit) "try_failover rq t e a m = (l', Some v)"
    | (miss) k where "try_failover rq t e a m = (k, None)" "relay_retry rq t e r a tr' k = (l', v)"
    using assms(1,4) unfolding relay_attempt_def Let_def tr'_def [symmetric] m_def [symmetric]
    by (auto simp: render_def split: if_splits prod.splits option.splits)
  then have "hands_over m l'"
  proof cases
    case retry
    then show ?thesis using relay_retry_fresh assms(2,4) m by blast
  next
    case hit
    then show ?thesis using failover_fresh(1) m by blast
  next
    case (miss k)
    note k = failover_fresh(2) [OF miss(1) m refl]
    show ?thesis using relay_retry_fresh [OF miss(2) assms(2) _ assms(4)] k by (auto elim!: hands_over_cong)
  qed
  then show ?thesis by (rule hands_over_cong) (simp_all add: m_def)
qed

lemma attempt_step_fresh:
  assumes "attempt_step rq t e l = (l', v)" "\<not> hasPinnedRoute (rq_headers rq)" "no_slot_queue l" "goes_on v"
  shows "hands_over (mark_fault tr l) l'"
proof (cases "se_handled e")
  case (Some d)
  then have "end_dispatch rq t e d l = (l', v)" using assms(1) by (simp add: attempt_step_def)
  from end_dispatch_ends [OF this] show ?thesis using assms(4) by auto
next
  case None
  show ?thesis
  proof (cases "t = HTTPNonStreaming")
    case True
    obtain resp err where h: "se_http e = (resp, err)" by fastforce
    have "http_attempt rq e resp err l = (l', v)" using assms(1) None True h by (simp add: attempt_step_def)
    then show ?thesis
    proof (cases rule: http_attempt_cases)
      case (ended d)
      from end_dispatch_ends [OF this] show ?thesis using assms(4) by auto
    next
      case (stopped st)
      then show ?thesis using assms(4) by (auto simp: render_def)
    next
      case again
      from advance_fresh [OF again(2) assms(2) _ assms(4)] show ?thesis using assms(3) by (auto elim!: hands_over_cong)
    qed
  next
    case False
    obtain r st a where r: "se_relay e = (r, st, a)" by (cases "se_relay e")
    have "relay_attempt rq t e r st a l = (l', v)" using assms(1) None False by (simp add: attempt_step_def r)
    then show ?thesis using relay_attempt_fresh assms(2-4) by blast
  qed
qed

text \<open>The sessions a loop dispatches to, in order.\<close>

fun tried :: "chat_request \<Rightarrow> transport \<Rightarrow> step_env list \<Rightarrow> forward_loop_state \<Rightarrow> string list" where
  "tried rq t [] l = []"
| "tried rq t (e # es) l = SortKey (fl_provider l) # (case attempt_step rq t e l of (l', None) \<Rightarrow> tried rq t es l' | _ \<Rightarrow> [])"

text \<open>The sessions of \<open>D\<close> are behind the request.\<close>

definition behind :: "string set \<Rightarrow> forward_loop_state \<Rightarrow> bool" where
  "behind D l \<longleftrightarrow> D \<subseteq> set (fl_excluded l) \<and> D \<subseteq> set (faultedRoutes l) \<and> SortKey (fl_provider l) \<notin> D \<and> no_slot_queue l"

lemma behind_step:
  assumes "attempt_step rq t e l = (l', v)" "\<not> hasPinnedRoute (rq_headers rq)" "behind D l" "goes_on v"
  shows "behind (insert (SortKey (fl_provider l)) D) l'"
  using attempt_step_fresh [OF assms(1,2) _ assms(4)] assms(3) by (auto simp: behind_def hands_over_def)

lemma tried_distinct:
  assumes "\<not> hasPinnedRoute (rq_headers rq)" "behind D l"
  shows "distinct (tried rq t es l) \<and> set (tried rq t es l) \<inter> D = {}
    \<and> (\<forall>l' rest. forwardWithFailover rq t es l = (l', rest, Some FallThroughToHTTP) \<longrightarrow> behind (D \<union> set (tried rq t es l)) l')"
  using assms(2)
proof (induction es arbitrary: l D)
  case (Cons e es)
  obtain m w where m: "attempt_step rq t e l = (m, w)" by fastforce
  show ?case
  proof (cases w)
    case None
    then have "behind (insert (SortKey (fl_provider l)) D) m" using behind_step [OF m assms(1) Cons.prems] by simp
    from Cons.IH [OF this] show ?thesis using m None Cons.prems by (auto simp: behind_def)
  next
    case (Some u)
    then show ?thesis using m behind_step [OF m assms(1) Cons.prems] Cons.prems by (cases u) (auto simp: behind_def)
  qed
qed simp


definition tried_request :: "chat_request \<Rightarrow> bool \<Rightarrow> step_env list \<Rightarrow> forward_loop_state \<Rightarrow> string list" where
  "tried_request rq stream es l =
    (let http = (\<lambda>es l. tried rq HTTPNonStreaming es
           (start_loop (List.insert (SortKey (fl_provider l)) (faultedRoutes l)) l)) in
     if stream then tried rq Streaming es (start_loop [] l)
     else if IsWSTunneled (fl_provider l)
     then tried rq WSNonStreaming es (start_loop [] l) @
       (case forwardWithFailover rq WSNonStreaming es (start_loop [] l) of
         (l, es, Some FallThroughToHTTP) \<Rightarrow> http es l
       | res \<Rightarrow> [])
     else http es l)"

lemma advance_falls_through: "advance rq t e l = (l', Some FallThroughToHTTP) \<Longrightarrow> t = WSNonStreaming"
  by (auto simp: advance_def split: prod.splits option.splits if_splits)

lemma fall_through_is_relay:
  assumes "attempt_step rq t e l = (l', Some FallThroughToHTTP)"
  shows "t = WSNonStreaming"
proof (cases "se_handled e")
  case (Some d)
  then show ?thesis using end_dispatch_ends [of rq t e d l] assms by (simp add: attempt_step_def)
next
  case None
  show ?thesis
  proof (cases "t = HTTPNonStreaming")
    case True
    obtain resp err where h: "se_http e = (resp, err)" by fastforce
    have "http_attempt rq e resp err l = (l', Some FallThroughToHTTP)" using assms None True h by (simp add: attempt_step_def)
    then show ?thesis by (cases rule: http_attempt_cases) (auto simp: render_def dest: end_dispatch_ends advance_falls_through)
  next
    case False
    obtain r st a where r: "se_relay e = (r, st, a)" by (cases "se_relay e")
    have "relay_attempt rq t e r st a l = (l', Some FallThroughToHTTP)" using assms None False by (simp add: attempt_step_def r)
    then show ?thesis by (auto simp: relay_attempt_def relay_retry_def try_failover_def render_def Let_def
        split: if_splits prod.splits option.splits bool.splits dest: advance_falls_through)
  qed
qed

lemma loop_ends_finished:
  assumes "forwardWithFailover rq t es l = (l', rest, Some v)" "t \<noteq> WSNonStreaming"
  shows "\<exists>r. v = Finished r"
  using assms
proof (induction es arbitrary: l)
  case (Cons e es)
  obtain m w where "attempt_step rq t e l = (m, w)" by fastforce
  then show ?case using Cons fall_through_is_relay [of rq t e l m] by (cases w; cases v) auto
qed simp

lemma request_ends_finished:
  assumes "forward_request rq stream es l = (l', rest, Some v)"
  shows "\<exists>r. v = Finished r"
  using assms unfolding forward_request_def Let_def
  by (cases v) (auto split: if_splits prod.splits option.splits verdict.splits dest: loop_ends_finished)


section \<open>Properties\<close>

definition demo_relay :: "string \<Rightarrow> Provider" where
  "demo_relay k = (demo_box k TierPinned ''1.2.0'' 2)\<lparr>p_InferencePath := InferencePathWSTunneled\<rparr>"

definition demo_step :: "wsForwardResult \<Rightarrow> Provider list \<Rightarrow> step_env" where
  "demo_step r ps = (let k = \<lparr>pk_now = 7, pk_today = ''2026-01-01'', pk_pool = ps, pk_polls = [], pk_id = ''r'', pk_recorded = True\<rparr> in
     \<lparr>se_handled = None, se_nullUsage = False, se_relay = (r, 502, \<lparr>at_Status = 0, at_PromptTokens = None, at_CachedPromptTokens = None, at_CompletionTokens = None,
        at_EstimatedCompTokens = None, at_Error = [], at_ErrorCode = [], at_Logged = False\<rparr>), se_http = (Some 502, False),
      se_recorded = True, se_receipt = True, se_cancelled = False, se_now = 7, se_sticky = 7, se_failover = k, se_advance = k\<rparr>)"

definition demo_request :: "headers \<Rightarrow> chat_request" where
  "demo_request h = \<lparr>rq_model = ''qwen'', rq_raw = ''hello'', rq_headers = h, rq_dailyKey = [], rq_started = 1, rq_maxRetries = 2,
     rq_maxFaulted = 0, rq_timeout = 0, rq_attemptTimeout = 0\<rparr>"

definition demo_loop :: "Provider \<Rightarrow> forward_loop_state" where
  "demo_loop p = \<lparr>fl_server = demo_server, fl_state = \<lparr>queuedSlotProviderID = [], stickyResult = [], stickyMissReason = []\<rparr>,
     explicitRetries = 0, faultedProviders = 0, faultedRoutes = [], fl_provider = p, fl_excluded = [], failoverAttempted = False,
     fl_busy = [], fl_rows = []\<rparr>"

definition demo_retry :: headers where
  "demo_retry = [(''X-Macprovider-Retry'', [''2''])]"

definition demo_steps :: "step_env list" where
  "demo_steps = replicate 6 (demo_step wsForwardProviderDisconnected
     [demo_relay ''a'', demo_relay ''b'', demo_relay ''c'', demo_relay ''d'', demo_relay ''e''])"

definition demo_small :: "string \<Rightarrow> Provider" where
  "demo_small k = (demo_box k TierPinned [] 2)\<lparr>ModelID := ''q'', p_InferencePath := InferencePathWSTunneled\<rparr>"

definition demo_plain :: chat_request where
  "demo_plain = (demo_request [])\<lparr>rq_model := ''q'', rq_raw := []\<rparr>"

text \<open>C36. Forwarding ends. Whatever the providers, the pool and the clock do, one request makes at most as
  many attempts as its retry budget (the smaller of the server's limit and the buyer's header) plus three,
  and one more for every full queue of the non-streaming relay, which skips the retry gate. Given that many
  steps the request has finished with a reply, and it never falls through from HTTP.\<close>

theorem forwarding_terminates:
  assumes "forward_request rq stream es l = (l', rest, v)" "explicitRetries l = 0"
  shows "length es - length rest \<le> nat (retry_cap rq) + 3 + full_queues WSNonStreaming es
    \<and> (nat (retry_cap rq) + 3 + full_queues WSNonStreaming es < length es \<longrightarrow> (\<exists>r. v = Some (Finished r)))"
  using request_uses [OF assms(1)] request_ends_finished [of rq stream es l l' rest] assms by (cases v) auto

theorem forwarding_terminates_witness:
  "\<exists>l' rest r. forward_request (demo_request demo_retry) True demo_steps (demo_loop (demo_relay ''a'')) = (l', rest, Some (Finished r))
    \<and> length demo_steps - length rest \<le> 5"
proof -
  obtain l' rest v where f: "forward_request (demo_request demo_retry) True demo_steps (demo_loop (demo_relay ''a'')) = (l', rest, v)"
    using prod_cases3 by blast
  have "nat (retry_cap (demo_request demo_retry)) = 2" "full_queues WSNonStreaming demo_steps = 0" "length demo_steps = 6"
    "explicitRetries (demo_loop (demo_relay ''a'')) = 0" by code_simp+
  then show ?thesis using forwarding_terminates [OF f] f by auto
qed

text \<open>C37. A request without a pin never goes back to a session: across retries, failovers and the change from
  the relay to HTTP, the sessions it is dispatched to are pairwise different (with the slot queue off).\<close>

theorem no_session_tried_twice:
  assumes "\<not> hasPinnedRoute (rq_headers rq)" "s_slotQueue (fl_server l) = None"
  shows "distinct (tried_request rq stream es l)"
proof -
  have start: "behind {} (start_loop x l)" for x using assms(2) by (simp add: behind_def start_loop_def)
  have once: "distinct (tried rq t es (start_loop x l))" for t x using tried_distinct [OF assms(1) start] by blast
  obtain k mid u where ws: "forwardWithFailover rq WSNonStreaming es (start_loop [] l) = (k, mid, u)" using prod_cases3 by blast
  let ?ws = "tried rq WSNonStreaming es (start_loop [] l)"
  let ?http = "start_loop (List.insert (SortKey (fl_provider k)) (faultedRoutes k)) k"
  have both: "distinct (?ws @ tried rq HTTPNonStreaming mid ?http)" if "u = Some FallThroughToHTTP"
  proof -
    have "behind ({} \<union> set ?ws) k" using tried_distinct [OF assms(1) start, of WSNonStreaming es "[]"] ws that by blast
    then have "behind (set ?ws) ?http" by (auto simp: behind_def start_loop_def)
    from tried_distinct [OF assms(1) this] show ?thesis using once by (simp add: Int_commute)
  qed
  show ?thesis
  proof (cases "u = Some FallThroughToHTTP")
    case True
    then show ?thesis using once both ws by (simp add: tried_request_def Let_def)
  next
    case False
    then show ?thesis using once ws by (simp add: tried_request_def Let_def split: option.splits verdict.splits)
  qed
qed

theorem no_session_tried_twice_witness:
  "distinct (tried_request demo_plain True (replicate 2 (demo_step wsForwardProviderDisconnected [demo_small ''a'', demo_small ''b''])) (demo_loop (demo_small ''a'')))
    \<and> tried_request demo_plain True (replicate 2 (demo_step wsForwardProviderDisconnected [demo_small ''a'', demo_small ''b''])) (demo_loop (demo_small ''a''))
      = [''a/s'', ''b/s'']"
proof
  show "distinct (tried_request demo_plain True (replicate 2 (demo_step wsForwardProviderDisconnected [demo_small ''a'', demo_small ''b'']))
    (demo_loop (demo_small ''a'')))"
    by (rule no_session_tried_twice)
      (simp_all add: demo_plain_def demo_request_def hasPinnedRoute_def header_Get_def demo_loop_def demo_server_def)
  show "tried_request demo_plain True (replicate 2 (demo_step wsForwardProviderDisconnected [demo_small ''a'', demo_small ''b''])) (demo_loop (demo_small ''a''))
      = [''a/s'', ''b/s'']"
    by code_simp
qed

text \<open>A full queue of the non-streaming relay skips the retry test, and with it the rule that a pinned request is not
  retried: the request goes back to the selection, which honours the pin and ignores the excluded sessions.\<close>

lemma full_queue_skips_retry_gate:
  "relay_attempt rq WSNonStreaming e wsForwardQueueFull st a l =
     advance rq WSNonStreaming e (fst (logAttempt rq e 502 a (mark_fault (classifyWSResult wsForwardQueueFull) l)))"
  by (simp add: relay_attempt_def relay_retry_def classify_def classifyWSResult_def plain_result_def Let_def)

end
