(* ===== verification/Ledger_Tables.thy ===== *)
theory Ledger_Tables
  imports Billing_Formula
begin

text \<open>
  The SQLite ledger of the billing package: the tables of \<open>billing/store.go\<close> with the columns its money
  path reads, the schema's \<open>CHECK\<close> and \<open>UNIQUE\<close> constraints and triggers, statements and
  transactions. A table is the list of its rows in id order and a statement is a function on it. Timestamps
  are stored as fixed-width text, whose order is that of the instants, so they are instants here. Columns that
  only record when or by whom a row was written are left out, and so are the two audit copies of the prompt
  count (a negative reported count is refused by the identity row that the same transaction inserts). The
  trigger that protects closed payouts is not modelled: every update of a payout in the code selects open rows.
\<close>

section \<open>Tables\<close>

datatype PolicyMode = Legacy | Observe | Enforce
datatype PayoutStatus = Ready | Consumed | Voided
datatype ResolutionKind = ForceVoid | ForceCredit

record request_log_row =
  rl_id :: int
  rl_ts :: time
  rl_request :: string
  rl_account :: "string option"
  rl_model :: string
  rl_assigned :: "string option"
  rl_prompt :: "int option"
  rl_cached :: "int option"
  rl_completion :: "int option"
  rl_estimated :: "int option"
  rl_status :: int
  rl_error_code :: string
  rl_cache_reason :: string
  rl_retried :: int
  rl_attempt :: "int option"

record request_credit =
  c_id :: int
  c_request :: string
  c_attempt :: int
  c_provider :: string
  c_assigned :: "string option"
  c_ts :: time
  c_model :: string
  c_prompt :: "int option"
  c_cached :: "int option"
  c_completion :: "int option"
  c_estimated :: "int option"
  c_usage :: string
  c_prompt_rate :: int
  c_completion_rate :: int
  c_multiplier :: int
  c_gross :: int
  c_share :: int
  c_prov :: int
  c_fault :: string
  c_settled :: bool
  c_settlement :: "int option"
  c_quarantined :: bool
  c_reason :: "string option"
  c_scope :: "string option"
  c_mode :: PolicyMode
  c_version :: "string option"

record operator_credit =
  oc_credit :: int
  oc_gross :: int
  oc_share :: int
  oc_credits :: int
  oc_fault :: string

record payout_ready =
  po_id :: int
  po_provider :: string
  po_start :: time
  po_end :: time
  po_cadence :: int
  po_count :: int
  po_gross :: int
  po_prov :: int
  po_oper :: int
  po_min :: int
  po_currency :: "string option"
  po_external :: "string option"
  po_status :: PayoutStatus
  po_created :: time

record quarantine_resolution =
  qr_id :: int
  qr_credit :: int
  qr_kind :: ResolutionKind
  qr_operator :: string
  qr_reason :: string
  qr_created :: time
  qr_matures :: "time option"
  qr_deadline :: time

record provider_identity =
  li_request :: string
  li_attempt :: int
  li_assigned :: string
  li_provider :: string
  li_snapshot :: "int option"
  li_reported :: "int option"

text \<open>\<open>cs_card\<close> is \<open>None\<close> when the stored JSON does not decode.\<close>

record config_snapshot =
  cs_id :: int
  cs_effective :: time
  cs_share :: int
  cs_multiplier :: int
  cs_card :: "(string \<times> RateCardEntry) list option"

record route_snapshot =
  srs_scope :: string
  srs_request :: string
  srs_attempt :: int
  srs_provider :: string
  srs_digest :: string
  srs_version :: string
  srs_mode :: PolicyMode

record receipt_verdict =
  srv_scope :: string
  srv_request :: string
  srv_attempt :: int
  srv_provider :: string
  srv_digest :: string
  srv_version :: string
  srv_mode :: PolicyMode
  srv_closed :: bool
  srv_result :: string
  srv_outcome :: string
  srv_reason :: string

text \<open>\<open>sao_usage\<close> holds the billable input and output tokens of the canonical usage JSON, \<open>None\<close> when it
  does not decode.\<close>

record attempt_output =
  sao_scope :: string
  sao_request :: string
  sao_attempt :: int
  sao_provider :: string
  sao_overlap :: bool
  sao_usage :: "(int \<times> int) option"

record reconciliation_run =
  rr_type :: string
  rr_from :: time
  rr_to :: time
  rr_scanned :: int
  rr_created :: int
  rr_quarantined :: int
  rr_buyer :: int
  rr_gross :: int
  rr_delta :: int
  rr_status :: string

record ledger =
  request_log :: "request_log_row list"
  credits :: "request_credit list"
  operators :: "operator_credit list"
  payouts :: "payout_ready list"
  resolutions :: "quarantine_resolution list"
  identities :: "provider_identity list"
  snapshots :: "config_snapshot list"
  routes :: "route_snapshot list"
  verdicts :: "receipt_verdict list"
  outputs :: "attempt_output list"
  runs :: "reconciliation_run list"
  next_log :: int
  next_credit :: int
  next_payout :: int
  next_resolution :: int

definition empty_ledger :: ledger where
  "empty_ledger = \<lparr>request_log = [], credits = [], operators = [], payouts = [], resolutions = [],
     identities = [], snapshots = [], routes = [], verdicts = [], outputs = [], runs = [],
     next_log = 1, next_credit = 1, next_payout = 1, next_resolution = 1\<rparr>"

datatype ledger_error =
  UniqueViolation | CheckViolation | TriggerAbort | IntegerOverflow | DecodeError | SettledMismatch | CommitError


section \<open>Statements and transactions\<close>

definition update_where :: "('r \<Rightarrow> bool) \<Rightarrow> ('r \<Rightarrow> 'r) \<Rightarrow> 'r list \<Rightarrow> 'r list" where
  "update_where P f = map (\<lambda>r. if P r then f r else r)"

text \<open>\<open>COALESCE\<close> of a nullable column.\<close>

definition coalesce :: "'a option \<Rightarrow> 'a \<Rightarrow> 'a option" where
  "coalesce v d = (case v of None \<Rightarrow> Some d | Some x \<Rightarrow> Some x)"

text \<open>An error in the body, or in the commit, rolls the transaction back.\<close>

definition Transact :: "bool \<Rightarrow> ('s \<Rightarrow> ledger_error + 's \<times> 'a) \<Rightarrow> 's \<Rightarrow> 's \<times> (ledger_error + 'a)" where
  "Transact commits body s = (case body s of Inl e \<Rightarrow> (s, Inl e)
     | Inr (s', r) \<Rightarrow> if commits then (s', Inr r) else (s, Inl CommitError))"

definition bind_err :: "('e + 'a) \<Rightarrow> ('a \<Rightarrow> 'e + 'b) \<Rightarrow> 'e + 'b" where
  "bind_err m f = (case m of Inl e \<Rightarrow> Inl e | Inr x \<Rightarrow> f x)"

lemma bind_err_simps [simp]: "bind_err (Inl e) f = Inl e" "bind_err (Inr x) f = f x"
  by (simp_all add: bind_err_def)

lemma bind_err_Inr: "bind_err m f = Inr y \<longleftrightarrow> (\<exists>x. m = Inr x \<and> f x = Inr y)"
  by (cases m) simp_all

primrec fold_err :: "('a \<Rightarrow> 's \<Rightarrow> 'e + 's) \<Rightarrow> 'a list \<Rightarrow> 's \<Rightarrow> 'e + 's" where
  "fold_err f [] s = Inr s"
| "fold_err f (x # xs) s = bind_err (f x s) (fold_err f xs)"


section \<open>Constraints\<close>

definition nonneg :: "int option \<Rightarrow> bool" where
  "nonneg v = (case v of None \<Rightarrow> True | Some n \<Rightarrow> 0 \<le> n)"

text \<open>A comparison with \<open>NULL\<close> is \<open>NULL\<close>, which a \<open>CHECK\<close> accepts.\<close>

definition cached_check :: "int option \<Rightarrow> int option \<Rightarrow> bool" where
  "cached_check cached prompt = (case cached of None \<Rightarrow> True
     | Some n \<Rightarrow> 0 \<le> n \<and> (case prompt of None \<Rightarrow> True | Some m \<Rightarrow> n \<le> m))"

definition hex_digit :: "char \<Rightarrow> bool" where
  "hex_digit c \<longleftrightarrow> c \<in> set ''0123456789abcdef''"

definition scope_check :: "string option \<Rightarrow> bool" where
  "scope_check v = (case v of None \<Rightarrow> True | Some x \<Rightarrow> length x = 64 \<and> list_all hex_digit x)"

definition usage_sources :: "string list" where
  "usage_sources = [''provider_reported'', ''byte_estimated'', ''null_error'']"

definition fault_flags :: "string list" where
  "fault_flags = [''none'', ''breaker_qualifying'', ''null_usage_error'']"

definition credit_check :: "request_credit \<Rightarrow> bool" where
  "credit_check c \<longleftrightarrow> 0 \<le> c_attempt c \<and> nonneg (c_prompt c) \<and> cached_check (c_cached c) (c_prompt c)
     \<and> nonneg (c_completion c) \<and> nonneg (c_estimated c) \<and> c_usage c \<in> set usage_sources
     \<and> 0 \<le> c_prompt_rate c \<and> 0 \<le> c_completion_rate c \<and> 0 \<le> c_multiplier c \<and> 0 \<le> c_gross c
     \<and> 0 \<le> c_share c \<and> c_share c \<le> 10000 \<and> 0 \<le> c_prov c \<and> c_fault c \<in> set fault_flags
     \<and> scope_check (c_scope c) \<and> (c_usage c = ''null_error'' \<longrightarrow> c_gross c = 0)"

definition operator_check :: "operator_credit \<Rightarrow> bool" where
  "operator_check o' \<longleftrightarrow> 0 \<le> oc_gross o' \<and> 0 \<le> oc_share o' \<and> oc_share o' \<le> 10000 \<and> 0 \<le> oc_credits o'
     \<and> oc_fault o' \<in> set fault_flags"

definition payout_check :: "payout_ready \<Rightarrow> bool" where
  "payout_check p \<longleftrightarrow> 0 < po_cadence p \<and> 0 < po_count p \<and> 0 \<le> po_gross p \<and> 0 \<le> po_prov p \<and> 0 \<le> po_oper p
     \<and> 0 \<le> po_min p"

definition credit_key :: "request_credit \<Rightarrow> string \<times> int \<times> string" where
  "credit_key c = (c_request c, c_attempt c, c_provider c)"

text \<open>The idempotency key of a payout joins the provider and the two fixed-width timestamps with a bar, so
  it determines all three; it is that triple here.\<close>

definition payout_key :: "payout_ready \<Rightarrow> string \<times> time \<times> time" where
  "payout_key p = (po_provider p, po_start p, po_end p)"

text \<open>The two triggers on settled credits: the money columns may not change in an update from or to a
  settled row, and the link of a settled row may not change.\<close>

definition money_of :: "request_credit \<Rightarrow> int option list \<times> string list \<times> int list" where
  "money_of c = ([c_prompt c, c_completion c, c_estimated c, c_cached c], [c_usage c, c_fault c],
     [c_prompt_rate c, c_completion_rate c, c_multiplier c, c_gross c, c_share c, c_prov c])"

definition settled_guard :: "request_credit \<Rightarrow> request_credit \<Rightarrow> bool" where
  "settled_guard old new \<longleftrightarrow> ((c_settled old \<or> c_settled new) \<longrightarrow> money_of new = money_of old)
     \<and> (c_settled old \<longrightarrow> c_settled new = c_settled old \<and> c_settlement new = c_settlement old)"

definition update_credits :: "(request_credit \<Rightarrow> bool) \<Rightarrow> (request_credit \<Rightarrow> request_credit) \<Rightarrow> ledger \<Rightarrow> ledger_error + ledger" where
  "update_credits P f s =
    (if \<exists>c \<in> set (credits s). P c \<and> \<not> settled_guard c (f c) then Inl TriggerAbort
     else if \<exists>c \<in> set (credits s). P c \<and> \<not> credit_check (f c) then Inl CheckViolation
     else Inr (s\<lparr>credits := update_where P f (credits s)\<rparr>))"

definition insert_credit :: "request_credit \<Rightarrow> ledger \<Rightarrow> ledger_error + ledger \<times> int" where
  "insert_credit c s =
    (if \<not> credit_check c then Inl CheckViolation
     else if \<exists>c' \<in> set (credits s). credit_key c' = credit_key c then Inl UniqueViolation
     else Inr (s\<lparr>credits := credits s @ [c\<lparr>c_id := next_credit s\<rparr>], next_credit := next_credit s + 1\<rparr>, next_credit s))"

end
