(* ===== verification/Ledger_Hotpath.thy ===== *)
theory Ledger_Hotpath
  imports Ledger_Tables
begin

text \<open>
  The write path of one attempt (\<open>billing/hotpath.go\<close>) and the rewrite of a credit from a verified receipt
  (\<open>syncVerifiedReceiptLedgerCreditForAttemptTx\<close> of \<open>billing/settlement_receipts.go\<close>). \<open>sha\<close> is the
  hexadecimal SHA-256 of the standard library.
\<close>

section \<open>Inputs\<close>

record HotPathInput =
  in_RequestID :: string
  in_AttemptN :: int
  in_AssignedID :: string
  in_ProviderID :: string
  in_Model :: string
  in_TSUtc :: time
  in_Prompt :: "int option"
  in_PromptBound :: "int option"
  in_Reported :: "int option"
  in_Cached :: "int option"
  in_Completion :: "int option"
  in_Estimated :: "int option"
  in_ErrorCode :: string
  in_Fault :: string
  in_StickyResult :: string
  in_SnapshotID :: int
  in_Rate :: RateCardEntry
  in_Multiplier :: int
  in_Share :: int
  in_ScopeHash :: string
  in_PolicyMode :: string
  in_PolicyVersion :: string

definition nullString :: "string \<Rightarrow> string option" where
  "nullString x = (if x = [] then None else Some x)"

definition AccountScopeForSettlement :: "(string \<Rightarrow> string) \<Rightarrow> string \<Rightarrow> string" where
  "AccountScopeForSettlement sha account = (let account = TrimSpace account in
     if account = [] then ''legacy_direct'' else ''acct_sha256:'' @ sha (''spec015-account-scope-v1:'' @ account))"

definition SettlementAccountScopeHash :: "(string \<Rightarrow> string) \<Rightarrow> string \<Rightarrow> string" where
  "SettlementAccountScopeHash sha scope = sha (''settlement_receipt_account_scope_v1:'' @ scope)"

definition SettlementAccountScopeHashForAccountID :: "(string \<Rightarrow> string) \<Rightarrow> string \<Rightarrow> string" where
  "SettlementAccountScopeHashForAccountID sha account = SettlementAccountScopeHash sha (AccountScopeForSettlement sha account)"

definition settlementPolicyModeOrLegacy :: "string \<Rightarrow> PolicyMode" where
  "settlementPolicyModeOrLegacy mode = (if mode = ''observe'' then Observe else if mode = ''enforce'' then Enforce else Legacy)"

definition boundProviderReportedPromptTokens :: "HotPathInput \<Rightarrow> HotPathInput" where
  "boundProviderReportedPromptTokens i = (let i = i\<lparr>in_Reported := in_Prompt i\<rparr> in
     case (in_Prompt i, in_PromptBound i) of
       (Some p, Some b) \<Rightarrow> (let b = max b 0 in if p > b then i\<lparr>in_Prompt := Some b\<rparr> else i)
     | _ \<Rightarrow> i)"

definition requestLogRowWithBoundedPrompt :: "request_log_row \<Rightarrow> HotPathInput \<Rightarrow> request_log_row" where
  "requestLogRowWithBoundedPrompt r i = (case (rl_prompt r, in_PromptBound i) of
     (Some p, Some b) \<Rightarrow> (let b = max b 0 in
        if p \<le> b then r
        else r\<lparr>rl_prompt := Some b,
               rl_cached := (case rl_cached r of Some n \<Rightarrow> if n > b then None else Some n | None \<Rightarrow> None)\<rparr>)
   | _ \<Rightarrow> r)"

definition normalizeCachedPromptTokens :: "HotPathInput \<Rightarrow> HotPathInput \<times> string" where
  "normalizeCachedPromptTokens i = (case in_Cached i of None \<Rightarrow> (i, [])
     | Some cached \<Rightarrow>
       if cached < 0 \<or> (case in_Prompt i of None \<Rightarrow> True | Some p \<Rightarrow> cached > p)
       then (i\<lparr>in_Cached := None\<rparr>, ''invalid_cached_prompt_tokens'')
       else if in_AttemptN i > 0 then (i\<lparr>in_Cached := None\<rparr>, [])
       else if in_StickyResult i \<noteq> ''hit''
       then (i\<lparr>in_Cached := None\<rparr>, (if cached > 0 then ''ambiguous_cache'' else []))
       else (i, []))"


section \<open>Inserts\<close>

definition log_count :: "string option \<Rightarrow> string \<Rightarrow> request_log_row list \<Rightarrow> int" where
  "log_count account request rows = int (length (filter (\<lambda>r. rl_account r = account \<and> rl_request r = request) rows))"

definition InsertExec :: "request_log_row \<Rightarrow> ledger \<Rightarrow> ledger" where
  "InsertExec r s =
    (let attempt = (case rl_attempt r of Some n \<Rightarrow> n | None \<Rightarrow> log_count (rl_account r) (rl_request r) (request_log s))
     in s\<lparr>request_log := request_log s @ [r\<lparr>rl_id := next_log s, rl_attempt := Some attempt\<rparr>],
          next_log := next_log s + 1\<rparr>)"

definition credit_of :: "HotPathInput \<Rightarrow> BilledRow \<Rightarrow> bool \<Rightarrow> string \<Rightarrow> request_credit" where
  "credit_of i b quarantined reason = \<lparr>c_id = 0, c_request = in_RequestID i, c_attempt = in_AttemptN i,
     c_provider = in_ProviderID i, c_assigned = nullString (in_AssignedID i), c_ts = in_TSUtc i,
     c_model = in_Model i, c_prompt = br_PromptTokens b, c_cached = br_CachedPromptTokens b,
     c_completion = br_CompletionTokens b, c_estimated = br_EstimatedCompTokens b,
     c_usage = br_UsageSource b, c_prompt_rate = PromptRatePerMtok b,
     c_completion_rate = CompletionRatePerMtok b, c_multiplier = GlobalMultiplierPPM b,
     c_gross = GrossCredits b, c_share = ProviderShareBps b, c_prov = ProviderCredits b,
     c_fault = br_FaultFlag b, c_settled = False, c_settlement = None, c_quarantined = quarantined,
     c_reason = nullString reason, c_scope = nullString (in_ScopeHash i),
     c_mode = settlementPolicyModeOrLegacy (in_PolicyMode i), c_version = nullString (in_PolicyVersion i)\<rparr>"

definition insertRequestCreditTx :: "HotPathInput \<Rightarrow> BilledRow \<Rightarrow> bool \<Rightarrow> string \<Rightarrow> ledger \<Rightarrow> ledger_error + ledger \<times> int" where
  "insertRequestCreditTx i b quarantined reason s = insert_credit (credit_of i b quarantined reason) s"

definition insertOperatorCreditTx :: "int \<Rightarrow> BilledRow \<Rightarrow> ledger \<Rightarrow> ledger_error + ledger" where
  "insertOperatorCreditTx cid b s =
    (let o' = \<lparr>oc_credit = cid, oc_gross = GrossCredits b, oc_share = 10000 - ProviderShareBps b,
       oc_credits = OperatorCredits b, oc_fault = br_FaultFlag b\<rparr> in
     if \<not> operator_check o' then Inl CheckViolation
     else if \<exists>x \<in> set (operators s). oc_credit x = cid then Inl UniqueViolation
     else Inr (s\<lparr>operators := operators s @ [o']\<rparr>))"

text \<open>A conflicting row is left as it is.\<close>

definition insertProviderIdentitySnapshotTx :: "HotPathInput \<Rightarrow> ledger \<Rightarrow> ledger_error + ledger" where
  "insertProviderIdentitySnapshotTx i s =
    (let row = \<lparr>li_request = in_RequestID i, li_attempt = in_AttemptN i, li_assigned = in_AssignedID i,
       li_provider = in_ProviderID i, li_snapshot = (if in_SnapshotID i > 0 then Some (in_SnapshotID i) else None),
       li_reported = in_Reported i\<rparr> in
     if in_AttemptN i < 0 \<or> \<not> nonneg (in_Reported i) then Inl CheckViolation
     else if \<exists>x \<in> set (identities s). li_request x = li_request row \<and> li_attempt x = li_attempt row
         \<and> li_assigned x = li_assigned row then Inr s
     else Inr (s\<lparr>identities := identities s @ [row]\<rparr>))"


section \<open>Receipt-bound credits\<close>

definition evidence :: "request_credit \<Rightarrow> string \<Rightarrow> string \<Rightarrow> ledger \<Rightarrow> attempt_output list" where
  "evidence c scope version s =
    [sao. srs \<leftarrow> routes s, srs_request srs = c_request c \<and> srs_attempt srs = c_attempt c
            \<and> srs_provider srs = c_provider c \<and> srs_mode srs = Enforce \<and> srs_version srs = version,
          srv \<leftarrow> verdicts s, srv_scope srv = scope \<and> srv_request srv = srs_request srs
            \<and> srv_attempt srv = srs_attempt srs \<and> srv_provider srv = srs_provider srs
            \<and> srv_digest srv = srs_digest srs \<and> srv_mode srv = Enforce \<and> srv_version srv = version
            \<and> srv_closed srv \<and> srv_outcome srv = ''verified'',
          sao \<leftarrow> outputs s, sao_scope sao = srs_scope srs \<and> sao_request sao = srs_request srs
            \<and> sao_attempt sao = srs_attempt srs \<and> sao_provider sao = srs_provider srs
            \<and> \<not> sao_overlap sao]"

definition verified_output :: "request_credit \<Rightarrow> ledger \<Rightarrow> attempt_output option" where
  "verified_output c s = (case (c_scope c, c_version c) of
     (Some scope, Some version) \<Rightarrow> (case evidence c scope version s of [] \<Rightarrow> None | x # _ \<Rightarrow> Some x)
   | _ \<Rightarrow> None)"

definition sync_target :: "string \<Rightarrow> int \<Rightarrow> string \<Rightarrow> ledger \<Rightarrow> (request_credit \<times> attempt_output) option" where
  "sync_target request attempt provider s =
    (case find (\<lambda>c. credit_key c = (request, attempt, provider) \<and> c_mode c = Enforce \<and> \<not> c_quarantined c
            \<and> \<not> c_settled c \<and> c_settlement c = None \<and> verified_output c s \<noteq> None) (credits s) of
       None \<Rightarrow> None | Some c \<Rightarrow> map_option (Pair c) (verified_output c s))"

definition identity_snapshot :: "request_credit \<Rightarrow> ledger \<Rightarrow> int option" where
  "identity_snapshot c s =
    (case filter (\<lambda>x. li_request x = c_request c \<and> li_attempt x = c_attempt c \<and> li_provider x = c_provider c
            \<and> Some (li_assigned x) = c_assigned c) (identities s) of
       [] \<Rightarrow> None | xs \<Rightarrow> li_snapshot (List.last xs))"

definition snapshotByIDQueryer :: "int \<Rightarrow> ledger \<Rightarrow> ledger_error + ((string \<times> RateCardEntry) list \<times> int \<times> int) option" where
  "snapshotByIDQueryer sid s = (case find (\<lambda>x. cs_id x = sid) (snapshots s) of None \<Rightarrow> Inr None
     | Some x \<Rightarrow> (case cs_card x of None \<Rightarrow> Inl DecodeError | Some rates \<Rightarrow> Inr (Some (rates, cs_multiplier x, cs_share x))))"

definition markVerifiedReceiptCacheQuarantinedTx :: "int \<Rightarrow> string \<Rightarrow> ledger \<Rightarrow> ledger_error + ledger" where
  "markVerifiedReceiptCacheQuarantinedTx cid reason s =
    bind_err (update_credits (\<lambda>c. c_id c = cid)
        (\<lambda>c. c\<lparr>c_quarantined := True, c_reason := Some reason, c_gross := 0, c_prov := 0\<rparr>) s)
      (\<lambda>s. Inr (s\<lparr>operators := update_where (\<lambda>o'. oc_credit o' = cid)
         (\<lambda>o'. o'\<lparr>oc_gross := 0, oc_credits := 0\<rparr>) (operators s)\<rparr>))"

definition markSettlementReceiptCacheQuarantinedTx :: "string \<Rightarrow> string \<Rightarrow> int \<Rightarrow> string \<Rightarrow> string \<Rightarrow> ledger \<Rightarrow> ledger" where
  "markSettlementReceiptCacheQuarantinedTx scope request attempt provider reason s =
    s\<lparr>verdicts := update_where (\<lambda>v. srv_scope v = scope \<and> srv_request v = request \<and> srv_attempt v = attempt
         \<and> srv_provider v = provider)
       (\<lambda>v. v\<lparr>srv_result := ''invalid'', srv_outcome := ''quarantined'', srv_reason := reason, srv_closed := True\<rparr>)
       (verdicts s)\<rparr>"

definition quarantine_receipt :: "request_credit \<Rightarrow> string \<Rightarrow> ledger \<Rightarrow> ledger_error + ledger \<times> string" where
  "quarantine_receipt c reason s =
    bind_err (markVerifiedReceiptCacheQuarantinedTx (c_id c) reason s)
      (\<lambda>s. Inr (markSettlementReceiptCacheQuarantinedTx (case c_scope c of Some x \<Rightarrow> x | None \<Rightarrow> [])
         (c_request c) (c_attempt c) (c_provider c) reason s, reason))"

definition rewrite_credit :: "request_credit \<Rightarrow> BilledRow \<Rightarrow> ledger \<Rightarrow> ledger_error + ledger \<times> string" where
  "rewrite_credit c b s =
    bind_err (update_credits (\<lambda>x. c_id x = c_id c)
        (\<lambda>x. x\<lparr>c_prompt := br_PromptTokens b, c_completion := br_CompletionTokens b, c_estimated := None,
           c_usage := br_UsageSource b, c_gross := GrossCredits b, c_prov := ProviderCredits b,
           c_fault := br_FaultFlag b\<rparr>) s)
      (\<lambda>s. if \<exists>o' \<in> set (operators s). oc_credit o' = c_id c
             \<and> \<not> operator_check (o'\<lparr>oc_gross := GrossCredits b, oc_credits := OperatorCredits b, oc_fault := br_FaultFlag b\<rparr>)
         then Inl CheckViolation
         else Inr (s\<lparr>operators := update_where (\<lambda>o'. oc_credit o' = c_id c)
           (\<lambda>o'. o'\<lparr>oc_gross := GrossCredits b, oc_credits := OperatorCredits b, oc_fault := br_FaultFlag b\<rparr>)
           (operators s)\<rparr>, []))"

text \<open>\<open>cached_rate\<close> settles the cached-prompt part: either the reason for a quarantine, or the rate entry
  with the cached tokens to bill.\<close>

definition cached_rate :: "request_credit \<Rightarrow> int \<Rightarrow> ledger \<Rightarrow> ledger_error + (string + RateCardEntry \<times> int option)" where
  "cached_rate c chargedPrompt s =
    (let rate = \<lparr>PromptCreditsPerMtok = c_prompt_rate c, PromptCacheHitCreditsPerMtok = 0,
           CompletionCreditsPerMtok = c_completion_rate c, promptCacheHitRateSet = False\<rparr> in
     case c_cached c of None \<Rightarrow> Inr (Inr (rate, None))
     | Some cached \<Rightarrow>
       if cached \<le> 0 then Inr (Inr (rate, None))
       else if cached > chargedPrompt then Inr (Inl ''invalid_cached_prompt_tokens'')
       else (case identity_snapshot c s of None \<Rightarrow> Inr (Inl ''missing_cache_config_snapshot'')
         | Some sid \<Rightarrow> bind_err (snapshotByIDQueryer sid s) (\<lambda>r. case r of
             None \<Rightarrow> Inr (Inl ''missing_cache_config_snapshot'')
           | Some (rates, multiplier, share) \<Rightarrow>
             (let rate = RateFor rates (c_model c);
                  current = ComputeCreditsWithCache (c_prompt c) (Some cached) (c_completion c) (c_estimated c)
                    (c_usage c) (c_fault c) rate (c_multiplier c) (c_share c) in
              if PromptCreditsPerMtok rate \<noteq> c_prompt_rate c \<or> CompletionCreditsPerMtok rate \<noteq> c_completion_rate c
                \<or> multiplier \<noteq> c_multiplier c \<or> share \<noteq> c_share c
              then Inr (Inl ''cache_config_snapshot_rate_mismatch'')
              else if GrossCredits current \<noteq> c_gross c \<or> ProviderCredits current \<noteq> c_prov c
                \<or> br_UsageSource current \<noteq> c_usage c \<or> br_FaultFlag current \<noteq> c_fault c
              then Inr (Inl ''cache_config_snapshot_rate_mismatch'')
              else Inr (Inr (rate, Some cached))))))"

definition syncVerifiedReceiptLedgerCreditForAttemptTx ::
  "string \<Rightarrow> int \<Rightarrow> string \<Rightarrow> ledger \<Rightarrow> ledger_error + ledger \<times> string" where
  "syncVerifiedReceiptLedgerCreditForAttemptTx request attempt provider s =
    (case sync_target request attempt provider s of None \<Rightarrow> Inr (s, [])
     | Some (c, sao) \<Rightarrow> (case sao_usage sao of None \<Rightarrow> Inl DecodeError
       | Some (prompt, completion) \<Rightarrow>
         (let charged = (case c_prompt c of Some p \<Rightarrow> min prompt p | None \<Rightarrow> prompt) in
          bind_err (cached_rate c charged s) (\<lambda>r. case r of
            Inl reason \<Rightarrow> quarantine_receipt c reason s
          | Inr (rate, cached) \<Rightarrow>
            rewrite_credit c (ComputeCreditsWithCache (Some charged) cached (Some completion) None
              ''provider_reported'' (c_fault c) rate (c_multiplier c) (c_share c)) s))))"


section \<open>The hot path\<close>

definition quarantined_attempt :: "HotPathInput \<Rightarrow> BilledRow \<Rightarrow> string \<Rightarrow> ledger \<Rightarrow> ledger_error + ledger" where
  "quarantined_attempt i b reason s =
    bind_err (insertRequestCreditTx i (zeroCredits b) True reason s)
      (\<lambda>(s, _). insertProviderIdentitySnapshotTx i s)"

definition plain_credits :: "HotPathInput \<Rightarrow> BilledRow" where
  "plain_credits i = ComputeCredits (in_Prompt i) (in_Completion i) (in_Estimated i)
     (usageFor (in_ErrorCode i) (in_Estimated i)) (in_Fault i) (in_Rate i) (in_Multiplier i) (in_Share i)"

definition cached_credits :: "HotPathInput \<Rightarrow> BilledRow" where
  "cached_credits i = ComputeCreditsWithCache (in_Prompt i) (in_Cached i) (in_Completion i) (in_Estimated i)
     (usageFor (in_ErrorCode i) (in_Estimated i)) (in_Fault i) (in_Rate i) (in_Multiplier i) (in_Share i)"

definition with_defaults :: "time \<Rightarrow> HotPathInput \<Rightarrow> HotPathInput" where
  "with_defaults now i = i\<lparr>in_TSUtc := (if IsZero (in_TSUtc i) then now else in_TSUtc i),
     in_Fault := (if in_Fault i = [] then FaultNone else in_Fault i)\<rparr>"

definition credit_attempt :: "HotPathInput \<Rightarrow> ledger \<Rightarrow> ledger_error + ledger" where
  "credit_attempt i s =
    bind_err (insertRequestCreditTx i (cached_credits i) False [] s) (\<lambda>(s, cid).
    bind_err (insertOperatorCreditTx cid (cached_credits i) s) (\<lambda>s.
    bind_err (insertProviderIdentitySnapshotTx i s) (\<lambda>s.
    bind_err (syncVerifiedReceiptLedgerCreditForAttemptTx (in_RequestID i) (in_AttemptN i) (in_ProviderID i) s)
      (\<lambda>(s, _). Inr s))))"

definition scoped :: "(string \<Rightarrow> string) \<Rightarrow> request_log_row \<Rightarrow> HotPathInput \<Rightarrow> HotPathInput" where
  "scoped sha r i = (let i = (if in_ScopeHash i = [] then i\<lparr>in_ScopeHash :=
       SettlementAccountScopeHashForAccountID sha (case rl_account r of Some a \<Rightarrow> a | None \<Rightarrow> [])\<rparr> else i)
     in if in_PolicyMode i = [] then i\<lparr>in_PolicyMode := ''legacy''\<rparr> else i)"

definition hot_path_body :: "(string \<Rightarrow> string) \<Rightarrow> time \<Rightarrow> request_log_row \<Rightarrow> HotPathInput \<Rightarrow> ledger \<Rightarrow> ledger_error + ledger" where
  "hot_path_body sha now r i s =
    (let s = InsertExec r s in
     if in_AssignedID i = [] then Inr s
     else let i = scoped sha r i; derived = log_count (rl_account r) (in_RequestID i) (request_log s) - 1 in
       if derived \<ge> 0 \<and> derived > in_AttemptN i
       then let i = with_defaults now (i\<lparr>in_AttemptN := derived\<rparr>)
            in quarantined_attempt i (plain_credits i) ''ambiguous_attempt_n'' s
       else let (i, reason) = normalizeCachedPromptTokens (with_defaults now i) in
         if in_AttemptN i = 1 \<and> rl_retried r = 0
         then quarantined_attempt i (plain_credits i) ''ambiguous_attempt_n'' s
         else if reason \<noteq> [] then quarantined_attempt i (cached_credits i) reason s
         else credit_attempt i s)"

definition writeHotPath :: "(string \<Rightarrow> string) \<Rightarrow> bool \<Rightarrow> time \<Rightarrow> string option \<Rightarrow> request_log_row \<Rightarrow> HotPathInput \<Rightarrow>
  ledger \<Rightarrow> ledger \<times> (ledger_error + unit)" where
  "writeHotPath sha commits now account r i =
    (let i = boundProviderReportedPromptTokens i;
         r = requestLogRowWithBoundedPrompt r i;
         r = (case account of Some a \<Rightarrow> r\<lparr>rl_account := nullString a\<rparr> | None \<Rightarrow> r)
     in Transact commits (\<lambda>s. map_sum id (\<lambda>s. (s, ())) (hot_path_body sha now r i s)))"

definition writeRequestLogWithIdentity :: "bool \<Rightarrow> string option \<Rightarrow> request_log_row \<Rightarrow> HotPathInput \<Rightarrow>
  ledger \<Rightarrow> ledger \<times> (ledger_error + unit)" where
  "writeRequestLogWithIdentity commits account r i =
    (let i = (if in_Reported i = None then i\<lparr>in_Reported := (case in_Prompt i of Some p \<Rightarrow> Some p | None \<Rightarrow> rl_prompt r)\<rparr> else i);
         r = requestLogRowWithBoundedPrompt r i;
         r = (case account of Some a \<Rightarrow> r\<lparr>rl_account := nullString a\<rparr> | None \<Rightarrow> r)
     in Transact commits (\<lambda>s. let s = InsertExec r s in
          map_sum id (\<lambda>s. (s, ())) (if in_AssignedID i \<noteq> [] \<and> in_ProviderID i \<noteq> []
            then insertProviderIdentitySnapshotTx i s else Inr s)))"

end
