(* ===== verification/Ledger_Settlement.thy ===== *)
theory Ledger_Settlement
  imports Ledger_Hotpath
begin

text \<open>
  Settlement and payout of the ledger: \<open>RunSettlement\<close> (\<open>billing/settlement.go\<close>), \<open>ClaimPayoutReady\<close>
  (\<open>billing/payout.go\<close>), the view of payable credits (\<open>billing/store.go\<close>) and the operator's resolution of
  a quarantined credit (\<open>billing/quarantine.go\<close>, after its body has been decoded and validated).
\<close>

section \<open>Payable credits\<close>

text \<open>\<open>ORDER BY created_at_utc DESC, id DESC LIMIT 1\<close>.\<close>

definition later :: "quarantine_resolution \<Rightarrow> quarantine_resolution \<Rightarrow> quarantine_resolution" where
  "later x y = (if qr_created x > qr_created y \<or> (qr_created x = qr_created y \<and> qr_id x > qr_id y) then x else y)"

definition resolutions_of :: "int \<Rightarrow> ledger \<Rightarrow> quarantine_resolution list" where
  "resolutions_of cid s = filter (\<lambda>r. qr_credit r = cid) (resolutions s)"

definition latest_resolution :: "int \<Rightarrow> ledger \<Rightarrow> quarantine_resolution option" where
  "latest_resolution cid s = (case resolutions_of cid s of [] \<Rightarrow> None | r # rs \<Rightarrow> Some (fold later rs r))"

definition matured :: "(time \<Rightarrow> bool) \<Rightarrow> request_credit \<Rightarrow> ledger \<Rightarrow> bool" where
  "matured P c s = (case latest_resolution (c_id c) s of None \<Rightarrow> False
     | Some r \<Rightarrow> qr_kind r = ForceCredit \<and> (case qr_matures r of None \<Rightarrow> False | Some t \<Rightarrow> P t))"

definition policy_payable :: "request_credit \<Rightarrow> ledger \<Rightarrow> bool" where
  "policy_payable c s \<longleftrightarrow> c_mode c \<noteq> Enforce \<or> verified_output c s \<noteq> None"

text \<open>The view compares the maturity with a clock printed to the millisecond; as text, a maturity in the
  same millisecond is not later.\<close>

definition payable :: "time \<Rightarrow> request_credit \<Rightarrow> ledger \<Rightarrow> bool" where
  "payable now c s \<longleftrightarrow>
     (\<not> c_quarantined c \<or> matured (\<lambda>t. t div 1000000 \<le> now div 1000000) c s) \<and> policy_payable c s"


section \<open>Settlement\<close>

definition late_force_credit :: "time \<Rightarrow> time \<Rightarrow> request_credit \<Rightarrow> ledger \<Rightarrow> bool" where
  "late_force_credit start fin c s \<longleftrightarrow>
     (\<exists>p \<in> set (payouts s). payout_key p = (c_provider c, start, fin) \<and> matured (\<lambda>t. t > po_created p) c s)"

definition eligible :: "time \<Rightarrow> time \<Rightarrow> time \<Rightarrow> request_credit \<Rightarrow> ledger \<Rightarrow> bool" where
  "eligible now start fin c s \<longleftrightarrow> c_ts c < fin \<and> \<not> c_settled c \<and> c_settlement c = None
     \<and> (\<not> c_quarantined c \<or> matured (\<lambda>t. t \<le> now) c s) \<and> policy_payable c s
     \<and> \<not> late_force_credit start fin c s"

definition quarantine_row :: "string \<Rightarrow> request_credit \<Rightarrow> request_credit" where
  "quarantine_row reason c = c\<lparr>c_quarantined := True, c_reason := coalesce (c_reason c) reason\<rparr>"

definition split_mismatch :: "ledger \<Rightarrow> request_credit \<Rightarrow> bool" where
  "split_mismatch s c = (let os = filter (\<lambda>x. oc_credit x = c_id c) (operators s) in
     length os \<noteq> 1 \<or> sum_list (map oc_credits os) + c_prov c \<noteq> c_gross c)"

record settlement_group =
  g_provider :: string
  g_count :: int
  g_gross :: int
  g_prov :: int
  g_oper :: int

definition group_of :: "request_credit list \<Rightarrow> string \<Rightarrow> settlement_group" where
  "group_of rows pid = (let xs = filter (\<lambda>c. c_provider c = pid) rows in
     \<lparr>g_provider = pid, g_count = int (length xs), g_gross = sum_list (map c_gross xs),
      g_prov = sum_list (map c_prov xs), g_oper = sum_list (map (\<lambda>c. c_gross c - c_prov c) xs)\<rparr>)"

text \<open>\<open>SUM\<close> fails on overflow; the amounts are not negative, so it does exactly when the total is out of
  range.\<close>

definition sums_fit :: "settlement_group \<Rightarrow> bool" where
  "sums_fit g \<longleftrightarrow> fits_i64 (g_gross g) \<and> fits_i64 (g_prov g) \<and> fits_i64 (g_oper g)"

definition settlement_groups :: "int \<Rightarrow> request_credit list \<Rightarrow> ledger_error + settlement_group list" where
  "settlement_groups min_payout rows =
    (let gs = map (group_of rows) (remdups (map c_provider rows)) in
     if list_all sums_fit gs then Inr (filter (\<lambda>g. g_prov g \<ge> min_payout) gs) else Inl IntegerOverflow)"

definition link_credits :: "int list \<Rightarrow> string \<Rightarrow> int \<Rightarrow> ledger \<Rightarrow> ledger_error + ledger" where
  "link_credits ids pid sid = update_credits (\<lambda>c. c_provider c = pid \<and> c_id c \<in> set ids)
     (\<lambda>c. c\<lparr>c_settled := True, c_settlement := Some sid\<rparr>)"

definition add_group :: "settlement_group \<Rightarrow> payout_ready \<Rightarrow> payout_ready" where
  "add_group g p = p\<lparr>po_count := po_count p + g_count g, po_gross := po_gross p + g_gross g,
     po_prov := po_prov p + g_prov g, po_oper := po_oper p + g_oper g\<rparr>"

definition new_payout :: "int \<Rightarrow> int \<Rightarrow> time \<Rightarrow> time \<Rightarrow> time \<Rightarrow> settlement_group \<Rightarrow> int \<Rightarrow> payout_ready" where
  "new_payout cadence min_payout start fin now g sid = \<lparr>po_id = sid, po_provider = g_provider g, po_start = start,
     po_end = fin, po_cadence = cadence, po_count = g_count g, po_gross = g_gross g, po_prov = g_prov g,
     po_oper = g_oper g, po_min = min_payout, po_currency = None, po_external = None, po_status = Ready,
     po_created = now\<rparr>"

text \<open>The upsert, the re-read of the row and the update of the credits.\<close>

definition settle_group :: "int \<Rightarrow> int \<Rightarrow> time \<Rightarrow> time \<Rightarrow> time \<Rightarrow> int list \<Rightarrow> settlement_group \<Rightarrow> ledger \<Rightarrow> ledger_error + ledger" where
  "settle_group cadence min_payout start fin now ids g s =
    (case find (\<lambda>p. payout_key p = (g_provider g, start, fin)) (payouts s) of
       None \<Rightarrow> (let p = new_payout cadence min_payout start fin now g (next_payout s) in
         if \<not> payout_check p then Inl CheckViolation
         else link_credits ids (g_provider g) (next_payout s)
           (s\<lparr>payouts := payouts s @ [p], next_payout := next_payout s + 1\<rparr>))
     | Some p \<Rightarrow> if po_status p = Ready
         then if \<not> payout_check (add_group g p) then Inl CheckViolation
           else link_credits ids (g_provider g) (po_id p)
           (s\<lparr>payouts := update_where (\<lambda>q. payout_key q = payout_key p) (add_group g) (payouts s)\<rparr>)
         else Inr s)"

definition settlement_body :: "int \<Rightarrow> int \<Rightarrow> time \<Rightarrow> time \<Rightarrow> time \<Rightarrow> ledger \<Rightarrow> ledger_error + ledger" where
  "settlement_body cadence min_payout start fin now s =
    bind_err (update_credits (\<lambda>c. c_ts c < fin \<and> \<not> c_settled c \<and> c_settlement c \<noteq> None \<and> \<not> c_quarantined c)
      (quarantine_row ''conflicting_settlement_id'') s) (\<lambda>s.
    bind_err (update_credits (\<lambda>c. c_ts c < fin \<and> \<not> c_settled c \<and> c_settlement c = None \<and> \<not> c_quarantined c
        \<and> split_mismatch s c)
      (quarantine_row ''operator_split_mismatch'') s) (\<lambda>s.
    let rows = filter (\<lambda>c. eligible now start fin c s) (credits s) in
    bind_err (settlement_groups min_payout rows) (\<lambda>gs.
    fold_err (settle_group cadence min_payout start fin now (map c_id rows)) gs s)))"

definition RunSettlement :: "bool \<Rightarrow> int \<Rightarrow> int \<Rightarrow> time \<Rightarrow> time \<Rightarrow> time \<Rightarrow> ledger \<Rightarrow> ledger \<times> (ledger_error + unit)" where
  "RunSettlement commits cadence min_payout start fin now =
     Transact commits (\<lambda>s. map_sum id (\<lambda>s. (s, ())) (settlement_body cadence min_payout start fin now s))"


section \<open>Claiming a payout\<close>

definition source_ok :: "time \<Rightarrow> payout_ready \<Rightarrow> ledger \<Rightarrow> request_credit \<Rightarrow> bool" where
  "source_ok now p s c \<longleftrightarrow> c_settled c \<and> c_provider c = po_provider p \<and> c_ts c < po_end p \<and> payable now c s"

definition claim_audit :: "payout_ready \<Rightarrow> string \<Rightarrow> ledger \<Rightarrow> ledger" where
  "claim_audit p status s = s\<lparr>runs := runs s @ [\<lparr>rr_type = ''spec_007_claim'', rr_from = po_start p, rr_to = po_end p,
     rr_scanned = 0, rr_created = 0, rr_quarantined = 0, rr_buyer = po_gross p, rr_gross = po_gross p,
     rr_delta = 0, rr_status = status\<rparr>]\<rparr>"

definition update_ready :: "int \<Rightarrow> (payout_ready \<Rightarrow> payout_ready) \<Rightarrow> ledger \<Rightarrow> ledger" where
  "update_ready pid f s = s\<lparr>payouts := update_where (\<lambda>q. po_id q = pid \<and> po_status q = Ready) f (payouts s)\<rparr>"

definition consume :: "string \<Rightarrow> string \<Rightarrow> payout_ready \<Rightarrow> payout_ready" where
  "consume ext cur q = q\<lparr>po_status := Consumed, po_external := nullString ext, po_currency := nullString cur\<rparr>"

definition with_totals :: "settlement_group \<Rightarrow> payout_ready \<Rightarrow> payout_ready" where
  "with_totals g q = q\<lparr>po_count := g_count g, po_gross := g_gross g, po_prov := g_prov g, po_oper := g_oper g\<rparr>"

definition totals_match :: "settlement_group \<Rightarrow> payout_ready \<Rightarrow> bool" where
  "totals_match g p \<longleftrightarrow> po_count p = g_count g \<and> po_gross p = g_gross g \<and> po_prov p = g_prov g \<and> po_oper p = g_oper g"

definition claim_update :: "payout_ready \<Rightarrow> int \<Rightarrow> string \<Rightarrow> string \<Rightarrow> ledger \<Rightarrow> ledger \<times> bool" where
  "claim_update p expected ext cur s =
    (let claimed = (po_status p = Ready \<and> po_gross p = expected);
         s = (if claimed then update_ready (po_id p) (consume ext cur) s else s)
     in (claim_audit p (if claimed then ''complete'' else ''failed'') s, claimed))"

definition claim_body :: "time \<Rightarrow> int \<Rightarrow> int \<Rightarrow> string \<Rightarrow> string \<Rightarrow> ledger \<Rightarrow> ledger_error + ledger \<times> bool" where
  "claim_body now pid expected ext cur s =
    (case find (\<lambda>p. po_id p = pid) (payouts s) of None \<Rightarrow> Inr (s, False)
     | Some p \<Rightarrow>
       if po_status p \<noteq> Ready then Inr (claim_update p expected ext cur s)
       else let sources = filter (\<lambda>c. c_settlement c = Some pid) (credits s);
              ok = filter (source_ok now p s) sources;
              g = group_of ok (po_provider p) in
         if \<not> sums_fit g then Inl IntegerOverflow
         else if \<not> (sources \<noteq> [] \<and> length sources = length ok)
         then bind_err (update_credits (\<lambda>c. c_settlement c = Some pid \<and> \<not> source_ok now p s c \<and> \<not> c_settled c)
                (\<lambda>c. c\<lparr>c_settled := False, c_settlement := None\<rparr>) s)
              (\<lambda>s. Inr (claim_audit p ''failed'' (update_ready pid (\<lambda>q. q\<lparr>po_status := Voided\<rparr>) s), False))
         else if \<not> totals_match g p
         then (if g_prov g \<ge> po_min p
               then if payout_check (with_totals g p)
                 then Inr (claim_audit p ''failed'' (update_ready pid (with_totals g) s), False)
                 else Inl CheckViolation
               else Inr (claim_audit p ''failed'' (update_ready pid (\<lambda>q. q\<lparr>po_status := Voided\<rparr>) s), False))
         else Inr (claim_update p expected ext cur s))"

definition ClaimPayoutReady :: "bool \<Rightarrow> time \<Rightarrow> int \<Rightarrow> int \<Rightarrow> string \<Rightarrow> string \<Rightarrow> ledger \<Rightarrow> ledger \<times> (ledger_error + bool)" where
  "ClaimPayoutReady commits now pid expected ext cur = Transact commits (claim_body now pid expected ext cur)"


section \<open>Resolving a quarantined credit\<close>

datatype resolution_reply = ResolutionOK | CreditNotFound | NotQuarantined | AlreadyResolved | ResolutionLocked | ResolutionFailed

definition resolution_row :: "ResolutionKind \<Rightarrow> string \<Rightarrow> string \<Rightarrow> time \<Rightarrow> int \<Rightarrow> int \<Rightarrow> ledger \<Rightarrow> quarantine_resolution" where
  "resolution_row kind operator reason now hold cid s =
    (let t = now + i64 (hold * Second) in
     \<lparr>qr_id = next_resolution s, qr_credit = cid, qr_kind = kind, qr_operator = operator, qr_reason = reason,
      qr_created = now, qr_matures = (if kind = ForceCredit then Some t else None), qr_deadline = t\<rparr>)"

definition forceResolution :: "bool \<Rightarrow> ResolutionKind \<Rightarrow> string \<Rightarrow> string \<Rightarrow> time \<Rightarrow> int \<Rightarrow> int \<Rightarrow> ledger \<Rightarrow> ledger \<times> resolution_reply" where
  "forceResolution commits kind operator reason now hold cid s =
    (case find (\<lambda>c. c_id c = cid) (credits s) of None \<Rightarrow> (s, CreditNotFound)
     | Some c \<Rightarrow>
       if \<not> c_quarantined c then (s, NotQuarantined)
       else let
         insert = (if commits
           then (s\<lparr>resolutions := resolutions s @ [resolution_row kind operator reason now hold cid s],
                   next_resolution := next_resolution s + 1\<rparr>, ResolutionOK)
           else (s, ResolutionFailed)) in
       case latest_resolution cid s of None \<Rightarrow> insert
       | Some r \<Rightarrow> if qr_kind r = kind \<or> length (resolutions_of cid s) \<ge> 2 then (s, AlreadyResolved)
         else if \<not> now < qr_deadline r then (s, ResolutionLocked) else insert)"

end
