(* ===== verification/Ledger_Recovery.thy ===== *)
theory Ledger_Recovery
  imports Ledger_Settlement
begin

text \<open>
  The startup scan and nightly reconciliation of the ledger against the request log (\<open>RecoverLedger\<close> of
  \<open>billing/recovery.go\<close>).
\<close>

definition invalid_token :: "int option \<Rightarrow> bool" where
  "invalid_token v = (case v of None \<Rightarrow> False | Some n \<Rightarrow> invalidBillableTokenCount n)"

definition invalidRecoveryCompletion :: "int option \<Rightarrow> int option \<Rightarrow> bool" where
  "invalidRecoveryCompletion completion estimated = (case completion of None \<Rightarrow> False
     | Some n \<Rightarrow> n < 0 \<or> (n > maxBillableTokens \<and> (estimated = None \<or> invalid_token estimated)))"

definition invalidRecoveryCached :: "int option \<Rightarrow> int option \<Rightarrow> bool" where
  "invalidRecoveryCached prompt cached = (case cached of None \<Rightarrow> False
     | Some n \<Rightarrow> invalidBillableTokenCount n
         \<or> (n > 0 \<and> (case prompt of None \<Rightarrow> True | Some p \<Rightarrow> n > p)))"

definition unresolvedProviderID :: "string \<Rightarrow> string" where
  "unresolvedProviderID assigned = (if assigned = [] then ''__unresolved__'' else ''__unresolved__:'' @ assigned)"

definition log_attempt :: "request_log_row \<Rightarrow> ledger \<Rightarrow> int" where
  "log_attempt r s = (case rl_attempt r of Some n \<Rightarrow> n
     | None \<Rightarrow> log_count (rl_account r) (rl_request r) (filter (\<lambda>x. rl_id x \<le> rl_id r) (request_log s)) - 1)"

definition mode_text :: "PolicyMode \<Rightarrow> string" where
  "mode_text m = (case m of Legacy \<Rightarrow> ''legacy'' | Observe \<Rightarrow> ''observe'' | Enforce \<Rightarrow> ''enforce'')"

definition attempt_row :: "string \<Rightarrow> int \<Rightarrow> string \<Rightarrow> ledger \<Rightarrow> request_credit \<Rightarrow> bool" where
  "attempt_row request attempt assigned s c \<longleftrightarrow> c_request c = request \<and> c_attempt c = attempt
     \<and> (c_assigned c = Some assigned
        \<or> (\<exists>x \<in> set (identities s). li_request x = request \<and> li_attempt x = attempt
             \<and> li_assigned x = assigned \<and> li_provider x = c_provider c))"

definition ledgerRowExistsForRequestAttemptTx :: "string \<Rightarrow> int \<Rightarrow> string \<Rightarrow> ledger \<Rightarrow> bool" where
  "ledgerRowExistsForRequestAttemptTx request attempt assigned s \<longleftrightarrow>
     (\<exists>c \<in> set (credits s). attempt_row request attempt assigned s c)"

definition quarantineExistingLedgerForRequestAttemptTx ::
  "string \<Rightarrow> int \<Rightarrow> string \<Rightarrow> string \<Rightarrow> ledger \<Rightarrow> ledger_error + ledger \<times> int" where
  "quarantineExistingLedgerForRequestAttemptTx request attempt assigned reason s =
    (let P = (\<lambda>c. \<not> c_quarantined c \<and> attempt_row request attempt assigned s c) in
     bind_err (update_credits P (quarantine_row reason) s)
       (\<lambda>s'. Inr (s', int (length (filter P (credits s))))))"

text \<open>\<open>INSERT OR IGNORE\<close>: a row that violates a constraint is skipped.\<close>

definition insertQuarantineTx :: "request_log_row \<Rightarrow> int \<Rightarrow> string \<Rightarrow> string \<Rightarrow> int option \<Rightarrow> int option \<Rightarrow> int option \<Rightarrow>
  string \<Rightarrow> ledger \<Rightarrow> ledger" where
  "insertQuarantineTx r attempt provider assigned prompt completion estimated reason s =
    (let usage = usageFor (rl_error_code r) estimated;
         c = \<lparr>c_id = 0, c_request = rl_request r, c_attempt = attempt, c_provider = provider,
           c_assigned = nullString assigned, c_ts = rl_ts r, c_model = rl_model r, c_prompt = prompt,
           c_cached = None, c_completion = completion, c_estimated = estimated, c_usage = usage,
           c_prompt_rate = 0, c_completion_rate = 0, c_multiplier = 0, c_gross = 0, c_share = 0, c_prov = 0,
           c_fault = (if usage = ''null_error'' then ''null_usage_error'' else FaultNone), c_settled = False,
           c_settlement = None, c_quarantined = True, c_reason = Some reason, c_scope = None, c_mode = Legacy,
           c_version = None\<rparr>
     in case insert_credit c s of Inl _ \<Rightarrow> s | Inr (s', _) \<Rightarrow> s')"

definition recoveredSettlementPolicyTx :: "(string \<Rightarrow> string) \<Rightarrow> string \<Rightarrow> int \<Rightarrow> string \<Rightarrow> string \<Rightarrow> ledger \<Rightarrow> string \<times> PolicyMode \<times> string" where
  "recoveredSettlementPolicyTx sha request attempt provider account s =
    (case filter (\<lambda>x. srs_scope x = AccountScopeForSettlement sha account \<and> srs_request x = request
           \<and> srs_attempt x = attempt \<and> srs_provider x = provider) (routes s) of
       [] \<Rightarrow> (SettlementAccountScopeHashForAccountID sha account, Legacy, [])
     | xs \<Rightarrow> (SettlementAccountScopeHash sha (srs_scope (List.last xs)), srs_mode (List.last xs), srs_version (List.last xs)))"

definition snapshotAtTx :: "time \<Rightarrow> ledger \<Rightarrow> ledger_error + (int \<times> (string \<times> RateCardEntry) list \<times> int \<times> int) option" where
  "snapshotAtTx t s = (case filter (\<lambda>x. cs_effective x \<le> t) (snapshots s) of [] \<Rightarrow> Inr None
     | x # xs \<Rightarrow> (let b = fold (\<lambda>y b. if cs_effective y > cs_effective b \<or> (cs_effective y = cs_effective b \<and> cs_id y > cs_id b)
             then y else b) xs x in
         case cs_card b of None \<Rightarrow> Inl DecodeError
         | Some rates \<Rightarrow> Inr (Some (cs_id b, rates, cs_multiplier b, cs_share b))))"


section \<open>Reconciling an existing credit\<close>

record reconcile_result =
  rc_actual :: int
  rc_expected :: int
  rc_exists :: bool
  rc_mismatch :: bool

definition reconcile_mismatch :: "HotPathInput \<Rightarrow> BilledRow \<Rightarrow> BilledRow \<Rightarrow> bool \<Rightarrow> ledger \<Rightarrow> request_credit \<Rightarrow> bool" where
  "reconcile_mismatch i expected b byte_estimated s c =
    (let os = filter (\<lambda>x. oc_credit x = c_id c) (operators s) in
     GrossCredits b \<noteq> c_gross c \<or> ProviderCredits b \<noteq> c_prov c \<or> br_FaultFlag b \<noteq> c_fault c
     \<or> c_cached c \<noteq> in_Cached i
     \<or> c_prompt_rate c \<noteq> PromptCreditsPerMtok (in_Rate i) \<or> c_completion_rate c \<noteq> CompletionCreditsPerMtok (in_Rate i)
     \<or> c_multiplier c \<noteq> in_Multiplier i \<or> c_share c \<noteq> in_Share i
     \<or> (if byte_estimated then invalid_token (c_estimated c)
        else c_usage c \<noteq> br_UsageSource expected \<or> c_fault c \<noteq> br_FaultFlag expected)
     \<or> length os \<noteq> 1 \<or> c_prov c + sum_list (map oc_credits os) \<noteq> c_gross c)"

definition reconcileExistingCreditTx :: "HotPathInput \<Rightarrow> BilledRow \<Rightarrow> ledger \<Rightarrow> ledger_error + ledger \<times> reconcile_result" where
  "reconcileExistingCreditTx i expected s =
    (case find (\<lambda>c. credit_key c = (in_RequestID i, in_AttemptN i, in_ProviderID i)) (credits s) of
       None \<Rightarrow> Inr (s, \<lparr>rc_actual = 0, rc_expected = 0, rc_exists = False, rc_mismatch = False\<rparr>)
     | Some c \<Rightarrow>
       if c_quarantined c then Inr (s, \<lparr>rc_actual = 0, rc_expected = 0, rc_exists = True, rc_mismatch = False\<rparr>)
       else let
         byte_estimated = (c_usage c = ''byte_estimated'' \<and> in_Completion i = None \<and> c_estimated c \<noteq> None);
         b = ComputeCreditsWithCache (in_Prompt i) (in_Cached i) (in_Completion i)
               (if byte_estimated then c_estimated c else in_Estimated i) (c_usage c) (c_fault c)
               (in_Rate i) (in_Multiplier i) (in_Share i);
         mismatch = reconcile_mismatch i expected b byte_estimated s c;
         result = \<lparr>rc_actual = c_gross c, rc_expected = GrossCredits b, rc_exists = True, rc_mismatch = mismatch\<rparr> in
       if \<not> mismatch then Inr (s, result)
       else if c_settled c \<or> c_settlement c \<noteq> None then Inl SettledMismatch
       else bind_err (update_credits (\<lambda>x. c_id x = c_id c) (quarantine_row ''reconciliation_mismatch'') s)
         (\<lambda>s. Inr (s, result)))"


section \<open>The scan\<close>

record recovery_counts =
  rv_scanned :: int
  rv_created :: int
  rv_quarantined :: int
  rv_buyer :: int
  rv_gross :: int

type_synonym recovery = "ledger \<times> recovery_counts"

definition count_quarantined :: "int \<Rightarrow> recovery_counts \<Rightarrow> recovery_counts" where
  "count_quarantined n k = k\<lparr>rv_quarantined := i64 (rv_quarantined k + n)\<rparr>"

text \<open>Quarantine the rows of an attempt, or insert a quarantined row when it has none.\<close>

definition quarantine_attempt :: "request_log_row \<Rightarrow> int \<Rightarrow> string \<Rightarrow> string \<Rightarrow> int option \<Rightarrow> int option \<Rightarrow> int option \<Rightarrow> string \<Rightarrow>
  recovery \<Rightarrow> ledger_error + recovery" where
  "quarantine_attempt r attempt provider assigned prompt completion estimated reason = (\<lambda>(s, k).
    bind_err (quarantineExistingLedgerForRequestAttemptTx (rl_request r) attempt assigned reason s) (\<lambda>(s, affected).
      Inr (if affected = 0 \<and> \<not> ledgerRowExistsForRequestAttemptTx (rl_request r) attempt assigned s
        then (insertQuarantineTx r attempt provider assigned prompt completion estimated reason s, count_quarantined 1 k)
        else (s, count_quarantined affected k))))"

definition recover_input :: "(string \<Rightarrow> string) \<Rightarrow> request_log_row \<Rightarrow> int \<Rightarrow> string \<Rightarrow> string \<Rightarrow> int option \<Rightarrow> int \<Rightarrow>
  (string \<times> RateCardEntry) list \<Rightarrow> int \<Rightarrow> int \<Rightarrow> ledger \<Rightarrow> HotPathInput" where
  "recover_input sha r attempt provider assigned reported sid rates multiplier share s =
    (case recoveredSettlementPolicyTx sha (rl_request r) attempt provider
        (case rl_account r of Some a \<Rightarrow> a | None \<Rightarrow> []) s of (scope, mode, version) \<Rightarrow>
     \<lparr>in_RequestID = rl_request r, in_AttemptN = attempt, in_AssignedID = assigned, in_ProviderID = provider,
      in_Model = rl_model r, in_TSUtc = rl_ts r, in_Prompt = rl_prompt r, in_PromptBound = None,
      in_Reported = (case reported of Some n \<Rightarrow> Some n | None \<Rightarrow> rl_prompt r),
      in_Cached = (if attempt = 0 then rl_cached r else None), in_Completion = rl_completion r,
      in_Estimated = rl_estimated r, in_ErrorCode = rl_error_code r, in_Fault = FaultNone, in_StickyResult = [],
      in_SnapshotID = sid, in_Rate = RateFor rates (rl_model r), in_Multiplier = multiplier, in_Share = share,
      in_ScopeHash = scope, in_PolicyMode = mode_text mode, in_PolicyVersion = version\<rparr>)"

definition recover_credit :: "request_log_row \<Rightarrow> bool \<Rightarrow> HotPathInput \<Rightarrow> recovery \<Rightarrow> ledger_error + recovery" where
  "recover_credit r ambiguous i = (\<lambda>(s, k).
    bind_err (reconcileExistingCreditTx i (cached_credits i) s) (\<lambda>(s, res).
    if rc_exists res
    then Inr (s, (let k = k\<lparr>rv_buyer := i64 (rv_buyer k + rc_expected res), rv_gross := i64 (rv_gross k + rc_actual res)\<rparr>
                  in if rc_mismatch res then count_quarantined 1 k else k))
    else if ambiguous
    then Inr (insertQuarantineTx r (in_AttemptN i) (in_ProviderID i) (in_AssignedID i) (in_Prompt i) (in_Completion i)
           (in_Estimated i) ''ambiguous_attempt_n'' s, count_quarantined 1 k)
    else bind_err (insertRequestCreditTx i (cached_credits i) False [] s) (\<lambda>(s, cid).
         bind_err (insertOperatorCreditTx cid (cached_credits i) s) (\<lambda>s.
         bind_err (syncVerifiedReceiptLedgerCreditForAttemptTx (in_RequestID i) (in_AttemptN i) (in_ProviderID i) s) (\<lambda>(s, reason).
         Inr (s, (let k = k\<lparr>rv_created := rv_created k + 1\<rparr>; g = GrossCredits (cached_credits i) in
                  if reason = [] then k\<lparr>rv_buyer := i64 (rv_buyer k + g), rv_gross := i64 (rv_gross k + g)\<rparr>
                  else count_quarantined 1 k)))))))"

definition recover_row :: "(string \<Rightarrow> string) \<Rightarrow> request_log_row \<Rightarrow> recovery \<Rightarrow> ledger_error + recovery" where
  "recover_row sha r = (\<lambda>(s, k).
    let k = k\<lparr>rv_scanned := rv_scanned k + 1\<rparr>;
        assigned = (case rl_assigned r of Some a \<Rightarrow> a | None \<Rightarrow> []);
        attempt = log_attempt r s;
        invalid = (if invalid_token (rl_prompt r) \<or> invalid_token (rl_estimated r)
              \<or> invalidRecoveryCompletion (rl_completion r) (rl_estimated r) then ''invalid_usage_tokens''
            else if invalidRecoveryCached (rl_prompt r) (rl_cached r) then ''invalid_cached_prompt_tokens'' else []);
        ambiguous = (attempt = 1 \<and> rl_retried r = 0) in
    if invalid \<noteq> []
    then quarantine_attempt r attempt (unresolvedProviderID assigned) assigned None None None invalid (s, k)
    else case filter (\<lambda>x. li_request x = rl_request r \<and> li_attempt x = attempt \<and> li_assigned x = assigned) (identities s) of
      [] \<Rightarrow> Inr (insertQuarantineTx r attempt (unresolvedProviderID assigned) assigned (rl_prompt r) (rl_completion r)
             (rl_estimated r) (if ambiguous then ''ambiguous_attempt_n'' else ''missing_provider_identity'') s,
           count_quarantined 1 k)
    | ids \<Rightarrow> (let li = List.last ids; provider = li_provider li;
          needs_cache = ((case rl_cached r of Some n \<Rightarrow> n > 0 | None \<Rightarrow> False) \<and> attempt = 0);
          snapshot_of = (case li_snapshot li of
              Some sid \<Rightarrow> map_sum id (map_option (\<lambda>(rates, m, sh). (sid, rates, m, sh))) (snapshotByIDQueryer sid s)
            | None \<Rightarrow> if needs_cache then Inr None else snapshotAtTx (rl_ts r) s) in
        if rl_cache_reason r \<noteq> []
        then quarantine_attempt r attempt provider assigned (rl_prompt r) (rl_completion r) (rl_estimated r) (rl_cache_reason r) (s, k)
        else case snapshot_of of
          Inr (Some (sid, rates, multiplier, share)) \<Rightarrow>
            recover_credit r ambiguous
              (recover_input sha r attempt provider assigned (li_reported li) sid rates multiplier share s) (s, k)
        | _ \<Rightarrow> quarantine_attempt r attempt provider assigned (rl_prompt r) (rl_completion r) (rl_estimated r)
            (if needs_cache then ''missing_cache_config_snapshot'' else ''missing_config_snapshot'') (s, k)))"

definition orphan :: "time \<Rightarrow> time \<Rightarrow> ledger \<Rightarrow> request_credit \<Rightarrow> bool" where
  "orphan from_t to_t s c \<longleftrightarrow> \<not> c_quarantined c \<and> from_t \<le> c_ts c \<and> c_ts c < to_t
     \<and> \<not> (\<exists>r \<in> set (request_log s). \<exists>x \<in> set (identities s). li_request x = rl_request r
           \<and> Some (li_assigned x) = rl_assigned r \<and> li_attempt x = c_attempt c \<and> li_provider x = c_provider c
           \<and> rl_request r = c_request c \<and> log_attempt r s = c_attempt c)"

definition scan_rows :: "time \<Rightarrow> time \<Rightarrow> ledger \<Rightarrow> request_log_row list" where
  "scan_rows from_t to_t s = sort_key rl_ts (filter (\<lambda>r. from_t \<le> rl_ts r \<and> rl_ts r < to_t
     \<and> rl_assigned r \<noteq> None \<and> rl_status r \<noteq> 503) (request_log s))"

definition recovery_run :: "string \<Rightarrow> time \<Rightarrow> time \<Rightarrow> recovery_counts \<Rightarrow> string \<Rightarrow> reconciliation_run" where
  "recovery_run source from_t to_t k status = \<lparr>rr_type = source, rr_from = from_t, rr_to = to_t,
     rr_scanned = rv_scanned k, rr_created = rv_created k, rr_quarantined = rv_quarantined k,
     rr_buyer = rv_buyer k, rr_gross = rv_gross k, rr_delta = i64 (rv_gross k - rv_buyer k), rr_status = status\<rparr>"

definition no_counts :: recovery_counts where
  "no_counts = \<lparr>rv_scanned = 0, rv_created = 0, rv_quarantined = 0, rv_buyer = 0, rv_gross = 0\<rparr>"

definition recovery_body :: "(string \<Rightarrow> string) \<Rightarrow> string \<Rightarrow> time \<Rightarrow> time \<Rightarrow> ledger \<Rightarrow> ledger_error + ledger \<times> unit" where
  "recovery_body sha source from_t to_t s =
    bind_err (update_credits (orphan from_t to_t s) (quarantine_row ''missing_request_log'') s) (\<lambda>s'.
    bind_err (fold_err (recover_row sha) (scan_rows from_t to_t s')
      (s', no_counts\<lparr>rv_quarantined := int (length (filter (orphan from_t to_t s) (credits s)))\<rparr>)) (\<lambda>(s, k).
    Inr (s\<lparr>runs := runs s @ [recovery_run source from_t to_t k ''complete'']\<rparr>, ())))"

text \<open>A failed scan is rolled back and then recorded in a row of its own, whose insert may fail too.\<close>

definition RecoverLedger :: "(string \<Rightarrow> string) \<Rightarrow> bool \<Rightarrow> bool \<Rightarrow> string \<Rightarrow> time \<Rightarrow> time \<Rightarrow> ledger \<Rightarrow> ledger \<times> (ledger_error + unit)" where
  "RecoverLedger sha commits recorded source from_t to_t s =
    (let source = (if source = [] then ''startup_scan'' else source) in
     case Transact commits (recovery_body sha source from_t to_t) s of
       (s, Inr u) \<Rightarrow> (s, Inr u)
     | (s, Inl e) \<Rightarrow> ((if recorded then s\<lparr>runs := runs s @ [recovery_run source from_t to_t no_counts ''failed'']\<rparr> else s), Inl e))"

end
