(* ===== verification/Ledger_Invariants.thy ===== *)
theory Ledger_Invariants
  imports Ledger_Recovery
begin

text \<open>
  The invariant of the ledger and its preservation by every operation: keys are unique and rows satisfy the
  schema, a credit is linked to a payout exactly when it is settled, the totals of a payout are the sums over
  the credits linked to it, the split of every credit that is not quarantined is exact, and a quarantined
  credit has at most two resolutions, of different kinds.
\<close>

named_theorems ledger_simps

section \<open>The invariant\<close>

definition linked :: "int \<Rightarrow> ledger \<Rightarrow> request_credit list" where
  "linked i s = filter (\<lambda>c. c_settlement c = Some i) (credits s)"

definition rows_ok :: "ledger \<Rightarrow> bool" where
  "rows_ok s \<longleftrightarrow> distinct (map c_id (credits s)) \<and> distinct (map credit_key (credits s))
     \<and> (\<forall>c \<in> set (credits s). credit_check c \<and> c_id c < next_credit s)"

definition payouts_ok :: "ledger \<Rightarrow> bool" where
  "payouts_ok s \<longleftrightarrow> distinct (map po_id (payouts s)) \<and> distinct (map payout_key (payouts s))
     \<and> (\<forall>p \<in> set (payouts s). payout_check p \<and> po_id p < next_payout s)"

definition link_ok :: "ledger \<Rightarrow> request_credit \<Rightarrow> bool" where
  "link_ok s c \<longleftrightarrow> (if c_settled c
     then \<exists>p \<in> set (payouts s). c_settlement c = Some (po_id p) \<and> c_provider c = po_provider p \<and> c_ts c < po_end p
     else c_settlement c = None)"

definition links_ok :: "ledger \<Rightarrow> bool" where
  "links_ok s \<longleftrightarrow> (\<forall>c \<in> set (credits s). link_ok s c)"

definition sums_of :: "request_credit list \<Rightarrow> int \<times> int \<times> int \<times> int" where
  "sums_of cs = (int (length cs), sum_list (map c_gross cs), sum_list (map c_prov cs),
     sum_list (map (\<lambda>c. c_gross c - c_prov c) cs))"

definition totals :: "payout_ready \<Rightarrow> int \<times> int \<times> int \<times> int" where
  "totals p = (po_count p, po_gross p, po_prov p, po_oper p)"

definition totals_ok :: "ledger \<Rightarrow> bool" where
  "totals_ok s \<longleftrightarrow> (\<forall>p \<in> set (payouts s). totals p = sums_of (linked (po_id p) s))"

definition core :: "ledger \<Rightarrow> bool" where
  "core s \<longleftrightarrow> rows_ok s \<and> payouts_ok s \<and> links_ok s \<and> totals_ok s"

definition operators_ok :: "ledger \<Rightarrow> bool" where
  "operators_ok s \<longleftrightarrow> distinct (map oc_credit (operators s))
     \<and> (\<forall>x \<in> set (operators s). operator_check x \<and> oc_credit x < next_credit s)"

definition split_ok :: "ledger \<Rightarrow> bool" where
  "split_ok s \<longleftrightarrow> (\<forall>c \<in> set (credits s). c_prov c \<le> c_gross c \<and> (\<not> c_quarantined c \<longrightarrow> \<not> split_mismatch s c))"

definition resolutions_ok :: "ledger \<Rightarrow> bool" where
  "resolutions_ok s \<longleftrightarrow> (\<forall>cid. length (resolutions_of cid s) \<le> 2 \<and> distinct (map qr_kind (resolutions_of cid s)))"

definition ledger_inv :: "ledger \<Rightarrow> bool" where
  "ledger_inv s \<longleftrightarrow> core s \<and> operators_ok s \<and> split_ok s \<and> resolutions_ok s"

lemmas inv_parts = core_def rows_ok_def payouts_ok_def links_ok_def totals_ok_def operators_ok_def split_ok_def
  resolutions_ok_def

text \<open>Each part reads only its own tables.\<close>

lemma linked_cong [simp]:
  "linked i (s\<lparr>request_log := a\<rparr>) = linked i s" "linked i (s\<lparr>operators := b\<rparr>) = linked i s"
  "linked i (s\<lparr>payouts := c\<rparr>) = linked i s" "linked i (s\<lparr>resolutions := d\<rparr>) = linked i s"
  "linked i (s\<lparr>identities := e\<rparr>) = linked i s" "linked i (s\<lparr>verdicts := f\<rparr>) = linked i s"
  "linked i (s\<lparr>runs := g\<rparr>) = linked i s" "linked i (s\<lparr>next_log := h\<rparr>) = linked i s"
  "linked i (s\<lparr>next_payout := k\<rparr>) = linked i s" "linked i (s\<lparr>next_resolution := l\<rparr>) = linked i s"
  "linked i (s\<lparr>routes := m\<rparr>) = linked i s" "linked i (s\<lparr>outputs := n\<rparr>) = linked i s"
  "linked i (s\<lparr>snapshots := q\<rparr>) = linked i s" "linked i (s\<lparr>next_credit := r\<rparr>) = linked i s"
  by (simp_all add: linked_def)

lemma core_cong [simp]:
  "core (s\<lparr>request_log := a\<rparr>) = core s" "core (s\<lparr>operators := b\<rparr>) = core s"
  "core (s\<lparr>resolutions := d\<rparr>) = core s" "core (s\<lparr>identities := e\<rparr>) = core s"
  "core (s\<lparr>verdicts := f\<rparr>) = core s" "core (s\<lparr>runs := g\<rparr>) = core s" "core (s\<lparr>next_log := h\<rparr>) = core s"
  "core (s\<lparr>next_resolution := l\<rparr>) = core s" "core (s\<lparr>routes := m\<rparr>) = core s"
  "core (s\<lparr>outputs := n\<rparr>) = core s" "core (s\<lparr>snapshots := q\<rparr>) = core s"
  by (simp_all add: inv_parts link_ok_def)

lemma split_mismatch_cong [simp]:
  "split_mismatch (s\<lparr>request_log := a\<rparr>) c = split_mismatch s c" "split_mismatch (s\<lparr>credits := b\<rparr>) c = split_mismatch s c"
  "split_mismatch (s\<lparr>payouts := p\<rparr>) c = split_mismatch s c"
  "split_mismatch (s\<lparr>resolutions := d\<rparr>) c = split_mismatch s c" "split_mismatch (s\<lparr>identities := e\<rparr>) c = split_mismatch s c"
  "split_mismatch (s\<lparr>verdicts := f\<rparr>) c = split_mismatch s c" "split_mismatch (s\<lparr>runs := g\<rparr>) c = split_mismatch s c"
  "split_mismatch (s\<lparr>next_log := h\<rparr>) c = split_mismatch s c" "split_mismatch (s\<lparr>next_credit := j\<rparr>) c = split_mismatch s c"
  "split_mismatch (s\<lparr>next_payout := k\<rparr>) c = split_mismatch s c"
  "split_mismatch (s\<lparr>next_resolution := l\<rparr>) c = split_mismatch s c" "split_mismatch (s\<lparr>routes := m\<rparr>) c = split_mismatch s c"
  "split_mismatch (s\<lparr>outputs := n\<rparr>) c = split_mismatch s c" "split_mismatch (s\<lparr>snapshots := q\<rparr>) c = split_mismatch s c"
  by (simp_all add: split_mismatch_def)

lemma resolutions_of_cong [simp]:
  "resolutions_of i (s\<lparr>request_log := a\<rparr>) = resolutions_of i s" "resolutions_of i (s\<lparr>credits := b\<rparr>) = resolutions_of i s"
  "resolutions_of i (s\<lparr>payouts := p\<rparr>) = resolutions_of i s" "resolutions_of i (s\<lparr>operators := d\<rparr>) = resolutions_of i s"
  "resolutions_of i (s\<lparr>identities := e\<rparr>) = resolutions_of i s" "resolutions_of i (s\<lparr>verdicts := f\<rparr>) = resolutions_of i s"
  "resolutions_of i (s\<lparr>runs := g\<rparr>) = resolutions_of i s" "resolutions_of i (s\<lparr>next_log := h\<rparr>) = resolutions_of i s"
  "resolutions_of i (s\<lparr>next_credit := j\<rparr>) = resolutions_of i s" "resolutions_of i (s\<lparr>next_payout := k\<rparr>) = resolutions_of i s"
  "resolutions_of i (s\<lparr>next_resolution := l\<rparr>) = resolutions_of i s" "resolutions_of i (s\<lparr>routes := m\<rparr>) = resolutions_of i s"
  "resolutions_of i (s\<lparr>outputs := n\<rparr>) = resolutions_of i s" "resolutions_of i (s\<lparr>snapshots := q\<rparr>) = resolutions_of i s"
  by (simp_all add: resolutions_of_def)

lemma ledger_inv_cong [simp]:
  "ledger_inv (s\<lparr>request_log := a\<rparr>) = ledger_inv s" "ledger_inv (s\<lparr>identities := e\<rparr>) = ledger_inv s"
  "ledger_inv (s\<lparr>verdicts := f\<rparr>) = ledger_inv s" "ledger_inv (s\<lparr>runs := g\<rparr>) = ledger_inv s"
  "ledger_inv (s\<lparr>next_log := h\<rparr>) = ledger_inv s" "ledger_inv (s\<lparr>routes := m\<rparr>) = ledger_inv s"
  "ledger_inv (s\<lparr>outputs := n\<rparr>) = ledger_inv s" "ledger_inv (s\<lparr>snapshots := q\<rparr>) = ledger_inv s"
  by (simp_all add: ledger_inv_def operators_ok_def split_ok_def resolutions_ok_def)


section \<open>Statements\<close>

lemma set_update_where: "set (update_where P f xs) = (\<lambda>r. if P r then f r else r) ` set xs"
  by (simp add: update_where_def)

lemma map_update_where [simp]: "(\<And>r. g (f r) = g r) \<Longrightarrow> map g (update_where P f xs) = map g xs"
  by (simp add: update_where_def)

lemma map_update_where': "(\<And>r. r \<in> set xs \<Longrightarrow> P r \<Longrightarrow> g (f r) = g r) \<Longrightarrow> map g (update_where P f xs) = map g xs"
  by (simp add: update_where_def)

lemma map_filter_update_where:
  "(\<And>r. r \<in> set xs \<Longrightarrow> P r \<Longrightarrow> Q (f r) = Q r \<and> (Q r \<longrightarrow> g (f r) = g r)) \<Longrightarrow>
   map g (filter Q (update_where P f xs)) = map g (filter Q xs)"
  by (induction xs) (auto simp: update_where_def)

lemma update_creditsD:
  assumes "update_credits P f s = Inr s'"
  shows "s' = s\<lparr>credits := update_where P f (credits s)\<rparr>"
    and "c \<in> set (credits s) \<Longrightarrow> P c \<Longrightarrow> settled_guard c (f c) \<and> credit_check (f c)"
  using assms by (auto simp: update_credits_def split: if_splits)

lemma sums_of_map: "map (\<lambda>c. (c_gross c, c_prov c)) xs = map (\<lambda>c. (c_gross c, c_prov c)) ys \<Longrightarrow> sums_of xs = sums_of ys"
proof -
  assume a: "map (\<lambda>c. (c_gross c, c_prov c)) xs = map (\<lambda>c. (c_gross c, c_prov c)) ys"
  have "map h (map (\<lambda>c. (c_gross c, c_prov c)) xs) = map h (map (\<lambda>c. (c_gross c, c_prov c)) ys)" for h :: "int \<times> int \<Rightarrow> int"
    using a by simp
  from this [of fst] this [of snd] this [of "\<lambda>(x, y). x - y"] map_eq_imp_length_eq [OF a]
  show ?thesis by (simp add: sums_of_def comp_def)
qed

text \<open>An update that keeps identity and link keeps the core: the guard fixes the money of settled rows.\<close>

definition same_link :: "request_credit \<Rightarrow> request_credit \<Rightarrow> bool" where
  "same_link c' c \<longleftrightarrow> c_id c' = c_id c \<and> credit_key c' = credit_key c \<and> c_ts c' = c_ts c \<and> c_settled c' = c_settled c
     \<and> c_settlement c' = c_settlement c"

lemma core_update:
  assumes "core s" "update_credits P f s = Inr s'" "\<And>c. same_link (f c) c"
  shows "core s'"
proof -
  note s' = update_creditsD(1) [OF assms(2)]
  have keep: "c_id (f c) = c_id c" "credit_key (f c) = credit_key c" "c_ts (f c) = c_ts c" "c_settled (f c) = c_settled c"
    "c_settlement (f c) = c_settlement c" "c_provider (f c) = c_provider c" for c
    using assms(3) [of c] by (auto simp: same_link_def credit_key_def)
  have guard: "c_settled c \<Longrightarrow> c_gross (f c) = c_gross c \<and> c_prov (f c) = c_prov c" if "c \<in> set (credits s)" "P c" for c
    using update_creditsD(2) [OF assms(2) that] by (auto simp: settled_guard_def money_of_def)
  have link: "c_settlement c = Some i \<Longrightarrow> c_settled c" if "c \<in> set (credits s)" for c i
    using assms(1) that by (auto simp: inv_parts link_ok_def split: if_splits)
  have sums: "sums_of (linked i s') = sums_of (linked i s)" for i
    unfolding s' linked_def by (rule sums_of_map, simp, rule map_filter_update_where) (auto simp: keep guard link)
  have "\<forall>c \<in> set (credits s'). credit_check c \<and> c_id c < next_credit s' \<and> link_ok s' c"
    using assms(1) update_creditsD(2) [OF assms(2)] by (auto simp: s' set_update_where inv_parts link_ok_def keep)
  moreover have "map c_id (credits s') = map c_id (credits s)" "map credit_key (credits s') = map credit_key (credits s)"
    by (simp_all add: s' keep)
  moreover have "payouts s' = payouts s" "next_payout s' = next_payout s" by (simp_all add: s')
  ultimately show ?thesis using assms(1) sums unfolding core_def rows_ok_def payouts_ok_def links_ok_def totals_ok_def by auto
qed

lemma split_update:
  assumes "split_ok s" "update_credits P f s = Inr s'"
    "\<And>c. c_id (f c) = c_id c \<and> c_gross (f c) = c_gross c \<and> c_prov (f c) = c_prov c \<and> (c_quarantined c \<longrightarrow> c_quarantined (f c))"
  shows "split_ok s'"
  using assms(1,3) by (auto simp: update_creditsD(1) [OF assms(2)] split_ok_def set_update_where split_mismatch_def Let_def)

lemma quarantine_row_keeps [simp]:
  "same_link (quarantine_row r c) c" "c_id (quarantine_row r c) = c_id c" "c_gross (quarantine_row r c) = c_gross c"
  "c_prov (quarantine_row r c) = c_prov c" "c_quarantined (quarantine_row r c)"
  by (simp_all add: quarantine_row_def same_link_def credit_key_def)

lemma inv_quarantine:
  assumes "ledger_inv s" "update_credits P (quarantine_row r) s = Inr s'"
  shows "ledger_inv s'"
  using core_update [OF _ assms(2)] split_update [OF _ assms(2)] assms(1)
  by (auto simp: ledger_inv_def operators_ok_def resolutions_ok_def update_creditsD(1) [OF assms(2)])

lemma insert_creditD:
  assumes "insert_credit c s = Inr (s', i)"
  shows "s' = s\<lparr>credits := credits s @ [c\<lparr>c_id := i\<rparr>], next_credit := i + 1\<rparr>" "i = next_credit s" "credit_check c"
    "credit_key c \<notin> credit_key ` set (credits s)"
  using assms by (auto simp: insert_credit_def split: if_splits)

lemma core_insert:
  assumes "core s" "insert_credit c s = Inr (s', i)" "\<not> c_settled c" "c_settlement c = None"
  shows "core s'"
proof -
  note d = insert_creditD [OF assms(2)]
  have new: "credit_check (c\<lparr>c_id := i\<rparr>)" "credit_key (c\<lparr>c_id := i\<rparr>) = credit_key c"
    using d(3) by (simp_all add: credit_check_def credit_key_def)
  have "rows_ok s'" using assms(1) d new by (auto simp: inv_parts)
  moreover have "linked j s' = linked j s" for j by (simp add: d(1) linked_def assms(4))
  ultimately show ?thesis using assms(1,3,4) by (auto simp: inv_parts link_ok_def d(1))
qed

lemma inv_insert_quarantined:
  assumes "ledger_inv s" "insert_credit c s = Inr (s', i)" "\<not> c_settled c" "c_settlement c = None" "c_quarantined c"
    "c_prov c \<le> c_gross c"
  shows "ledger_inv s'"
  using core_insert [OF _ assms(2-4)] assms(1,5,6) insert_creditD [OF assms(2)]
  by (auto simp: ledger_inv_def operators_ok_def split_ok_def resolutions_ok_def)

end
