(* ===== verification/Ledger_Preservation.thy ===== *)
theory Ledger_Preservation
  imports Ledger_Invariants
begin

text \<open>
  Every operation of the ledger keeps its invariant.
\<close>

section \<open>Writing a credit with its operator share\<close>

definition exact_split :: "BilledRow \<Rightarrow> bool" where
  "exact_split b \<longleftrightarrow> OperatorCredits b + ProviderCredits b = GrossCredits b"

lemma exact_split_zero [simp]: "exact_split (zeroCredits b)"
  by (simp add: exact_split_def zeroCredits_def Let_def)

lemma checkedMul_nonneg: "checkedMul a b = Some c \<Longrightarrow> 0 \<le> c"
proof (cases "a < 0 \<or> b < 0 \<or> a = 0 \<or> b = 0")
  case False
  assume c: "checkedMul a b = Some c"
  have "0 \<le> a * b" using False by simp
  moreover have "a * b \<le> max_i64"
    using c False le_div_iff_int [of b a max_i64] by (auto simp: checkedMul_def sdiv_nonneg max_i64_def split: if_splits)
  ultimately have "i64 (a * b) = a * b" by (intro i64_id) (simp add: fits_i64_def min_i64_def)
  then show "0 \<le> c" using c \<open>0 \<le> a * b\<close> False by (auto simp: checkedMul_def split: if_splits)
qed (auto simp: checkedMul_def split: if_splits)

lemma creditsFor_range:
  assumes "creditsFor u c k pr cr kr m s = Some (g, p)"
  shows "0 \<le> g" "0 \<le> p" "fits_i64 g" "fits_i64 p"
proof -
  from assms obtain base scaled pn where scaled: "checkedMul base m = Some scaled"
    and g: "g = RoundHalfEven scaled (globalMultiplierDenom * tokensPerMillion)"
    and pn: "checkedMul g s = Some pn" and p: "p = RoundHalfEven pn providerShareDenom"
    by (auto simp: creditsFor_def Let_def split: Option.bind_splits)
  show "0 \<le> g" "fits_i64 g"
    using RoundHalfEven_nonneg [OF checkedMul_nonneg [OF scaled] checkedMul_fits [OF scaled]] by (simp_all add: g billing_consts)
  show "0 \<le> p" "fits_i64 p"
    using RoundHalfEven_nonneg [OF checkedMul_nonneg [OF pn] checkedMul_fits [OF pn]] by (simp_all add: p billing_consts)
qed

lemma creditsFor_split: "creditsFor u c k pr cr kr m s = Some (g, p) \<Longrightarrow> i64 (g - p) + p = g"
  using creditsFor_range [of u c k pr cr kr m s g p]
  by (subst i64_id) (auto simp: fits_i64_def min_i64_def max_i64_def)

lemma exact_split_credits [simp]: "exact_split (ComputeCreditsWithCache pr ca co e u f r m sh)" (is "exact_split ?row")
proof -
  let ?b = "billableCompletion (if u = [] then UsageProviderReported else u) co e"
  consider "fault_row ?row" | k x g p where "f \<noteq> FaultBreakerQualifying" "u \<noteq> UsageNullError"
    "?b = Some (k, x)" "billable_tokens pr ca k"
    "creditsFor (deref0 pr - deref0 ca) (deref0 ca) k (PromptCreditsPerMtok r)
       (EffectivePromptCacheHitCreditsPerMtok r) (CompletionCreditsPerMtok r) m sh = Some (g, p)"
    by (metis ComputeCredits_fault ComputeCredits_invalid ComputeCredits_overflow option.exhaust surj_pair)
  then show ?thesis
  proof cases
    case 1
    then show ?thesis by (simp add: exact_split_def fault_row_def)
  next
    case (2 k x g p)
    then show ?thesis using ComputeCredits_billed [OF 2] creditsFor_split [OF 2(5)] by (simp add: exact_split_def)
  qed
qed

lemma inv_credit:
  assumes "ledger_inv s" "insert_credit c s = Inr (s1, i)" "insertOperatorCreditTx i b s1 = Inr s2"
    "\<not> c_settled c" "c_settlement c = None" "c_gross c = GrossCredits b" "c_prov c = ProviderCredits b" "exact_split b"
  shows "ledger_inv s2"
proof -
  define row where "row = \<lparr>oc_credit = i, oc_gross = GrossCredits b, oc_share = 10000 - ProviderShareBps b,
    oc_credits = OperatorCredits b, oc_fault = br_FaultFlag b\<rparr>"
  note d = insert_creditD [OF assms(2)]
  have s2: "s2 = s1\<lparr>operators := operators s1 @ [row]\<rparr>" and ch: "operator_check row" and cid: "oc_credit row = i"
    using assms(3) by (auto simp: insertOperatorCreditTx_def row_def Let_def split: if_splits)
  have lt: "\<forall>x \<in> set (operators s). oc_credit x < i" "\<forall>x \<in> set (credits s). c_id x < i"
    using assms(1) d(2) by (auto simp: ledger_inv_def inv_parts)
  have core: "core s2" using core_insert [OF _ assms(2,4,5)] assms(1) by (simp add: s2 ledger_inv_def)
  have ops: "operators_ok s2" using assms(1) lt ch cid by (auto simp: s2 d(1) ledger_inv_def operators_ok_def)
  have none: "filter (\<lambda>x. oc_credit x = i) (operators s) = []" using lt(1) by (auto simp: filter_empty_conv)
  have "split_mismatch s2 x \<longleftrightarrow> split_mismatch s x" if "x \<in> set (credits s)" for x
    using that lt(2) by (auto simp: s2 d(1) split_mismatch_def cid)
  moreover have "\<not> split_mismatch s2 (c\<lparr>c_id := i\<rparr>)"
    using assms(6-8) none by (simp add: s2 d(1) split_mismatch_def cid exact_split_def) (simp add: row_def)
  moreover have "c_prov c \<le> c_gross c" using ch assms(6-8) by (simp add: row_def operator_check_def exact_split_def)
  ultimately have "split_ok s2" using assms(1) by (auto simp: s2 d(1) ledger_inv_def split_ok_def)
  then show ?thesis using core ops assms(1) by (simp add: ledger_inv_def s2 d(1) resolutions_ok_def)
qed

lemma filter_update_operators:
  "(\<And>x. oc_credit (f x) = oc_credit x) \<Longrightarrow>
   filter (\<lambda>x. oc_credit x = j) (update_where (\<lambda>x. oc_credit x = i) f os) =
   (if i = j then map f (filter (\<lambda>x. oc_credit x = j) os) else filter (\<lambda>x. oc_credit x = j) os)"
  by (induction os) (auto simp: update_where_def)

lemma operators_ok_update:
  assumes "operators_ok s" "next_credit s' = next_credit s" "operators s' = update_where P f (operators s)"
    "\<And>x. oc_credit (f x) = oc_credit x" "\<And>x. x \<in> set (operators s) \<Longrightarrow> P x \<Longrightarrow> operator_check (f x)"
  shows "operators_ok s'"
  using assms(1,2,4,5) unfolding operators_ok_def assms(3) by (auto simp: set_update_where)

lemma inv_rewrite:
  assumes "ledger_inv s" "rewrite_credit c b s = Inr (s', r)" "exact_split b" "c \<in> set (credits s)" "\<not> c_quarantined c"
  shows "ledger_inv s'"
proof -
  define f :: "request_credit \<Rightarrow> request_credit" where
    "f = (\<lambda>x. x\<lparr>c_prompt := br_PromptTokens b, c_completion := br_CompletionTokens b, c_estimated := None,
      c_usage := br_UsageSource b, c_gross := GrossCredits b, c_prov := ProviderCredits b, c_fault := br_FaultFlag b\<rparr>)"
  define g :: "operator_credit \<Rightarrow> operator_credit" where
    "g = (\<lambda>x. x\<lparr>oc_gross := GrossCredits b, oc_credits := OperatorCredits b, oc_fault := br_FaultFlag b\<rparr>)"
  obtain s1 where u: "update_credits (\<lambda>x. c_id x = c_id c) f s = Inr s1"
    and s': "s' = s1\<lparr>operators := update_where (\<lambda>x. oc_credit x = c_id c) g (operators s1)\<rparr>"
    and ch: "\<And>x. x \<in> set (operators s1) \<Longrightarrow> oc_credit x = c_id c \<Longrightarrow> operator_check (g x)"
    using assms(2) unfolding f_def g_def by (auto simp: rewrite_credit_def bind_err_Inr split: if_splits)
  note s1 = update_creditsD(1) [OF u]
  have core: "core s'" using core_update [OF _ u] assms(1) by (simp add: s' ledger_inv_def f_def same_link_def credit_key_def)
  have ops: "operators_ok s'"
    by (rule operators_ok_update [where s = s1 and P = "\<lambda>x. oc_credit x = c_id c" and f = g]) (use assms(1) ch in \<open>auto simp: s' s1 g_def ledger_inv_def operators_ok_def\<close>)
  have one: "length (filter (\<lambda>x. oc_credit x = c_id c) (operators s)) = 1"
    using assms(1,4,5) by (auto simp: ledger_inv_def split_ok_def split_mismatch_def Let_def)
  have gid: "oc_credit (g x) = oc_credit x" for x by (simp add: g_def)
  have gc: "oc_credits (g x) = OperatorCredits b" for x by (simp add: g_def)
  have fl: "filter (\<lambda>x. oc_credit x = j) (operators s') = (if c_id c = j then map g (filter (\<lambda>x. oc_credit x = j) (operators s))
      else filter (\<lambda>x. oc_credit x = j) (operators s))" for j
    using filter_update_operators [OF gid] by (simp add: s' s1)
  have other: "split_mismatch s' x = split_mismatch s x" if "c_id x \<noteq> c_id c" for x
    using that by (simp add: split_mismatch_def fl)
  have self: "\<not> split_mismatch s' (f x)" if "c_id x = c_id c" for x
    using one assms(3) that by (cases "filter (\<lambda>x. oc_credit x = c_id c) (operators s)") (auto simp: split_mismatch_def fl f_def gc exact_split_def)
  obtain o' where "o' \<in> set (operators s1)" "oc_credit o' = c_id c"
  proof -
    have "filter (\<lambda>x. oc_credit x = c_id c) (operators s) \<noteq> []" using one by auto
    then show ?thesis using that by (auto simp: filter_empty_conv s1)
  qed
  then have le: "ProviderCredits b \<le> GrossCredits b"
    using ch [of o'] assms(3) by (simp add: operator_check_def g_def exact_split_def)
  have "split_ok s'" using assms(1) other self le
    by (auto simp: split_ok_def ledger_inv_def s' [THEN arg_cong [where f = credits]] s1 set_update_where f_def)
  then show ?thesis using core ops assms(1) by (simp add: ledger_inv_def s' s1 resolutions_ok_def)
qed

lemma inv_quarantine_receipt:
  assumes "ledger_inv s" "quarantine_receipt c reason s = Inr (s', r)"
  shows "ledger_inv s'"
proof -
  define f :: "request_credit \<Rightarrow> request_credit" where "f = (\<lambda>x. x\<lparr>c_quarantined := True, c_reason := Some reason, c_gross := 0, c_prov := 0 :: int\<rparr>)"
  define g :: "operator_credit \<Rightarrow> operator_credit" where "g = (\<lambda>x. x\<lparr>oc_gross := 0, oc_credits := 0 :: int\<rparr>)"
  obtain s1 s2 where u: "update_credits (\<lambda>x. c_id x = c_id c) f s = Inr s1"
    and s2: "s2 = s1\<lparr>operators := update_where (\<lambda>x. oc_credit x = c_id c) g (operators s1)\<rparr>"
    and s': "\<exists>v. s' = s2\<lparr>verdicts := v\<rparr>"
    using assms(2) by (auto simp: quarantine_receipt_def markVerifiedReceiptCacheQuarantinedTx_def
        markSettlementReceiptCacheQuarantinedTx_def bind_err_Inr f_def g_def)
  note s1 = update_creditsD(1) [OF u]
  have core: "core s2" using core_update [OF _ u] assms(1) by (simp add: s2 ledger_inv_def f_def same_link_def credit_key_def)
  have ops: "operators_ok s2"
    by (rule operators_ok_update [where s = s1 and P = "\<lambda>x. oc_credit x = c_id c" and f = g]) (use assms(1) in \<open>auto simp: s2 s1 g_def ledger_inv_def operators_ok_def operator_check_def\<close>)
  have "split_mismatch s2 x = split_mismatch s x" if "c_id x \<noteq> c_id c" for x
    using that filter_update_operators [of g] by (simp add: split_mismatch_def s2 s1 g_def)
  then have "split_ok s2" using assms(1) by (auto simp: split_ok_def ledger_inv_def s2 s1 set_update_where f_def)
  then have "ledger_inv s2" using core ops assms(1) by (simp add: ledger_inv_def s2 s1 resolutions_ok_def)
  then show ?thesis using s' by auto
qed

lemma sync_targetD:
  assumes "sync_target q a p s = Some (c, x)"
  shows "c \<in> set (credits s)" "\<not> c_quarantined c" "\<not> c_settled c" "credit_key c = (q, a, p)" "c_mode c = Enforce"
  using assms by (auto simp: sync_target_def find_Some_iff split: option.splits)

lemma sync_cases:
  assumes "syncVerifiedReceiptLedgerCreditForAttemptTx q a p s = Inr (s', r)"
  obtains (none) "s' = s"
  | (quarantined) c reason where "c \<in> set (credits s)" "\<not> c_settled c" "quarantine_receipt c reason s = Inr (s', r)"
  | (rewritten) c b where "c \<in> set (credits s)" "\<not> c_quarantined c" "\<not> c_settled c" "exact_split b"
      "rewrite_credit c b s = Inr (s', r)"
proof (cases "sync_target q a p s")
  case None
  then show ?thesis using assms none by (simp add: syncVerifiedReceiptLedgerCreditForAttemptTx_def)
next
  case (Some t)
  then obtain c x where t: "sync_target q a p s = Some (c, x)" by (cases t) auto
  obtain u v where u: "sao_usage x = Some (u, v)"
    using assms t by (auto simp: syncVerifiedReceiptLedgerCreditForAttemptTx_def split: option.splits)
  define ch where "ch = (case c_prompt c of Some n \<Rightarrow> min u n | None \<Rightarrow> u)"
  obtain w where w: "cached_rate c ch s = Inr w"
    using assms t u by (auto simp: syncVerifiedReceiptLedgerCreditForAttemptTx_def Let_def ch_def bind_err_Inr)
  show ?thesis
  proof (cases w)
    case (Inl reason)
    then show ?thesis using assms t u w quarantined [of c reason] sync_targetD [OF t]
      by (simp add: syncVerifiedReceiptLedgerCreditForAttemptTx_def Let_def ch_def [symmetric])
  next
    case (Inr z)
    then obtain rate cached where z: "w = Inr (rate, cached)" by (cases z) auto
    have "rewrite_credit c (ComputeCreditsWithCache (Some ch) cached (Some v) None UsageProviderReported (c_fault c) rate
        (c_multiplier c) (c_share c)) s = Inr (s', r)"
      using assms t u w z by (simp add: syncVerifiedReceiptLedgerCreditForAttemptTx_def Let_def ch_def [symmetric])
    then show ?thesis using sync_targetD [OF t] by (intro rewritten [OF _ _ _ exact_split_credits])
  qed
qed

lemma inv_sync:
  assumes "ledger_inv s" "syncVerifiedReceiptLedgerCreditForAttemptTx q a p s = Inr (s', r)"
  shows "ledger_inv s'"
  using assms(2)
proof (cases rule: sync_cases)
  case none
  then show ?thesis using assms(1) by simp
next
  case (quarantined c reason)
  then show ?thesis using inv_quarantine_receipt [OF assms(1)] by blast
next
  case (rewritten c b)
  then show ?thesis using inv_rewrite [OF assms(1)] by blast
qed


section \<open>Rows of an attempt\<close>

lemma credit_of_simps [simp]:
  "\<not> c_settled (credit_of i b q r)" "c_settlement (credit_of i b q r) = None" "c_quarantined (credit_of i b q r) = q"
  "c_gross (credit_of i b q r) = GrossCredits b" "c_prov (credit_of i b q r) = ProviderCredits b"
  by (simp_all add: credit_of_def)


section \<open>Writers of the ledger\<close>

text \<open>The result of a fallible step satisfies a property of the ledger.\<close>

definition keeps :: "(ledger \<Rightarrow> bool) \<Rightarrow> ('s \<Rightarrow> ledger) \<Rightarrow> ledger_error + 's \<Rightarrow> bool" where
  "keeps I p m \<longleftrightarrow> (\<forall>x. m = Inr x \<longrightarrow> I (p x))"

lemma keepsI: "(\<And>x. m = Inr x \<Longrightarrow> I (p x)) \<Longrightarrow> keeps I p m"
  by (simp add: keeps_def)

lemma keepsD: "keeps I p m \<Longrightarrow> m = Inr x \<Longrightarrow> I (p x)"
  by (simp add: keeps_def)

lemma keeps_simps [simp]: "keeps I p (Inr x) = I (p x)" "keeps I p (Inl e)"
  by (simp_all add: keeps_def)

lemma keeps_if: "keeps I p m \<Longrightarrow> keeps I p n \<Longrightarrow> keeps I p (if b then m else n)"
  by simp

lemma keeps_list: "keeps I p m \<Longrightarrow> (\<And>y ys. keeps I p (f y ys)) \<Longrightarrow> keeps I p (case xs of [] \<Rightarrow> m | y # ys \<Rightarrow> f y ys)"
  by (cases xs) simp_all

lemma keeps_sum: "(\<And>e. keeps I p (f e)) \<Longrightarrow> (\<And>y. keeps I p (g y)) \<Longrightarrow> keeps I p (case v of Inl e \<Rightarrow> f e | Inr y \<Rightarrow> g y)"
  by (cases v) simp_all

lemma keeps_option: "keeps I p m \<Longrightarrow> (\<And>y. keeps I p (f y)) \<Longrightarrow> keeps I p (case v of None \<Rightarrow> m | Some y \<Rightarrow> f y)"
  by (cases v) simp_all

lemma keeps_prod: "(\<And>x y. keeps I p (f x y)) \<Longrightarrow> keeps I p (case v of (x, y) \<Rightarrow> f x y)"
  by (cases v) simp

lemmas keeps_intros = keeps_if keeps_list keeps_sum keeps_option keeps_prod

lemma Transact_keeps:
  assumes "I s" "\<And>s' r. body s = Inr (s', r) \<Longrightarrow> I s'"
  shows "I (fst (Transact commits body s))"
  using assms by (auto simp: Transact_def split: sum.splits)

lemma map_sum_unit: "map_sum id (\<lambda>s. (s, ())) m = Inr (s', r) \<longleftrightarrow> m = Inr s'"
  by (cases m) auto

lemma fold_err_inv:
  assumes "\<And>x s s'. x \<in> set xs \<Longrightarrow> I s \<Longrightarrow> f x s = Inr s' \<Longrightarrow> I s'" "I s" "fold_err f xs s = Inr s'"
  shows "I s'"
  using assms by (induction xs arbitrary: s) (auto simp: bind_err_Inr)

text \<open>A property that the primitive writes keep is kept by the hot path and by recovery.\<close>

locale ledger_writer =
  fixes I :: "ledger \<Rightarrow> bool"
  assumes I_log: "I (InsertExec r s) = I s"
    and I_runs: "I (s\<lparr>runs := z\<rparr>) = I s"
    and I_identity: "I s \<Longrightarrow> insertProviderIdentitySnapshotTx i s = Inr s' \<Longrightarrow> I s'"
    and I_quarantine: "I s \<Longrightarrow> update_credits P (quarantine_row reason) s = Inr s' \<Longrightarrow> I s'"
    and I_quarantined: "I s \<Longrightarrow> insert_credit c s = Inr (s', n) \<Longrightarrow> \<not> c_settled c \<Longrightarrow> c_settlement c = None \<Longrightarrow>
      c_quarantined c \<Longrightarrow> c_prov c \<le> c_gross c \<Longrightarrow> I s'"
    and I_credit: "I s \<Longrightarrow> insert_credit c s = Inr (s1, n) \<Longrightarrow> insertOperatorCreditTx n b s1 = Inr s2 \<Longrightarrow>
      \<not> c_settled c \<Longrightarrow> c_settlement c = None \<Longrightarrow> c_gross c = GrossCredits b \<Longrightarrow> c_prov c = ProviderCredits b \<Longrightarrow>
      exact_split b \<Longrightarrow> I s2"
    and I_sync: "I s \<Longrightarrow> syncVerifiedReceiptLedgerCreditForAttemptTx q a p s = Inr (s', reason) \<Longrightarrow> I s'"
begin

lemma credited:
  assumes "I s" "insertRequestCreditTx i (cached_credits i) False [] s = Inr (s1, cid)"
    "insertOperatorCreditTx cid (cached_credits i) s1 = Inr s2"
  shows "I s2"
  by (rule I_credit [OF assms(1) assms(2) [unfolded insertRequestCreditTx_def] assms(3)]) (simp_all add: cached_credits_def)

lemma attempt_quarantined:
  assumes "I s" "quarantined_attempt i b reason s = Inr s'"
  shows "I s'"
proof -
  obtain s1 n where c: "insert_credit (credit_of i (zeroCredits b) True reason) s = Inr (s1, n)"
    and s': "insertProviderIdentitySnapshotTx i s1 = Inr s'"
    using assms(2) by (auto simp: quarantined_attempt_def bind_err_Inr insertRequestCreditTx_def)
  have "I s1" by (rule I_quarantined [OF assms(1) c]) (simp_all add: zeroCredits_def Let_def)
  then show ?thesis using s' by (rule I_identity)
qed

lemma attempt_credited:
  assumes "I s" "credit_attempt i s = Inr s'"
  shows "I s'"
  using assms by (auto simp: credit_attempt_def bind_err_Inr) (blast dest: credited I_identity I_sync)

lemma hot_path:
  assumes "I s"
  shows "keeps I (\<lambda>s. s) (hot_path_body sha now r i s)"
proof -
  have s: "I (InsertExec r s)" using assms I_log by simp
  have q: "keeps I (\<lambda>s. s) (quarantined_attempt i b reason (InsertExec r s))" for i b reason
    using attempt_quarantined [OF s] by (auto intro: keepsI)
  have c: "keeps I (\<lambda>s. s) (credit_attempt i (InsertExec r s))" for i
    using attempt_credited [OF s] by (auto intro: keepsI)
  show ?thesis unfolding hot_path_body_def Let_def
    by (intro keeps_if q) (simp_all only: keeps_simps s split_beta, intro keeps_if q c)
qed

lemma write_hot_path: "I s \<Longrightarrow> I (fst (writeHotPath sha ok now account r i s))"
  unfolding writeHotPath_def Let_def by (rule Transact_keeps) (auto simp: map_sum_unit dest: hot_path [THEN keepsD])

lemma write_request_log: "I s \<Longrightarrow> I (fst (writeRequestLogWithIdentity ok account r i s))"
  unfolding writeRequestLogWithIdentity_def Let_def
  by (rule Transact_keeps) (auto simp: map_sum_unit I_log dest!: I_identity [rotated] split: if_splits)

lemma quarantine_inserted: "I s \<Longrightarrow> I (insertQuarantineTx r a p as pr co es reason s)"
  by (auto simp: insertQuarantineTx_def Let_def intro: I_quarantined split: sum.splits)

lemma quarantine_attempt_kept:
  assumes "I s"
  shows "keeps I fst (quarantine_attempt r a p as pr co es reason (s, k))"
proof (rule keepsI)
  fix x assume x: "quarantine_attempt r a p as pr co es reason (s, k) = Inr x"
  obtain s1 where u: "update_credits (\<lambda>c. \<not> c_quarantined c \<and> attempt_row (rl_request r) a as s c) (quarantine_row reason) s = Inr s1"
    and "fst x = s1 \<or> fst x = insertQuarantineTx r a p as pr co es reason s1"
    using x by (auto simp: quarantine_attempt_def quarantineExistingLedgerForRequestAttemptTx_def Let_def bind_err_Inr split: if_splits)
  then show "I (fst x)" using quarantine_inserted I_quarantine [OF assms u] by auto
qed

lemma reconciled:
  assumes "I s" "reconcileExistingCreditTx i b s = Inr (s', res)"
  shows "I s'"
  using assms by (auto simp: reconcileExistingCreditTx_def Let_def bind_err_Inr intro: I_quarantine
      split: option.splits if_splits)

lemma recover_credit_kept:
  assumes "I s"
  shows "keeps I fst (recover_credit r amb i (s, k))"
proof (rule keepsI)
  fix x assume x: "recover_credit r amb i (s, k) = Inr x"
  obtain s1 res where r: "reconcileExistingCreditTx i (cached_credits i) s = Inr (s1, res)"
    using x by (auto simp: recover_credit_def bind_err_Inr)
  then have i1: "I s1" by (rule reconciled [OF assms(1)])
  show "I (fst x)"
  proof (cases "rc_exists res \<or> amb")
    case True
    then show ?thesis using x r i1 by (auto simp: recover_credit_def intro: quarantine_inserted split: if_splits)
  next
    case False
    then show ?thesis using x r i1 by (auto simp: recover_credit_def bind_err_Inr intro: I_sync credited)
  qed
qed

lemma recover_row_kept: "I s \<Longrightarrow> keeps I fst (recover_row sha r (s, k))"
  unfolding recover_row_def Let_def prod.case
  by (intro keeps_intros quarantine_attempt_kept recover_credit_kept) (simp_all add: quarantine_inserted)

lemma recovery_kept:
  assumes "I s" "recovery_body sha source a b s = Inr (s', u)"
  shows "I s'"
proof -
  let ?k = "no_counts\<lparr>rv_quarantined := int (length (filter (orphan a b s) (credits s)))\<rparr>"
  obtain s1 s2 k2 where u: "update_credits (orphan a b s) (quarantine_row ''missing_request_log'') s = Inr s1"
    and f: "fold_err (recover_row sha) (scan_rows a b s1) (s1, ?k) = Inr (s2, k2)"
    and s': "s' = s2\<lparr>runs := runs s2 @ [recovery_run source a b k2 ''complete'']\<rparr>"
    using assms(2) by (auto simp: recovery_body_def bind_err_Inr)
  have step: "I (fst y)" if "I (fst x)" "recover_row sha r x = Inr y" for r x y
    using keepsD [OF recover_row_kept [OF that(1), of sha r "snd x"], of y] that(2) by simp
  have "I (fst (s2, k2))"
    by (rule fold_err_inv [where I = "\<lambda>x. I (fst x)", OF _ _ f]) (use I_quarantine [OF assms(1) u] step in auto)
  then show ?thesis by (simp add: s' I_runs)
qed

lemma recover: "I s \<Longrightarrow> I (fst (RecoverLedger sha ok rec src a b s))"
proof -
  assume s: "I s"
  define T where "T = Transact ok (recovery_body sha (if src = [] then ''startup_scan'' else src) a b) s"
  have "I (fst T)" unfolding T_def by (rule Transact_keeps [where I = I, OF s]) (rule recovery_kept [OF s])
  then show ?thesis unfolding RecoverLedger_def Let_def T_def [symmetric] by (cases T; cases "snd T") (auto simp: I_runs)
qed

end


section \<open>The invariant is kept\<close>

lemma inv_identity:
  assumes "ledger_inv s" "insertProviderIdentitySnapshotTx i s = Inr s'"
  shows "ledger_inv s'"
  using assms by (auto simp: insertProviderIdentitySnapshotTx_def Let_def split: if_splits)

interpretation inv: ledger_writer ledger_inv
  by unfold_locales (auto simp: InsertExec_def Let_def intro: inv_identity inv_quarantine inv_insert_quarantined inv_credit inv_sync)

end
