(* ===== verification/Ledger_Money.thy ===== *)
theory Ledger_Money
  imports Ledger_Preservation
begin

text \<open>
  Settlement, claims and resolutions keep the invariant of the ledger, and what they do to the money.
\<close>

section \<open>Linking credits to a payout\<close>

definition plus4 :: "int \<times> int \<times> int \<times> int \<Rightarrow> int \<times> int \<times> int \<times> int \<Rightarrow> int \<times> int \<times> int \<times> int" where
  "plus4 x y = (case (x, y) of ((a, b, c, d), (a', b', c', d')) \<Rightarrow> (a + a', b + b', c + c', d + d'))"

definition link_to :: "int \<Rightarrow> request_credit \<Rightarrow> request_credit" where
  "link_to i c = c\<lparr>c_settled := True, c_settlement := Some i\<rparr>"

lemma link_to_simps [simp]:
  "c_id (link_to i c) = c_id c" "credit_key (link_to i c) = credit_key c" "c_provider (link_to i c) = c_provider c"
  "c_ts (link_to i c) = c_ts c" "c_gross (link_to i c) = c_gross c" "c_prov (link_to i c) = c_prov c"
  "c_quarantined (link_to i c) = c_quarantined c" "c_settled (link_to i c)" "c_settlement (link_to i c) = Some i"
  by (simp_all add: link_to_def credit_key_def)

lemma sum_link:
  fixes g :: "request_credit \<Rightarrow> int"
  assumes "\<And>k c. g (link_to k c) = g c"
  shows "\<forall>c \<in> set xs. T c \<longrightarrow> c_settlement c = None \<Longrightarrow>
    sum_list (map g (filter (\<lambda>c. c_settlement c = Some j) (update_where T (link_to i) xs))) =
    (if j = i then sum_list (map g (filter (\<lambda>c. c_settlement c = Some i) xs)) + sum_list (map g (filter T xs))
     else sum_list (map g (filter (\<lambda>c. c_settlement c = Some j) xs)))"
  by (induction xs) (auto simp: update_where_def assms)

lemma int_length: "int (length xs) = sum_list (map (\<lambda>_. 1) xs)"
  by (induction xs) simp_all

lemma sums_link:
  assumes "\<forall>c \<in> set xs. T c \<longrightarrow> c_settlement c = None"
  shows "sums_of (filter (\<lambda>c. c_settlement c = Some j) (update_where T (link_to i) xs)) =
    (if j = i then plus4 (sums_of (filter (\<lambda>c. c_settlement c = Some i) xs)) (sums_of (filter T xs))
     else sums_of (filter (\<lambda>c. c_settlement c = Some j) xs))"
  using sum_link [OF _ assms] unfolding sums_of_def plus4_def int_length by simp

lemma core_link:
  assumes "rows_ok s" "payouts_ok s" "links_ok s" "link_credits ids pid i s = Inr s'"
    and p: "p \<in> set (payouts s)" "po_id p = i" "po_provider p = pid"
    and R: "R = filter (\<lambda>c. c_provider c = pid \<and> c_id c \<in> set ids) (credits s)"
    "\<forall>c \<in> set R. c_settlement c = None \<and> c_ts c < po_end p"
    and t: "\<forall>q \<in> set (payouts s). totals q = (if po_id q = i then plus4 (sums_of (linked i s)) (sums_of R) else sums_of (linked (po_id q) s))"
  shows "core s'"
proof -
  define T :: "request_credit \<Rightarrow> bool" where "T = (\<lambda>c. c_provider c = pid \<and> c_id c \<in> set ids)"
  have u: "update_credits T (link_to i) s = Inr s'" using assms(4) by (simp add: link_credits_def T_def link_to_def [abs_def])
  note s' = update_creditsD(1) [OF u]
  have none: "\<forall>c \<in> set (credits s). T c \<longrightarrow> c_settlement c = None \<and> c_ts c < po_end p"
    using R by (auto simp: T_def)
  have "sums_of (linked j s') = (if j = i then plus4 (sums_of (linked i s)) (sums_of R) else sums_of (linked j s))" for j
    using sums_link [of "credits s" T j i] none by (simp add: linked_def s' R(1) T_def)
  then have "totals_ok s'" using t by (auto simp: totals_ok_def s')
  moreover have "rows_ok s'" using assms(1) update_creditsD(2) [OF u] by (auto simp: rows_ok_def s' set_update_where)
  moreover have "links_ok s'" using assms(3) none p by (auto simp: links_ok_def link_ok_def s' set_update_where T_def)
  ultimately show ?thesis using assms(2) by (simp add: core_def payouts_ok_def s')
qed

lemma find_key:
  assumes "find P xs = Some x"
  shows "x \<in> set xs" "P x"
  using assms by (auto simp: find_Some_iff)

lemma linked_fresh: "payouts_ok s \<Longrightarrow> links_ok s \<Longrightarrow> linked (next_payout s) s = []"
  by (fastforce simp: linked_def filter_empty_conv links_ok_def link_ok_def payouts_ok_def split: if_splits)

lemma sums_of_Nil [simp]: "plus4 (sums_of []) x = x"
  by (cases x) (simp add: plus4_def sums_of_def)

lemma links_ok_payouts:
  assumes "links_ok s" "credits s' = credits s" "payouts s' = update_where P f (payouts s)"
    "\<And>p. po_id (f p) = po_id p \<and> po_provider (f p) = po_provider p \<and> po_end (f p) = po_end p"
  shows "links_ok s'"
proof -
  have "\<exists>q \<in> set (payouts s'). po_id q = po_id p \<and> po_provider q = po_provider p \<and> po_end q = po_end p"
    if "p \<in> set (payouts s)" for p
    using that assms(4) [of p] unfolding assms(3) set_update_where by (intro bexI [of _ "if P p then f p else p"]) auto
  then show ?thesis using assms(1) unfolding links_ok_def link_ok_def assms(2) by (smt (verit))
qed

definition group_totals :: "settlement_group \<Rightarrow> int \<times> int \<times> int \<times> int" where
  "group_totals g = (g_count g, g_gross g, g_prov g, g_oper g)"

lemma group_totals_of: "group_totals (group_of rows pid) = sums_of (filter (\<lambda>c. c_provider c = pid) rows)"
  by (simp add: group_totals_def group_of_def sums_of_def Let_def)

lemma totals_add_group: "totals (add_group g p) = plus4 (totals p) (group_totals g)"
  by (simp add: totals_def add_group_def plus4_def group_totals_def)

lemma settle_group_core:
  assumes "core s" "settle_group cadence mp start fin now ids g s = Inr s'"
    and R: "R = filter (\<lambda>c. c_provider c = g_provider g \<and> c_id c \<in> set ids) (credits s)"
    "\<forall>c \<in> set R. c_settlement c = None \<and> c_ts c < fin" "group_totals g = sums_of R"
  shows "core s'"
proof (cases "find (\<lambda>p. payout_key p = (g_provider g, start, fin)) (payouts s)")
  case None
  define p where "p = new_payout cadence mp start fin now g (next_payout s)"
  define s1 where "s1 = s\<lparr>payouts := payouts s @ [p], next_payout := next_payout s + 1\<rparr>"
  have link: "link_credits ids (g_provider g) (next_payout s) s1 = Inr s'" and ch: "payout_check p"
    using assms(2) None by (auto simp: settle_group_def s1_def p_def Let_def split: if_splits)
  have p: "po_id p = next_payout s" "po_provider p = g_provider g" "po_end p = fin" "payout_key p = (g_provider g, start, fin)"
    "totals p = group_totals g"
    by (simp_all add: p_def new_payout_def payout_key_def totals_def group_totals_def)
  have parts: "rows_ok s" "payouts_ok s" "links_ok s" "totals_ok s" using assms(1) by (simp_all add: core_def)
  have key: "\<forall>q \<in> set (payouts s). payout_key q \<noteq> payout_key p" using None p(4) by (simp add: find_None_iff)
  have "payouts_ok s1" using parts(2) ch key p(1) by (fastforce simp: payouts_ok_def s1_def)
  moreover have "links_ok s1" using parts(3) by (auto simp: links_ok_def link_ok_def s1_def)
  moreover have "rows_ok s1" using parts(1) by (simp add: rows_ok_def s1_def)
  moreover have "\<forall>q \<in> set (payouts s1). totals q = (if po_id q = next_payout s then plus4 (sums_of (linked (next_payout s) s1)) (sums_of R)
      else sums_of (linked (po_id q) s1))"
    using parts(2,4) p linked_fresh [OF parts(2,3)] R(3) by (auto simp: s1_def payouts_ok_def totals_ok_def)
  ultimately show ?thesis using core_link [OF _ _ _ link, of p R] p R by (simp add: s1_def)
next
  case (Some p)
  show ?thesis
  proof (cases "po_status p = Ready")
    case True
    define s1 where "s1 = s\<lparr>payouts := update_where (\<lambda>q. payout_key q = payout_key p) (add_group g) (payouts s)\<rparr>"
    have link: "link_credits ids (g_provider g) (po_id p) s1 = Inr s'" and ch: "payout_check (add_group g p)"
      using assms(2) Some True by (auto simp: settle_group_def s1_def split: if_splits)
    have p: "p \<in> set (payouts s)" "payout_key p = (g_provider g, start, fin)" using find_key [OF Some] by auto
    have keep: "po_id (add_group g q) = po_id q" "payout_key (add_group g q) = payout_key q" "po_provider (add_group g q) = po_provider q"
      "po_end (add_group g q) = po_end q" for q
      by (simp_all add: add_group_def payout_key_def)
    have parts: "rows_ok s" "payouts_ok s" "links_ok s" "totals_ok s" using assms(1) by (simp_all add: core_def)
    have uniq: "payout_key q = payout_key p \<longleftrightarrow> q = p" "po_id q = po_id p \<longleftrightarrow> q = p" if "q \<in> set (payouts s)" for q
      using parts(2) p(1) that by (auto simp: payouts_ok_def distinct_map inj_on_def)
    have "payouts_ok s1" using parts(2) ch uniq keep by (auto simp: payouts_ok_def s1_def set_update_where)
    moreover have "links_ok s1" by (rule links_ok_payouts [OF parts(3), where f = "add_group g"]) (simp_all add: s1_def keep)
    moreover have "rows_ok s1" using parts(1) by (simp add: rows_ok_def s1_def)
    moreover have "\<forall>q \<in> set (payouts s1). totals q = (if po_id q = po_id p then plus4 (sums_of (linked (po_id p) s1)) (sums_of R)
        else sums_of (linked (po_id q) s1))"
      using parts(4) p(1) uniq R(3) by (auto simp: s1_def set_update_where totals_ok_def keep totals_add_group)
    moreover have "add_group g p \<in> set (payouts s1)" using p(1) by (auto simp: s1_def set_update_where image_iff intro!: bexI [of _ p])
    moreover have "po_provider p = g_provider g" "po_end p = fin" using p(2) by (simp_all add: payout_key_def)
    ultimately show ?thesis using core_link [OF _ _ _ link, of "add_group g p" R] R keep by (simp add: s1_def)
  next
    case False
    then show ?thesis using assms(1,2) Some by (simp add: settle_group_def)
  qed
qed


lemma settle_group_frame:
  assumes "settle_group cadence mp start fin now ids g s = Inr s'"
  obtains "s' = s" | sid ps n where
    "s' = s\<lparr>credits := update_where (\<lambda>c. c_provider c = g_provider g \<and> c_id c \<in> set ids) (link_to sid) (credits s),
       payouts := ps, next_payout := n\<rparr>"
proof (cases "find (\<lambda>p. payout_key p = (g_provider g, start, fin)) (payouts s)")
  case None
  define p where "p = new_payout cadence mp start fin now g (next_payout s)"
  have "link_credits ids (g_provider g) (next_payout s) (s\<lparr>payouts := payouts s @ [p], next_payout := next_payout s + 1\<rparr>) = Inr s'"
    using assms None by (auto simp: settle_group_def Let_def p_def split: if_splits)
  then show ?thesis using that(2) [where sid = "next_payout s" and ps = "payouts s @ [p]" and n = "next_payout s + 1"]
    by (auto dest!: update_creditsD(1) simp: link_credits_def link_to_def [abs_def])
next
  case (Some p)
  show ?thesis
  proof (cases "po_status p = Ready")
    case True
    define ps where "ps = update_where (\<lambda>q. payout_key q = payout_key p) (add_group g) (payouts s)"
    have "link_credits ids (g_provider g) (po_id p) (s\<lparr>payouts := ps\<rparr>) = Inr s'"
      using assms Some True by (auto simp: settle_group_def ps_def split: if_splits)
    then show ?thesis using that(2) [where sid = "po_id p" and ps = ps and n = "next_payout s"]
      by (auto dest!: update_creditsD(1) simp: link_credits_def link_to_def [abs_def])
  next
    case False
    then show ?thesis using assms Some that(1) by (simp add: settle_group_def)
  qed
qed

lemma split_ok_link:
  assumes "split_ok s" "operators s' = operators s" "credits s' = update_where T (link_to sid) (credits s)"
  shows "split_ok s'"
  using assms(1,2) unfolding split_ok_def assms(3) by (auto simp: set_update_where split_mismatch_def Let_def)

lemma settle_group_inv:
  assumes "ledger_inv s" "settle_group cadence mp start fin now ids g s = Inr s'"
    and "R = filter (\<lambda>c. c_provider c = g_provider g \<and> c_id c \<in> set ids) (credits s)"
    "\<forall>c \<in> set R. c_settlement c = None \<and> c_ts c < fin" "group_totals g = sums_of R"
  shows "ledger_inv s'"
proof -
  have "core s'" using settle_group_core [OF _ assms(2-5)] assms(1) by (simp add: ledger_inv_def)
  show ?thesis using assms(2)
  proof (cases rule: settle_group_frame)
    case (2 sid ps n)
    then show ?thesis using \<open>core s'\<close> assms(1) split_ok_link [of s s']
      by (simp add: ledger_inv_def operators_ok_def resolutions_ok_def)
  qed (use assms(1) in simp)
qed

lemma filter_update_disjoint:
  "(\<And>c. T c \<Longrightarrow> \<not> Q c \<and> \<not> Q (f c)) \<Longrightarrow> filter Q (update_where T f xs) = filter Q xs"
  by (induction xs) (auto simp: update_where_def)

definition targets :: "int list \<Rightarrow> string \<Rightarrow> ledger \<Rightarrow> request_credit list" where
  "targets ids pid s = filter (\<lambda>c. c_provider c = pid \<and> c_id c \<in> set ids) (credits s)"

lemma targets_settle_group:
  assumes "settle_group cadence mp start fin now ids g s = Inr s'" "pid \<noteq> g_provider g"
  shows "targets ids pid s' = targets ids pid s"
  using assms(1)
proof (cases rule: settle_group_frame)
  case (2 sid ps n)
  then show ?thesis using assms(2) by (simp add: targets_def) (rule filter_update_disjoint, auto)
qed simp

text \<open>The groups of a settlement are settled one after the other; a property of the ledger that each step
  keeps holds at the end. \<open>valid_group\<close> says what is known of a group when its turn comes.\<close>

definition valid_group :: "time \<Rightarrow> int list \<Rightarrow> settlement_group \<Rightarrow> ledger \<Rightarrow> bool" where
  "valid_group fin ids g s \<longleftrightarrow> group_totals g = sums_of (targets ids (g_provider g) s)
     \<and> (\<forall>c \<in> set (targets ids (g_provider g) s). c_settlement c = None \<and> c_ts c < fin)"

lemma valid_group_inv:
  assumes "ledger_inv s" "settle_group cadence mp start fin now ids g s = Inr s'" "valid_group fin ids g s"
  shows "ledger_inv s'"
  by (rule settle_group_inv [OF assms(1,2), of "targets ids (g_provider g) s"])
    (use assms(3) in \<open>auto simp: valid_group_def targets_def\<close>)

lemma valid_group_step:
  assumes "settle_group cadence mp start fin now ids g s = Inr s'" "valid_group fin ids h s" "g_provider h \<noteq> g_provider g"
  shows "valid_group fin ids h s'"
  using assms(2) targets_settle_group [OF assms(1,3)] by (simp add: valid_group_def)

lemma settle_groups_induct:
  assumes "ledger_inv s" "Q s" "fold_err (settle_group cadence mp start fin now ids) gs s = Inr s'" "distinct (map g_provider gs)"
    "\<forall>g \<in> set gs. valid_group fin ids g s"
    and step: "\<And>g s s'. g \<in> set gs \<Longrightarrow> ledger_inv s \<Longrightarrow> Q s \<Longrightarrow> valid_group fin ids g s \<Longrightarrow>
      settle_group cadence mp start fin now ids g s = Inr s' \<Longrightarrow> Q s'"
  shows "ledger_inv s' \<and> Q s'"
  using assms
proof (induction gs arbitrary: s)
  case (Cons g gs)
  obtain s1 where g: "settle_group cadence mp start fin now ids g s = Inr s1"
    and gs: "fold_err (settle_group cadence mp start fin now ids) gs s1 = Inr s'"
    using Cons.prems(3) by (auto simp: bind_err_Inr)
  have v: "valid_group fin ids g s" using Cons.prems(5) by simp
  have "valid_group fin ids h s1" if "h \<in> set gs" for h
    by (rule valid_group_step [OF g]) (use Cons.prems(4,5) that in \<open>force simp: image_iff\<close>)+
  moreover have "Q s1" by (rule Cons.prems(6) [OF _ Cons.prems(1,2) v g]) simp
  moreover have "distinct (map g_provider gs)" using Cons.prems(4) by simp
  ultimately show ?case
    using Cons.prems(6) by (intro Cons.IH [OF valid_group_inv [OF Cons.prems(1) g v] _ gs]) (auto simp del: fold_err.simps)
qed simp

lemma settlement_groupsD:
  assumes "settlement_groups mp rows = Inr gs"
  shows "gs = filter (\<lambda>g. g_prov g \<ge> mp) (map (group_of rows) (remdups (map c_provider rows)))"
  using assms by (simp add: settlement_groups_def Let_def split: if_splits)

lemma g_provider_group_of [simp]: "g_provider (group_of rows pid) = pid"
  by (simp add: group_of_def Let_def)

lemma distinct_groups: "settlement_groups mp rows = Inr gs \<Longrightarrow> distinct (map g_provider gs)"
  by (drule settlement_groupsD) (simp add: distinct_map_filter comp_def)

lemma targets_eligible:
  assumes "distinct (map c_id (credits s))" "rows = filter E (credits s)"
  shows "targets (map c_id rows) pid s = filter (\<lambda>c. c_provider c = pid) rows"
proof -
  have "c_id c \<in> c_id ` set rows \<longleftrightarrow> E c" if "c \<in> set (credits s)" for c
    using assms that by (auto simp: distinct_map inj_on_def)
  then show ?thesis unfolding targets_def assms(2) filter_filter set_map by (intro filter_cong) auto
qed

lemma settlement_induct:
  assumes "ledger_inv s" "Q s" "settlement_body cadence mp start fin now s = Inr s'"
    and quarantine: "\<And>P r s s'. Q s \<Longrightarrow> update_credits P (quarantine_row r) s = Inr s' \<Longrightarrow> Q s'"
    and step: "\<And>ids g s s'. ledger_inv s \<Longrightarrow> Q s \<Longrightarrow> valid_group fin ids g s \<Longrightarrow>
      settle_group cadence mp start fin now ids g s = Inr s' \<Longrightarrow> Q s'"
  shows "ledger_inv s' \<and> Q s'"
proof -
  obtain s1 s2 gs rows where u1: "update_credits (\<lambda>c. c_ts c < fin \<and> \<not> c_settled c \<and> c_settlement c \<noteq> None \<and> \<not> c_quarantined c)
      (quarantine_row ''conflicting_settlement_id'') s = Inr s1"
    and u2: "update_credits (\<lambda>c. c_ts c < fin \<and> \<not> c_settled c \<and> c_settlement c = None \<and> \<not> c_quarantined c \<and> split_mismatch s1 c)
      (quarantine_row ''operator_split_mismatch'') s1 = Inr s2"
    and rows: "rows = filter (\<lambda>c. eligible now start fin c s2) (credits s2)"
    and gs: "settlement_groups mp rows = Inr gs"
    and f: "fold_err (settle_group cadence mp start fin now (map c_id rows)) gs s2 = Inr s'"
    using assms(3) by (auto simp: settlement_body_def bind_err_Inr Let_def)
  have i2: "ledger_inv s2" using inv_quarantine [OF inv_quarantine [OF assms(1) u1] u2] .
  have "targets (map c_id rows) pid s2 = filter (\<lambda>c. c_provider c = pid) rows" for pid
    using targets_eligible [OF _ rows] i2 by (simp add: ledger_inv_def core_def rows_ok_def)
  moreover have "\<forall>c \<in> set rows. c_settlement c = None \<and> c_ts c < fin" by (auto simp: rows eligible_def)
  ultimately have "\<forall>g \<in> set gs. valid_group fin (map c_id rows) g s2"
    by (auto simp: valid_group_def settlement_groupsD [OF gs] group_totals_of)
  from settle_groups_induct [where Q = Q, OF i2 quarantine [OF quarantine [OF assms(2) u1] u2] f distinct_groups [OF gs] this]
  show ?thesis using step by blast
qed

lemma inv_settlement_body: "ledger_inv s \<Longrightarrow> settlement_body cadence mp start fin now s = Inr s' \<Longrightarrow> ledger_inv s'"
  using settlement_induct [of s "\<lambda>_. True"] by blast

lemma inv_RunSettlement: "ledger_inv s \<Longrightarrow> ledger_inv (fst (RunSettlement ok cadence mp start fin now s))"
  unfolding RunSettlement_def by (rule Transact_keeps [where I = ledger_inv]) (auto simp: map_sum_unit dest: inv_settlement_body)



section \<open>Claims\<close>

lemma update_where_none: "(\<And>x. x \<in> set xs \<Longrightarrow> \<not> P x) \<Longrightarrow> update_where P f xs = xs"
  by (induction xs) (auto simp: update_where_def)

lemma filter_length_all: "length xs = length (filter P xs) \<Longrightarrow> filter P xs = xs"
  by (metis length_filter_less less_irrefl filter_True)

lemma group_match: "totals_match g p \<longleftrightarrow> totals p = group_totals g"
  by (auto simp: totals_match_def totals_def group_totals_def)

definition sources_ok :: "time \<Rightarrow> payout_ready \<Rightarrow> ledger \<Rightarrow> bool" where
  "sources_ok now p s \<longleftrightarrow> linked (po_id p) s \<noteq> [] \<and> (\<forall>c \<in> set (linked (po_id p) s). source_ok now p s c)"

lemma claim_totals_match:
  assumes "ledger_inv s" "p \<in> set (payouts s)" "ok = filter (source_ok now p s) (linked (po_id p) s)"
    "length (linked (po_id p) s) = length ok"
  shows "totals_match (group_of ok (po_provider p)) p"
proof -
  have ok: "ok = linked (po_id p) s" using filter_length_all [of "linked (po_id p) s"] assms(3,4) by simp
  have "filter (\<lambda>c. c_provider c = po_provider p) ok = ok"
    by (rule filter_True) (use assms(3) in \<open>auto simp: source_ok_def\<close>)
  then show ?thesis using assms(1,2) ok by (auto simp: group_match group_totals_of ledger_inv_def core_def totals_ok_def)
qed

text \<open>In a state that satisfies the invariant a claim has four outcomes. The recomputation of the totals
  is never needed, and no source has to be detached.\<close>

lemma claim_cases:
  assumes inv: "ledger_inv s" and c: "claim_body now pid expected ext cur s = Inr (s', b)"
  obtains (missing) "\<not> b" "s' = s" "\<forall>p \<in> set (payouts s). po_id p \<noteq> pid"
  | (claimed) p where "b" "p \<in> set (payouts s)" "po_id p = pid" "po_status p = Ready" "po_gross p = expected" "sources_ok now p s"
      "s' = claim_audit p ''complete'' (update_ready pid (consume ext cur) s)"
  | (refused) p where "\<not> b" "p \<in> set (payouts s)" "po_id p = pid" "po_status p \<noteq> Ready \<or> po_gross p \<noteq> expected"
      "s' = claim_audit p ''failed'' s"
  | (voided) p where "\<not> b" "p \<in> set (payouts s)" "po_id p = pid" "po_status p = Ready" "\<not> sources_ok now p s"
      "s' = claim_audit p ''failed'' (update_ready pid (\<lambda>q. q\<lparr>po_status := Voided\<rparr>) s)"
proof (cases "find (\<lambda>p. po_id p = pid) (payouts s)")
  case None
  then have "\<forall>p \<in> set (payouts s). po_id p \<noteq> pid" by (simp add: find_None_iff)
  then show ?thesis using c None missing by (simp add: claim_body_def)
next
  case (Some p)
  have p: "p \<in> set (payouts s)" "po_id p = pid" using find_key [OF Some] by auto
  define ok where "ok = filter (source_ok now p s) (linked pid s)"
  show ?thesis
  proof (cases "po_status p = Ready")
    case False
    then show ?thesis using c Some refused [OF _ p] by (auto simp: claim_body_def claim_update_def Let_def)
  next
    case True
    note body = c [unfolded claim_body_def Some option.case Let_def, folded linked_def, folded ok_def]
    have all: "linked pid s \<noteq> [] \<and> length (linked pid s) = length ok \<longleftrightarrow> sources_ok now p s"
      using filter_length_all [of "linked pid s" "source_ok now p s"] p(2) by (auto simp: ok_def sources_ok_def filter_id_conv)
    show ?thesis
    proof (cases "sources_ok now p s")
      case valid: True
      then have m: "totals_match (group_of ok (po_provider p)) p"
        using claim_totals_match [OF inv p(1)] all p(2) by (simp add: ok_def)
      have "claim_update p expected ext cur s = (s', b)" using body True valid all m by (simp split: if_splits)
      then show ?thesis using claimed [OF _ p True _ valid] refused [OF _ p] True p(2)
        by (auto simp: claim_update_def Let_def split: if_splits)
    next
      case False
      have "\<not> (c_settlement x = Some pid \<and> \<not> source_ok now p s x \<and> \<not> c_settled x)" if "x \<in> set (credits s)" for x
        using inv that by (auto simp: ledger_inv_def core_def links_ok_def link_ok_def)
      then have "update_credits (\<lambda>c. c_settlement c = Some pid \<and> \<not> source_ok now p s c \<and> \<not> c_settled c)
          (\<lambda>c. c\<lparr>c_settled := False, c_settlement := None\<rparr>) s = Inr s"
        by (auto simp: update_credits_def update_where_none)
      then show ?thesis using body True False all voided [OF _ p True False] by (simp split: if_splits)
    qed
  qed
qed

lemma inv_update_ready:
  assumes "ledger_inv s" "\<And>p. po_id (f p) = po_id p \<and> payout_key (f p) = payout_key p \<and> totals (f p) = totals p \<and> (payout_check p \<longrightarrow> payout_check (f p))"
  shows "ledger_inv (update_ready pid f s)"
proof -
  have keep: "po_id (f p) = po_id p" "payout_key (f p) = payout_key p" "totals (f p) = totals p" "payout_check p \<Longrightarrow> payout_check (f p)"
    "po_provider (f p) = po_provider p" "po_end (f p) = po_end p" for p
    using assms(2) [of p] by (auto simp: payout_key_def)
  have parts: "rows_ok s" "payouts_ok s" "links_ok s" "totals_ok s" using assms(1) by (simp_all add: ledger_inv_def core_def)
  have "links_ok (update_ready pid f s)"
    by (rule links_ok_payouts [OF parts(3), where f = f]) (simp_all add: update_ready_def keep)
  moreover have "payouts_ok (update_ready pid f s)" "totals_ok (update_ready pid f s)" "rows_ok (update_ready pid f s)"
    using parts by (auto simp: update_ready_def payouts_ok_def totals_ok_def rows_ok_def set_update_where keep)
  ultimately show ?thesis using assms(1)
    by (simp add: ledger_inv_def core_def operators_ok_def split_ok_def resolutions_ok_def) (simp add: update_ready_def)
qed

lemma status_keeps:
  "po_id (consume ext cur p) = po_id p \<and> payout_key (consume ext cur p) = payout_key p \<and> totals (consume ext cur p) = totals p
     \<and> (payout_check p \<longrightarrow> payout_check (consume ext cur p))"
  "po_id (p\<lparr>po_status := st\<rparr>) = po_id p \<and> payout_key (p\<lparr>po_status := st\<rparr>) = payout_key p \<and> totals (p\<lparr>po_status := st\<rparr>) = totals p
     \<and> (payout_check p \<longrightarrow> payout_check (p\<lparr>po_status := st\<rparr>))"
  by (simp_all add: consume_def payout_key_def totals_def payout_check_def)

lemma inv_claim_audit [simp]: "ledger_inv (claim_audit p st s) = ledger_inv s"
  by (simp add: claim_audit_def)

lemma inv_claim_body:
  assumes "ledger_inv s" "claim_body now pid expected ext cur s = Inr (s', b)"
  shows "ledger_inv s'"
  using assms
proof (cases rule: claim_cases)
  case (claimed p)
  then show ?thesis using inv_update_ready [OF assms(1), of "consume ext cur"] status_keeps(1) by simp
next
  case (voided p)
  then show ?thesis using inv_update_ready [OF assms(1), of "\<lambda>q. q\<lparr>po_status := Voided\<rparr>"] status_keeps(2) by simp
qed (use assms(1) in simp_all)

lemma inv_ClaimPayoutReady: "ledger_inv s \<Longrightarrow> ledger_inv (fst (ClaimPayoutReady ok now pid expected ext cur s))"
  unfolding ClaimPayoutReady_def by (rule Transact_keeps [where I = ledger_inv]) (auto dest: inv_claim_body)


section \<open>Resolutions\<close>

lemma fold_later_in: "fold later rs r \<in> insert r (set rs)"
proof (induction rs arbitrary: r)
  case (Cons a rs)
  have "later a r = a \<or> later a r = r" by (simp add: later_def)
  then show ?case using Cons.IH [of "later a r"] by auto
qed simp

lemma latest_resolution_in: "latest_resolution cid s = Some r \<Longrightarrow> r \<in> set (resolutions_of cid s)"
  using fold_later_in by (fastforce simp: latest_resolution_def split: list.splits)

lemma latest_resolution_None: "latest_resolution cid s = None \<longleftrightarrow> resolutions_of cid s = []"
  by (simp add: latest_resolution_def split: list.splits)

lemma forceResolution_cases:
  obtains (unchanged) "fst (forceResolution ok kind op reason now hold cid s) = s"
    "snd (forceResolution ok kind op reason now hold cid s) \<noteq> ResolutionOK"
  | (added) "fst (forceResolution ok kind op reason now hold cid s) =
      s\<lparr>resolutions := resolutions s @ [resolution_row kind op reason now hold cid s], next_resolution := next_resolution s + 1\<rparr>"
    "snd (forceResolution ok kind op reason now hold cid s) = ResolutionOK"
    "\<exists>c \<in> set (credits s). c_id c = cid \<and> c_quarantined c"
    "resolutions_of cid s = [] \<or> (\<exists>r. resolutions_of cid s = [r] \<and> qr_kind r \<noteq> kind \<and> now < qr_deadline r)"
proof (cases "find (\<lambda>c. c_id c = cid) (credits s)")
  case None
  then show ?thesis by (intro unchanged) (simp_all add: forceResolution_def)
next
  case (Some c)
  note c = find_key [OF Some]
  show ?thesis
  proof (cases "c_quarantined c \<and> ok")
    case False
    then show ?thesis using Some
      by (intro unchanged) (auto simp: forceResolution_def Let_def split: option.splits if_splits)
  next
    case True
    show ?thesis
    proof (cases "latest_resolution cid s")
      case None
      then have "resolutions_of cid s = []" by (simp add: latest_resolution_None)
      then show ?thesis using Some None True c by (intro added) (auto simp: forceResolution_def Let_def)
    next
      case (Some r)
      note lr = Some latest_resolution_in [OF Some]
      show ?thesis
      proof (cases "qr_kind r = kind \<or> length (resolutions_of cid s) \<ge> 2 \<or> \<not> now < qr_deadline r")
        case True
        then show ?thesis using \<open>find _ _ = Some c\<close> lr(1) by (intro unchanged) (auto simp: forceResolution_def Let_def)
      next
        case False
        then have "resolutions_of cid s = [r]" using lr(2) by (cases "resolutions_of cid s"; cases "tl (resolutions_of cid s)") auto
        then show ?thesis using \<open>find _ _ = Some c\<close> lr(1) True False c by (intro added) (auto simp: forceResolution_def Let_def)
      qed
    qed
  qed
qed

lemma inv_forceResolution: "ledger_inv s \<Longrightarrow> ledger_inv (fst (forceResolution ok kind op reason now hold cid s))"
proof (cases rule: forceResolution_cases [of ok kind op reason now hold cid s])
  case added
  assume s: "ledger_inv s"
  have r: "qr_credit (resolution_row kind op reason now hold cid s) = cid" "qr_kind (resolution_row kind op reason now hold cid s) = kind"
    by (simp_all add: resolution_row_def Let_def)
  define s' where "s' = fst (forceResolution ok kind op reason now hold cid s)"
  have "resolutions_of i s' = (if i = cid then resolutions_of cid s @ [resolution_row kind op reason now hold cid s] else resolutions_of i s)" for i
    by (auto simp: s'_def added(1) resolutions_of_def r)
  then have "resolutions_ok s'" using s added(4) by (auto simp: resolutions_ok_def ledger_inv_def r)
  then show ?thesis using s by (simp add: s'_def added(1) ledger_inv_def operators_ok_def split_ok_def)
qed simp

end
