(* ===== verification/Ledger_Contracts.thy ===== *)
theory Ledger_Contracts
  imports Ledger_Money
begin

text \<open>
  The ledger as a machine whose steps are the operations of the billing package, and the contracts of its
  money path.
\<close>

section \<open>Histories\<close>

text \<open>\<open>OpEvidence\<close> stands for the writers of the three evidence tables (route snapshots, receipt verdicts and
  attempt outputs), which are not part of the model: they may change these tables in any way. \<open>OpSync\<close> is the
  rewrite of a credit when its receipt is stored.\<close>

datatype ledger_op =
    OpHotPath bool time "string option" request_log_row HotPathInput
  | OpRequestLog bool "string option" request_log_row HotPathInput
  | OpSync bool string int string
  | OpRecover bool bool string time time
  | OpSettle bool int int time time time
  | OpClaim bool time int int string string
  | OpResolve bool ResolutionKind string string time int int
  | OpEvidence "route_snapshot list" "receipt_verdict list" "attempt_output list"
  | OpSnapshot config_snapshot

fun exec_ledger :: "(string \<Rightarrow> string) \<Rightarrow> ledger_op \<Rightarrow> ledger \<Rightarrow> ledger" where
  "exec_ledger sha (OpHotPath ok now account r i) s = fst (writeHotPath sha ok now account r i s)"
| "exec_ledger sha (OpRequestLog ok account r i) s = fst (writeRequestLogWithIdentity ok account r i s)"
| "exec_ledger sha (OpSync ok q a p) s = fst (Transact ok (syncVerifiedReceiptLedgerCreditForAttemptTx q a p) s)"
| "exec_ledger sha (OpRecover ok rec src a b) s = fst (RecoverLedger sha ok rec src a b s)"
| "exec_ledger sha (OpSettle ok cadence mp start fin now) s = fst (RunSettlement ok cadence mp start fin now s)"
| "exec_ledger sha (OpClaim ok now pid expected ext cur) s = fst (ClaimPayoutReady ok now pid expected ext cur s)"
| "exec_ledger sha (OpResolve ok kind op reason now hold cid) s = fst (forceResolution ok kind op reason now hold cid s)"
| "exec_ledger sha (OpEvidence a b c) s = s\<lparr>routes := a, verdicts := b, outputs := c\<rparr>"
| "exec_ledger sha (OpSnapshot x) s = s\<lparr>snapshots := snapshots s @ [x]\<rparr>"

interpretation ledger: op_system "exec_ledger sha" "\<lambda>_ _. True" ledger_inv for sha
proof
  fix s x assume s: "ledger_inv s"
  show "ledger_inv (exec_ledger sha x s)"
  proof (cases x)
    case (OpSync ok q a p)
    have "ledger_inv (fst (Transact ok (syncVerifiedReceiptLedgerCreditForAttemptTx q a p) s))"
      by (rule Transact_keeps [where I = ledger_inv, OF s]) (rule inv_sync [OF s])
    then show ?thesis using OpSync by simp
  qed (use s in \<open>simp_all add: inv.write_hot_path inv.write_request_log inv.recover inv_RunSettlement inv_ClaimPayoutReady inv_forceResolution\<close>)
qed

lemma inv_empty: "ledger_inv empty_ledger"
  by (simp add: ledger_inv_def inv_parts empty_ledger_def resolutions_of_def)

lemma legal_all [simp]: "legal_run f (\<lambda>_ _. True) xs s"
  by (induction xs arbitrary: s) simp_all

abbreviation ledger_after :: "(string \<Rightarrow> string) \<Rightarrow> ledger_op list \<Rightarrow> ledger" where
  "ledger_after sha ops \<equiv> fold (exec_ledger sha) ops empty_ledger"

lemma inv_after: "ledger_inv (ledger_after sha ops)"
  using ledger.run_inv [OF inv_empty, of sha ops] by simp


section \<open>What no operation undoes\<close>

definition same_credit :: "request_credit \<Rightarrow> request_credit \<Rightarrow> bool" where
  "same_credit c c' \<longleftrightarrow> c_id c' = c_id c \<and> credit_key c' = credit_key c \<and> c_settled c' \<and> c_settlement c' = c_settlement c
     \<and> c_gross c' = c_gross c \<and> c_prov c' = c_prov c"

definition frozen :: "ledger \<Rightarrow> ledger \<Rightarrow> bool" where
  "frozen s0 s \<longleftrightarrow> (\<forall>p \<in> set (payouts s0). po_status p \<noteq> Ready \<longrightarrow> p \<in> set (payouts s))
     \<and> (\<forall>c \<in> set (credits s0). c_settled c \<longrightarrow> (\<exists>c' \<in> set (credits s). same_credit c c'))"

lemma frozen_refl: "frozen s s"
  by (auto simp: frozen_def same_credit_def)

lemma frozen_cong [simp]:
  "frozen s0 (s\<lparr>request_log := a\<rparr>) = frozen s0 s" "frozen s0 (s\<lparr>operators := b\<rparr>) = frozen s0 s"
  "frozen s0 (s\<lparr>resolutions := d\<rparr>) = frozen s0 s" "frozen s0 (s\<lparr>identities := e\<rparr>) = frozen s0 s"
  "frozen s0 (s\<lparr>verdicts := f\<rparr>) = frozen s0 s" "frozen s0 (s\<lparr>runs := g\<rparr>) = frozen s0 s"
  "frozen s0 (s\<lparr>next_log := h\<rparr>) = frozen s0 s" "frozen s0 (s\<lparr>next_credit := j\<rparr>) = frozen s0 s"
  "frozen s0 (s\<lparr>next_resolution := l\<rparr>) = frozen s0 s" "frozen s0 (s\<lparr>routes := m\<rparr>) = frozen s0 s"
  "frozen s0 (s\<lparr>outputs := n\<rparr>) = frozen s0 s" "frozen s0 (s\<lparr>snapshots := q\<rparr>) = frozen s0 s"
  by (simp_all add: frozen_def)

lemma frozen_update:
  assumes "frozen s0 s" "update_credits P f s = Inr s'" "\<And>c. c_id (f c) = c_id c \<and> credit_key (f c) = credit_key c"
  shows "frozen s0 s'"
proof -
  note s' = update_creditsD(1) [OF assms(2)]
  have "\<exists>x \<in> set (credits s'). same_credit c x" if c: "c \<in> set (credits s0)" "c_settled c" for c
  proof -
    obtain x where x: "x \<in> set (credits s)" "same_credit c x" using assms(1) c by (auto simp: frozen_def)
    have "same_credit c (if P x then f x else x)"
      using x(2) update_creditsD(2) [OF assms(2) x(1)] assms(3) [of x] by (auto simp: same_credit_def settled_guard_def money_of_def)
    then show ?thesis using x(1) by (intro bexI [of _ "if P x then f x else x"]) (auto simp: s' set_update_where)
  qed
  then show ?thesis using assms(1) by (simp add: frozen_def s')
qed

lemma frozen_insert: "frozen s0 s \<Longrightarrow> insert_credit c s = Inr (s', n) \<Longrightarrow> frozen s0 s'"
  by (auto simp: frozen_def dest: insert_creditD(1))

lemma frozen_sync:
  assumes "frozen s0 s" "syncVerifiedReceiptLedgerCreditForAttemptTx q a p s = Inr (s', r)"
  shows "frozen s0 s'"
  using assms(2)
proof (cases rule: sync_cases)
  case none
  then show ?thesis using assms(1) by simp
next
  case (quarantined c reason)
  then show ?thesis
    using frozen_update [OF assms(1), of "\<lambda>x. c_id x = c_id c" "\<lambda>c. c\<lparr>c_quarantined := True, c_reason := Some reason, c_gross := 0, c_prov := 0\<rparr>"]
    by (auto simp: quarantine_receipt_def markVerifiedReceiptCacheQuarantinedTx_def markSettlementReceiptCacheQuarantinedTx_def
        bind_err_Inr credit_key_def)
next
  case (rewritten c b)
  then show ?thesis
    using frozen_update [OF assms(1), of "\<lambda>x. c_id x = c_id c" "\<lambda>x. x\<lparr>c_prompt := br_PromptTokens b,
      c_completion := br_CompletionTokens b, c_estimated := None, c_usage := br_UsageSource b, c_gross := GrossCredits b,
      c_prov := ProviderCredits b, c_fault := br_FaultFlag b\<rparr>"]
    by (auto simp: rewrite_credit_def bind_err_Inr credit_key_def split: if_splits)
qed

lemma frozen_quarantine: "frozen s0 s \<Longrightarrow> update_credits P (quarantine_row reason) s = Inr s' \<Longrightarrow> frozen s0 s'"
  by (erule frozen_update [where f = "quarantine_row reason"]) (auto simp: quarantine_row_def credit_key_def)

lemma frozen_credit:
  "frozen s0 s \<Longrightarrow> insert_credit c s = Inr (s1, n) \<Longrightarrow> insertOperatorCreditTx n b s1 = Inr s2 \<Longrightarrow> frozen s0 s2"
  by (auto simp: insertOperatorCreditTx_def Let_def dest: frozen_insert split: if_splits)

lemma frozen_identity: "frozen s0 s \<Longrightarrow> insertProviderIdentitySnapshotTx i s = Inr s' \<Longrightarrow> frozen s0 s'"
  by (auto simp: insertProviderIdentitySnapshotTx_def Let_def split: if_splits)

interpretation frame: ledger_writer "frozen s0" for s0
  by unfold_locales (auto simp: InsertExec_def Let_def intro: frozen_identity frozen_quarantine frozen_insert frozen_credit frozen_sync)


lemma frozen_settle_group:
  assumes "ledger_inv s" "frozen s0 s" "settle_group cadence mp start fin now ids g s = Inr s'"
  shows "frozen s0 s'"
proof (cases "find (\<lambda>p. payout_key p = (g_provider g, start, fin)) (payouts s)")
  case None
  define p where "p = new_payout cadence mp start fin now g (next_payout s)"
  have link: "link_credits ids (g_provider g) (next_payout s) (s\<lparr>payouts := payouts s @ [p], next_payout := next_payout s + 1\<rparr>) = Inr s'"
    using assms(3) None by (auto simp: settle_group_def p_def Let_def split: if_splits)
  have "frozen s0 (s\<lparr>payouts := payouts s @ [p], next_payout := next_payout s + 1\<rparr>)" using assms(2) by (auto simp: frozen_def)
  from frozen_update [OF this link [unfolded link_credits_def]] show ?thesis by (simp add: credit_key_def)
next
  case (Some p)
  show ?thesis
  proof (cases "po_status p = Ready")
    case True
    define s1 where "s1 = s\<lparr>payouts := update_where (\<lambda>q. payout_key q = payout_key p) (add_group g) (payouts s)\<rparr>"
    have link: "link_credits ids (g_provider g) (po_id p) s1 = Inr s'"
      using assms(3) Some True by (auto simp: settle_group_def s1_def split: if_splits)
    have "q = p" if "q \<in> set (payouts s)" "payout_key q = payout_key p" for q
      using assms(1) that find_key(1) [OF Some] by (auto simp: ledger_inv_def core_def payouts_ok_def distinct_map inj_on_def)
    then have "frozen s0 s1" using assms(2) True by (fastforce simp: frozen_def s1_def set_update_where image_iff)
    from frozen_update [OF this link [unfolded link_credits_def]] show ?thesis by (simp add: credit_key_def)
  next
    case False
    then show ?thesis using assms(2,3) Some by (simp add: settle_group_def)
  qed
qed

lemma frozen_RunSettlement:
  assumes "ledger_inv s" "frozen s0 s"
  shows "frozen s0 (fst (RunSettlement ok cadence mp start fin now s))"
  unfolding RunSettlement_def
proof (rule Transact_keeps [where I = "frozen s0", OF assms(2)])
  fix s' r assume "map_sum id (\<lambda>s. (s, ())) (settlement_body cadence mp start fin now s) = Inr (s', r)"
  then have "settlement_body cadence mp start fin now s = Inr s'" by (simp only: map_sum_unit)
  then have "ledger_inv s' \<and> frozen s0 s'"
    by (rule settlement_induct [where Q = "frozen s0", OF assms]) (rule frozen_quarantine frozen_settle_group; assumption)+
  then show "frozen s0 s'" by simp
qed

lemma frozen_update_ready: "frozen s0 s \<Longrightarrow> frozen s0 (update_ready pid f s)"
  unfolding frozen_def update_ready_def set_update_where
  by (auto simp: set_update_where image_iff intro!: bexI)

lemma frozen_ClaimPayoutReady:
  assumes "ledger_inv s" "frozen s0 s"
  shows "frozen s0 (fst (ClaimPayoutReady ok now pid expected ext cur s))"
  unfolding ClaimPayoutReady_def
proof (rule Transact_keeps [where I = "frozen s0", OF assms(2)])
  fix s' b assume "claim_body now pid expected ext cur s = Inr (s', b)"
  with assms(1) show "frozen s0 s'"
    by (cases rule: claim_cases) (use assms(2) frozen_update_ready in \<open>simp_all add: claim_audit_def\<close>)
qed

lemma frozen_step:
  assumes "ledger_inv s" "frozen s0 s"
  shows "frozen s0 (exec_ledger sha x s)"
proof (cases x)
  case (OpSync ok q a p)
  have "frozen s0 (fst (Transact ok (syncVerifiedReceiptLedgerCreditForAttemptTx q a p) s))"
    by (rule Transact_keeps [where I = "frozen s0", OF assms(2)]) (rule frozen_sync [OF assms(2)])
  then show ?thesis using OpSync by simp
next
  case (OpResolve ok kind op reason now hold cid)
  then show ?thesis using assms(2) by (cases rule: forceResolution_cases [of ok kind op reason now hold cid s]) simp_all
qed (use assms in \<open>simp_all add: frame.write_hot_path frame.write_request_log frame.recover frozen_RunSettlement frozen_ClaimPayoutReady\<close>)

lemma frozen_run: "ledger_inv s \<Longrightarrow> frozen s (fold (exec_ledger sha) ys s)"
  by (rule ledger.run_preserves) (auto intro: frozen_refl frozen_step)

end
