(* ===== verification/Ledger_Progress.thy ===== *)
theory Ledger_Progress
  imports Ledger_Contracts
begin

text \<open>
  What a settlement achieves: on a ledger that satisfies the invariant it does not fail, and it settles exactly
  the eligible credits of the providers whose total reaches the minimum and whose payout for the period is not
  closed.
\<close>

section \<open>One group\<close>

definition blocked :: "time \<Rightarrow> time \<Rightarrow> string \<Rightarrow> ledger \<Rightarrow> bool" where
  "blocked start fin pid s \<longleftrightarrow> (\<exists>p \<in> set (payouts s). payout_key p = (pid, start, fin) \<and> po_status p \<noteq> Ready)"

lemma blocked_cong:
  assumes "map (\<lambda>p. (payout_key p, po_status p)) (payouts s') = map (\<lambda>p. (payout_key p, po_status p)) (payouts s)"
  shows "blocked start fin pid s' = blocked start fin pid s"
proof -
  have "blocked start fin pid t \<longleftrightarrow> (\<exists>x \<in> set (map (\<lambda>p. (payout_key p, po_status p)) (payouts t)). fst x = (pid, start, fin) \<and> snd x \<noteq> Ready)"
    for t by (simp add: blocked_def)
  then show ?thesis by (simp only: assms)
qed

lemma sums_nonneg:
  assumes "ledger_inv s" "set cs \<subseteq> set (credits s)" "sums_of cs = (n, a, b, d)"
  shows "0 \<le> a" "0 \<le> b" "0 \<le> d"
proof -
  have c: "0 \<le> c_gross c \<and> 0 \<le> c_prov c \<and> c_prov c \<le> c_gross c" if "c \<in> set cs" for c
    using assms(1,2) that by (auto simp: ledger_inv_def core_def rows_ok_def credit_check_def split_ok_def)
  have e: "a = sum_list (map c_gross cs)" "b = sum_list (map c_prov cs)" "d = sum_list (map (\<lambda>c. c_gross c - c_prov c) cs)"
    using assms(3) by (simp_all add: sums_of_def)
  show "0 \<le> a" "0 \<le> b" "0 \<le> d" unfolding e by (rule sum_list_nonneg; use c in auto)+
qed

lemma targets_subset: "set (targets ids pid s) \<subseteq> set (credits s)"
  by (auto simp: targets_def)

lemma group_amounts:
  assumes "ledger_inv s" "valid_group fin ids g s" "targets ids (g_provider g) s \<noteq> []"
  shows "0 < g_count g" "0 \<le> g_gross g" "0 \<le> g_prov g" "0 \<le> g_oper g"
proof -
  have t: "(g_count g, g_gross g, g_prov g, g_oper g) = sums_of (targets ids (g_provider g) s)"
    using assms(2) by (simp add: valid_group_def group_totals_def)
  show "0 < g_count g" using t assms(3) by (simp add: sums_of_def)
  show "0 \<le> g_gross g" "0 \<le> g_prov g" "0 \<le> g_oper g"
    using sums_nonneg [OF assms(1) targets_subset t [symmetric]] by auto
qed

lemma link_succeeds:
  assumes "\<forall>c \<in> set (targets ids pid s). \<not> c_settled c \<and> credit_check c"
  shows "link_credits ids pid i s = Inr (s\<lparr>credits := update_where (\<lambda>c. c_provider c = pid \<and> c_id c \<in> set ids) (link_to i) (credits s)\<rparr>)"
proof -
  have "settled_guard c (link_to i c)" "credit_check (link_to i c)" if "c \<in> set (credits s)" "c_provider c = pid \<and> c_id c \<in> set ids" for c
    using assms that by (auto simp: settled_guard_def money_of_def link_to_def targets_def credit_check_def)
  then have "update_credits (\<lambda>c. c_provider c = pid \<and> c_id c \<in> set ids) (link_to i) s =
      Inr (s\<lparr>credits := update_where (\<lambda>c. c_provider c = pid \<and> c_id c \<in> set ids) (link_to i) (credits s)\<rparr>)"
    by (auto simp: update_credits_def)
  then show ?thesis by (simp add: link_credits_def link_to_def [abs_def])
qed

lemma valid_targets:
  assumes "ledger_inv s" "valid_group fin ids g s"
  shows "\<forall>c \<in> set (targets ids (g_provider g) s). \<not> c_settled c \<and> credit_check c"
  using assms by (auto simp: valid_group_def targets_def ledger_inv_def core_def rows_ok_def links_ok_def link_ok_def)

text \<open>The link and the payouts after one group.\<close>

lemma settle_group_result:
  assumes "ledger_inv s" "valid_group fin ids g s" "targets ids (g_provider g) s \<noteq> []" "0 < cadence" "0 \<le> mp"
  obtains (closed) "blocked start fin (g_provider g) s" "settle_group cadence mp start fin now ids g s = Inr s"
  | (linked) i ps n where "\<not> blocked start fin (g_provider g) s"
    "settle_group cadence mp start fin now ids g s = Inr (s\<lparr>payouts := ps, next_payout := n,
       credits := update_where (\<lambda>c. c_provider c = g_provider g \<and> c_id c \<in> set ids) (link_to i) (credits s)\<rparr>)"
    "\<And>pid. blocked start fin pid (s\<lparr>payouts := ps\<rparr>) = blocked start fin pid s"
proof (cases "find (\<lambda>p. payout_key p = (g_provider g, start, fin)) (payouts s)")
  case None
  define p where "p = new_payout cadence mp start fin now g (next_payout s)"
  have "payout_check p" using group_amounts [OF assms(1-3)] assms(4,5) by (simp add: payout_check_def p_def new_payout_def)
  moreover have "\<forall>c \<in> set (targets ids (g_provider g) (s\<lparr>payouts := payouts s @ [p], next_payout := next_payout s + 1\<rparr>)).
      \<not> c_settled c \<and> credit_check c"
    using valid_targets [OF assms(1,2)] by (simp add: targets_def)
  ultimately have "settle_group cadence mp start fin now ids g s = Inr (s\<lparr>payouts := payouts s @ [p], next_payout := next_payout s + 1,
       credits := update_where (\<lambda>c. c_provider c = g_provider g \<and> c_id c \<in> set ids) (link_to (next_payout s)) (credits s)\<rparr>)"
    using None link_succeeds [of ids "g_provider g" "s\<lparr>payouts := payouts s @ [p], next_payout := next_payout s + 1\<rparr>" "next_payout s"]
    by (simp add: settle_group_def Let_def p_def)
  moreover have "\<not> blocked start fin (g_provider g) s" using None by (auto simp: blocked_def find_None_iff)
  moreover have "blocked start fin pid (s\<lparr>payouts := payouts s @ [p]\<rparr>) = blocked start fin pid s" for pid
    by (auto simp: blocked_def p_def new_payout_def)
  ultimately show ?thesis by (intro linked)
next
  case (Some p)
  have u: "q = p" if "q \<in> set (payouts s)" "payout_key q = payout_key p" for q
    using assms(1) that find_key(1) [OF Some] by (auto simp: ledger_inv_def core_def payouts_ok_def distinct_map inj_on_def)
  have b: "blocked start fin (g_provider g) s \<longleftrightarrow> po_status p \<noteq> Ready"
    unfolding blocked_def find_key(2) [OF Some, symmetric] using u find_key(1) [OF Some] by blast
  show ?thesis
  proof (cases "po_status p = Ready")
    case True
    define ps where "ps = update_where (\<lambda>q. payout_key q = payout_key p) (add_group g) (payouts s)"
    have "payout_check p" using assms(1) find_key(1) [OF Some] by (simp add: ledger_inv_def core_def payouts_ok_def)
    then have "payout_check (add_group g p)" using group_amounts [OF assms(1-3)] by (simp add: payout_check_def add_group_def)
    moreover have "\<forall>c \<in> set (targets ids (g_provider g) (s\<lparr>payouts := ps\<rparr>)). \<not> c_settled c \<and> credit_check c"
      using valid_targets [OF assms(1,2)] by (simp add: targets_def)
    ultimately have "settle_group cadence mp start fin now ids g s = Inr (s\<lparr>payouts := ps, next_payout := next_payout s,
       credits := update_where (\<lambda>c. c_provider c = g_provider g \<and> c_id c \<in> set ids) (link_to (po_id p)) (credits s)\<rparr>)"
      using Some True link_succeeds [of ids "g_provider g" "s\<lparr>payouts := ps\<rparr>" "po_id p"] by (simp add: settle_group_def ps_def)
    moreover have "blocked start fin pid (s\<lparr>payouts := ps\<rparr>) = blocked start fin pid s" for pid
      by (rule blocked_cong) (simp add: ps_def add_group_def payout_key_def)
    moreover have "\<not> blocked start fin (g_provider g) s" using b True by simp
    ultimately show ?thesis by (intro linked)
  next
    case False
    then have "settle_group cadence mp start fin now ids g s = Inr s" using Some by (simp add: settle_group_def)
    then show ?thesis using b False closed by blast
  qed
qed



section \<open>All groups\<close>

definition settled_flags :: "request_credit list \<Rightarrow> (int \<times> string \<times> bool) list" where
  "settled_flags = map (\<lambda>c. (c_id c, c_provider c, c_settled c))"

definition settle_flags :: "(int \<Rightarrow> string \<Rightarrow> bool) \<Rightarrow> (int \<times> string \<times> bool) list \<Rightarrow> (int \<times> string \<times> bool) list" where
  "settle_flags S = map (\<lambda>(i, pid, b). (i, pid, b \<or> S i pid))"

lemma settled_flags_link:
  "settled_flags (update_where (\<lambda>c. c_provider c = pid \<and> c_id c \<in> set ids) (link_to n) cs) =
   settle_flags (\<lambda>i q. q = pid \<and> i \<in> set ids) (settled_flags cs)"
  by (auto simp: settled_flags_def settle_flags_def update_where_def)

lemma settle_flags_comp: "settle_flags T (settle_flags S xs) = settle_flags (\<lambda>i q. S i q \<or> T i q) xs"
  by (auto simp: settle_flags_def)

lemma settle_flags_False: "(\<And>i q b. (i, q, b) \<in> set xs \<Longrightarrow> \<not> S i q) \<Longrightarrow> settle_flags S xs = xs"
  unfolding settle_flags_def by (rule map_idI) auto

lemma settle_groups_result:
  assumes "ledger_inv s" "distinct (map g_provider gs)" "0 < cadence" "0 \<le> mp"
    "\<forall>g \<in> set gs. valid_group fin ids g s \<and> targets ids (g_provider g) s \<noteq> []"
  shows "\<exists>s'. fold_err (settle_group cadence mp start fin now ids) gs s = Inr s' \<and>
    settled_flags (credits s') = settle_flags (\<lambda>i q. q \<in> g_provider ` set gs \<and> \<not> blocked start fin q s \<and> i \<in> set ids) (settled_flags (credits s))"
  using assms
proof (induction gs arbitrary: s)
  case Nil
  then show ?case by (simp add: settle_flags_def settled_flags_def)
next
  case (Cons g gs)
  have v: "valid_group fin ids g s" "targets ids (g_provider g) s \<noteq> []" using Cons.prems(5) by auto
  have fresh: "g_provider g \<notin> g_provider ` set gs" "distinct (map g_provider gs)" using Cons.prems(2) by auto
  have rest: "\<exists>s'. fold_err (settle_group cadence mp start fin now ids) gs s1 = Inr s' \<and>
      settled_flags (credits s') = settle_flags (\<lambda>i q. q \<in> g_provider ` set gs \<and> \<not> blocked start fin q s1 \<and> i \<in> set ids) (settled_flags (credits s1))"
    if g: "settle_group cadence mp start fin now ids g s = Inr s1" for s1
  proof (rule Cons.IH [OF valid_group_inv [OF Cons.prems(1) g v(1)] fresh(2) Cons.prems(3,4)], rule ballI)
    fix h assume h: "h \<in> set gs"
    have "g_provider h \<noteq> g_provider g" using fresh(1) imageI [OF h, of g_provider] by auto
    then show "valid_group fin ids h s1 \<and> targets ids (g_provider h) s1 \<noteq> []"
      using valid_group_step [OF g] targets_settle_group [OF g] Cons.prems(5) h by simp
  qed
  show ?case
  proof (rule settle_group_result [OF Cons.prems(1) v Cons.prems(3,4), of start now])
    assume "blocked start fin (g_provider g) s" and g: "settle_group cadence mp start fin now ids g s = Inr s"
    then have "(\<lambda>i q. q \<in> g_provider ` set gs \<and> \<not> blocked start fin q s \<and> i \<in> set ids) =
      (\<lambda>i q. q \<in> g_provider ` set (g # gs) \<and> \<not> blocked start fin q s \<and> i \<in> set ids)" by (intro ext) auto
    with rest [OF g] g show ?case by simp
  next
    fix i ps n
    define s1 where "s1 = s\<lparr>payouts := ps, next_payout := n,
      credits := update_where (\<lambda>c. c_provider c = g_provider g \<and> c_id c \<in> set ids) (link_to i) (credits s)\<rparr>"
    assume nb: "\<not> blocked start fin (g_provider g) s"
      and g: "settle_group cadence mp start fin now ids g s = Inr (s\<lparr>payouts := ps, next_payout := n,
        credits := update_where (\<lambda>c. c_provider c = g_provider g \<and> c_id c \<in> set ids) (link_to i) (credits s)\<rparr>)"
      and b: "\<And>pid. blocked start fin pid (s\<lparr>payouts := ps\<rparr>) = blocked start fin pid s"
    have b1: "blocked start fin q s1 = blocked start fin q s" for q using b [of q] by (simp add: s1_def blocked_def)
    have S: "(\<lambda>i q. (q = g_provider g \<and> i \<in> set ids) \<or> (q \<in> g_provider ` set gs \<and> \<not> blocked start fin q s \<and> i \<in> set ids)) =
      (\<lambda>i q. q \<in> g_provider ` set (g # gs) \<and> \<not> blocked start fin q s \<and> i \<in> set ids)" using nb by (intro ext) auto
    have c1: "settled_flags (credits s1) = settle_flags (\<lambda>i q. q = g_provider g \<and> i \<in> set ids) (settled_flags (credits s))"
      by (simp add: s1_def settled_flags_link)
    from rest [OF g, folded s1_def] show ?case
      unfolding c1 settle_flags_comp b1 S by (simp add: g [folded s1_def])
  qed
qed



section \<open>A settlement run\<close>

text \<open>On such a ledger the two quarantine statements of a settlement select no row.\<close>

lemma update_none: "(\<And>c. c \<in> set (credits s) \<Longrightarrow> \<not> P c) \<Longrightarrow> update_credits P f s = Inr s"
  unfolding update_credits_def by (subst update_where_none) auto

definition eligible_rows :: "time \<Rightarrow> time \<Rightarrow> time \<Rightarrow> ledger \<Rightarrow> request_credit list" where
  "eligible_rows now start fin s = filter (\<lambda>c. eligible now start fin c s) (credits s)"

lemma settlement_body_inv:
  assumes "ledger_inv s"
  shows "settlement_body cadence mp start fin now s = bind_err (settlement_groups mp (eligible_rows now start fin s))
    (\<lambda>gs. fold_err (settle_group cadence mp start fin now (map c_id (eligible_rows now start fin s))) gs s)"
proof -
  have "update_credits (\<lambda>c. c_ts c < fin \<and> \<not> c_settled c \<and> c_settlement c \<noteq> None \<and> \<not> c_quarantined c) f s = Inr s" for f
    using assms by (intro update_none) (auto simp: ledger_inv_def core_def links_ok_def link_ok_def)
  moreover have "update_credits (\<lambda>c. c_ts c < fin \<and> \<not> c_settled c \<and> c_settlement c = None \<and> \<not> c_quarantined c \<and> split_mismatch s c) f s = Inr s" for f
    using assms by (intro update_none) (auto simp: ledger_inv_def split_ok_def)
  ultimately show ?thesis by (simp add: settlement_body_def eligible_rows_def Let_def)
qed

definition due_provider :: "int \<Rightarrow> request_credit list \<Rightarrow> string \<Rightarrow> bool" where
  "due_provider mp rows pid \<longleftrightarrow> pid \<in> c_provider ` set rows \<and> mp \<le> sum_list (map c_prov (filter (\<lambda>c. c_provider c = pid) rows))"

lemma groups_result:
  assumes "ledger_inv s" "rows = eligible_rows now start fin s" "settlement_groups mp rows = Inr gs"
  shows "\<forall>g \<in> set gs. valid_group fin (map c_id rows) g s \<and> targets (map c_id rows) (g_provider g) s \<noteq> []"
    and "g_provider ` set gs = {pid. due_provider mp rows pid}"
proof -
  note gs = settlement_groupsD [OF assms(3)]
  have d: "distinct (map c_id (credits s))" using assms(1) by (simp add: ledger_inv_def core_def rows_ok_def)
  note t = targets_eligible [OF d assms(2) [unfolded eligible_rows_def]]
  show "\<forall>g \<in> set gs. valid_group fin (map c_id rows) g s \<and> targets (map c_id rows) (g_provider g) s \<noteq> []"
  proof
    fix g assume "g \<in> set gs"
    then obtain pid where g: "g = group_of rows pid" "pid \<in> c_provider ` set rows" unfolding gs by auto
    have "\<forall>c \<in> set rows. c_settlement c = None \<and> c_ts c < fin" by (auto simp: assms(2) eligible_rows_def eligible_def)
    then show "valid_group fin (map c_id rows) g s \<and> targets (map c_id rows) (g_provider g) s \<noteq> []"
      using g by (auto simp: valid_group_def t group_totals_of filter_empty_conv)
  qed
  show "g_provider ` set gs = {pid. due_provider mp rows pid}"
    unfolding gs by (force simp: due_provider_def group_of_def Let_def)
qed

lemma settlement_result:
  assumes "ledger_inv s" "0 < cadence" "0 \<le> mp" "rows = eligible_rows now start fin s"
    "\<forall>pid \<in> c_provider ` set rows. sums_fit (group_of rows pid)"
  shows "\<exists>s'. settlement_body cadence mp start fin now s = Inr s' \<and> settled_flags (credits s') =
    settle_flags (\<lambda>i q. due_provider mp rows q \<and> \<not> blocked start fin q s \<and> i \<in> set (map c_id rows)) (settled_flags (credits s))"
proof -
  obtain gs where gs: "settlement_groups mp rows = Inr gs"
    using assms(5) by (auto simp: settlement_groups_def Let_def list_all_iff)
  have "g_provider ` set gs = {pid. due_provider mp rows pid}" by (rule groups_result(2) [OF assms(1,4) gs])
  then have e: "q \<in> g_provider ` set gs \<longleftrightarrow> due_provider mp rows q" for q by simp
  show ?thesis
    using settle_groups_result [OF assms(1) distinct_groups [OF gs] assms(2,3) groups_result(1) [OF assms(1,4) gs], of start now]
    unfolding e by (simp add: settlement_body_inv [OF assms(1)] gs assms(4) [symmetric])
qed

end
