(* ===== verification/Ledger_Funds.thy ===== *)
theory Ledger_Funds
  imports Ledger_Contracts
begin

text \<open>
  The abstract view of the ledger: what each provider has earned and is not settled (\<open>fd_open\<close>), what is
  ready to be paid, what has been paid and what has been voided. The operations of the ledger refine four
  moves between these amounts.
\<close>

section \<open>Funds\<close>

record funds =
  fd_open :: int
  fd_ready :: int
  fd_paid :: int
  fd_void :: int

definition unsettled_of :: "string \<Rightarrow> ledger \<Rightarrow> request_credit list" where
  "unsettled_of pid s = filter (\<lambda>c. c_provider c = pid \<and> \<not> c_settled c) (credits s)"

definition due :: "string \<Rightarrow> PayoutStatus \<Rightarrow> payout_ready list \<Rightarrow> int" where
  "due pid st ps = sum_list (map po_prov (filter (\<lambda>p. po_provider p = pid \<and> po_status p = st) ps))"

definition funds_of :: "string \<Rightarrow> ledger \<Rightarrow> funds" where
  "funds_of pid s = \<lparr>fd_open = sum_list (map c_prov (unsettled_of pid s)), fd_ready = due pid Ready (payouts s),
     fd_paid = due pid Consumed (payouts s), fd_void = due pid Voided (payouts s)\<rparr>"

definition total :: "funds \<Rightarrow> int" where
  "total f = fd_open f + fd_ready f + fd_paid f + fd_void f"

text \<open>Which move an operation may make.\<close>

inductive money_step :: "ledger_op \<Rightarrow> funds \<Rightarrow> funds \<Rightarrow> bool" where
  idle: "money_step x f f"
| earn: "money_step (OpHotPath ok now account r i) f (f\<lparr>fd_open := v\<rparr>)" if "0 \<le> v"
| sync: "money_step (OpSync ok q a p) f (f\<lparr>fd_open := v\<rparr>)" if "0 \<le> v"
| recover: "money_step (OpRecover ok rec src a b) f (f\<lparr>fd_open := v\<rparr>)" if "0 \<le> v"
| settle: "money_step (OpSettle ok cadence mp start fin now) f (f\<lparr>fd_open := fd_open f - n, fd_ready := fd_ready f + n\<rparr>)"
    if "0 \<le> n" "n \<le> fd_open f"
| pay: "money_step (OpClaim ok now pid expected ext cur) f (f\<lparr>fd_ready := fd_ready f - n, fd_paid := fd_paid f + n\<rparr>)"
    if "0 \<le> n" "n \<le> fd_ready f"
| void: "money_step (OpClaim ok now pid expected ext cur) f (f\<lparr>fd_ready := fd_ready f - n, fd_void := fd_void f + n\<rparr>)"
    if "0 \<le> n" "n \<le> fd_ready f"


section \<open>Sums\<close>

lemma sum_list_split:
  fixes f :: "'a \<Rightarrow> int"
  shows "sum_list (map f xs) = sum_list (map f (filter P xs)) + sum_list (map f (filter (\<lambda>x. \<not> P x) xs))"
  by (induction xs) auto

lemma sum_list_mono_filter:
  fixes f :: "'a \<Rightarrow> int"
  assumes "\<And>x. x \<in> set xs \<Longrightarrow> 0 \<le> f x"
  shows "sum_list (map f (filter P xs)) \<le> sum_list (map f xs)"
  using assms by (induction xs) (auto simp: add_increasing)

lemma due_nonneg: "payouts_ok s \<Longrightarrow> 0 \<le> due pid st (payouts s)"
  unfolding due_def by (rule sum_list_nonneg) (auto simp: payouts_ok_def payout_check_def)

lemma prov_nonneg: "ledger_inv s \<Longrightarrow> c \<in> set (credits s) \<Longrightarrow> 0 \<le> c_prov c"
  by (auto simp: ledger_inv_def core_def rows_ok_def credit_check_def)

lemma open_nonneg: "ledger_inv s \<Longrightarrow> 0 \<le> fd_open (funds_of pid s)"
  unfolding funds_of_def by (auto intro!: sum_list_nonneg simp: unsettled_of_def prov_nonneg)

lemma due_append: "due pid st (ps @ [p]) = due pid st ps + (if po_provider p = pid \<and> po_status p = st then po_prov p else 0)"
  by (simp add: due_def)

lemma due_update:
  assumes "distinct (map k ps)" "p \<in> set ps" "po_provider (f p) = po_provider p"
    "\<And>q. q \<in> set ps \<Longrightarrow> T q \<longleftrightarrow> k q = k p"
  shows "due pid st (update_where T f ps) = due pid st ps
     - (if po_provider p = pid \<and> po_status p = st then po_prov p else 0)
     + (if po_provider p = pid \<and> po_status (f p) = st then po_prov (f p) else 0)"
  using assms
proof (induction ps)
  case (Cons q ps)
  show ?case
  proof (cases "q = p")
    case True
    then have "\<not> T x" if "x \<in> set ps" for x using Cons.prems that by (auto simp: image_iff)
    then have "update_where T f ps = ps" by (rule update_where_none)
    then show ?thesis using True Cons.prems(3,4) by (auto simp: update_where_def due_def)
  next
    case False
    then have "p \<in> set ps" "\<not> T q" using Cons.prems by (auto simp: image_iff)
    then show ?thesis using Cons by (auto simp: update_where_def due_def)
  qed
qed simp

text \<open>Linking moves the linked credits out of the unsettled ones.\<close>

lemma unsettled_link:
  assumes "\<And>c. c \<in> set xs \<Longrightarrow> T c \<Longrightarrow> \<not> c_settled c"
  shows "sum_list (map c_prov (filter (\<lambda>c. c_provider c = pid \<and> \<not> c_settled c) (update_where T (link_to i) xs))) =
    sum_list (map c_prov (filter (\<lambda>c. c_provider c = pid \<and> \<not> c_settled c) xs))
    - sum_list (map c_prov (filter (\<lambda>c. c_provider c = pid \<and> T c) xs))"
  using assms by (induction xs) (auto simp: update_where_def)


section \<open>Settlement\<close>

definition settled_by :: "int \<Rightarrow> funds \<Rightarrow> funds" where
  "settled_by n f = f\<lparr>fd_open := fd_open f - n, fd_ready := fd_ready f + n\<rparr>"

definition group_share :: "string \<Rightarrow> settlement_group \<Rightarrow> int" where
  "group_share pid g = (if pid = g_provider g then g_prov g else 0)"

lemma group_share_sum:
  assumes "valid_group fin ids g s"
  shows "group_share pid g = sum_list (map c_prov (filter (\<lambda>c. c_provider c = pid \<and> c_provider c = g_provider g \<and> c_id c \<in> set ids) (credits s)))"
proof (cases "pid = g_provider g")
  case True
  then show ?thesis
    using assms by (simp add: group_share_def valid_group_def group_totals_def sums_of_def targets_def conj_commute cong: filter_cong)
next
  case False
  then show ?thesis by (simp add: group_share_def filter_False)
qed

lemma valid_unsettled:
  assumes "ledger_inv s" "valid_group fin ids g s" "c \<in> set (credits s)" "c_provider c = g_provider g \<and> c_id c \<in> set ids"
  shows "\<not> c_settled c"
  using assms by (auto simp: valid_group_def targets_def ledger_inv_def core_def links_ok_def link_ok_def)

lemma group_share_bounds:
  assumes "ledger_inv s" "valid_group fin ids g s"
  shows "0 \<le> group_share pid g" "group_share pid g \<le> fd_open (funds_of pid s)"
proof -
  let ?T = "\<lambda>c. c_provider c = g_provider g \<and> c_id c \<in> set ids"
  have "filter ?T (unsettled_of pid s) = filter (\<lambda>c. c_provider c = pid \<and> ?T c) (credits s)"
    unfolding unsettled_of_def filter_filter by (rule filter_cong) (use valid_unsettled [OF assms] in auto)
  then have g: "group_share pid g = sum_list (map c_prov (filter ?T (unsettled_of pid s)))" by (simp add: group_share_sum [OF assms(2)])
  have pos: "\<And>c. c \<in> set (unsettled_of pid s) \<Longrightarrow> 0 \<le> c_prov c" using prov_nonneg [OF assms(1)] by (simp add: unsettled_of_def)
  show "0 \<le> group_share pid g" unfolding g by (rule sum_list_nonneg) (use pos in auto)
  show "group_share pid g \<le> fd_open (funds_of pid s)"
    unfolding g by (simp add: funds_of_def sum_list_mono_filter pos)
qed

lemma open_settle_group:
  assumes "ledger_inv s" "valid_group fin ids g s"
    "credits s' = update_where (\<lambda>c. c_provider c = g_provider g \<and> c_id c \<in> set ids) (link_to i) (credits s)"
  shows "sum_list (map c_prov (unsettled_of pid s')) = sum_list (map c_prov (unsettled_of pid s)) - group_share pid g"
  unfolding unsettled_of_def assms(3) group_share_sum [OF assms(2)]
  by (rule unsettled_link) (rule valid_unsettled [OF assms(1,2)])

lemma funds_settled:
  assumes "ledger_inv s" "valid_group fin ids g s"
    "credits s' = update_where (\<lambda>c. c_provider c = g_provider g \<and> c_id c \<in> set ids) (link_to i) (credits s)"
    "\<And>st. due pid st (payouts s') = due pid st (payouts s) + (if st = Ready then group_share pid g else 0)"
  shows "funds_of pid s' = settled_by (group_share pid g) (funds_of pid s)"
  using assms(4) open_settle_group [OF assms(1-3)] by (simp add: funds_of_def settled_by_def)

lemma link_creditsD: "link_credits ids pid i s = Inr s' \<Longrightarrow>
    s' = s\<lparr>credits := update_where (\<lambda>c. c_provider c = pid \<and> c_id c \<in> set ids) (link_to i) (credits s)\<rparr>"
  unfolding link_credits_def by (drule update_creditsD(1)) (simp add: link_to_def [abs_def])

lemma funds_settle_group:
  assumes "ledger_inv s" "valid_group fin ids g s" "settle_group cadence mp start fin now ids g s = Inr s'"
  shows "funds_of pid s' = funds_of pid s \<or> funds_of pid s' = settled_by (group_share pid g) (funds_of pid s)"
proof (cases "find (\<lambda>p. payout_key p = (g_provider g, start, fin)) (payouts s)")
  case None
  define p where "p = new_payout cadence mp start fin now g (next_payout s)"
  have p: "po_provider p = g_provider g" "po_status p = Ready" "po_prov p = g_prov g" by (simp_all add: p_def new_payout_def)
  have "link_credits ids (g_provider g) (next_payout s) (s\<lparr>payouts := payouts s @ [p], next_payout := next_payout s + 1\<rparr>) = Inr s'"
    using assms(3) None by (auto simp: settle_group_def p_def Let_def split: if_splits)
  note s' = link_creditsD [OF this]
  have "due pid st (payouts s') = due pid st (payouts s) + (if st = Ready then group_share pid g else 0)" for st
    by (auto simp: s' due_append p group_share_def)
  from funds_settled [OF assms(1,2) _ this] show ?thesis by (simp add: s')
next
  case (Some p)
  show ?thesis
  proof (cases "po_status p = Ready")
    case True
    have "link_credits ids (g_provider g) (po_id p) (s\<lparr>payouts := update_where (\<lambda>q. payout_key q = payout_key p) (add_group g) (payouts s)\<rparr>) = Inr s'"
      using assms(3) Some True by (auto simp: settle_group_def split: if_splits)
    note s' = link_creditsD [OF this]
    have d: "distinct (map payout_key (payouts s))" using assms(1) by (simp add: ledger_inv_def core_def payouts_ok_def)
    have p: "po_provider p = g_provider g" using find_key(2) [OF Some] by (simp add: payout_key_def)
    have "due pid st (payouts s') = due pid st (payouts s) + (if st = Ready then group_share pid g else 0)" for st
      unfolding s' using due_update [OF d find_key(1) [OF Some], of "add_group g" "\<lambda>q. payout_key q = payout_key p" pid st] True p
      by (auto simp: group_share_def add_group_def)
    from funds_settled [OF assms(1,2) _ this] show ?thesis by (simp add: s')
  next
    case False
    then show ?thesis using assms(3) Some by (simp add: settle_group_def)
  qed
qed

lemma funds_of_cong: "map (\<lambda>c. (c_provider c, c_settled c, c_prov c)) (credits s') = map (\<lambda>c. (c_provider c, c_settled c, c_prov c)) (credits s) \<Longrightarrow>
   payouts s' = payouts s \<Longrightarrow> funds_of pid s' = funds_of pid s"
proof -
  have f: "sum_list (map c_prov (filter (\<lambda>c. c_provider c = pid \<and> \<not> c_settled c) cs)) =
    sum_list (map (\<lambda>(p, b, v). v) (filter (\<lambda>(p, b, v). p = pid \<and> \<not> b) (map (\<lambda>c. (c_provider c, c_settled c, c_prov c)) cs)))" for cs
    by (induction cs) auto
  show "map (\<lambda>c. (c_provider c, c_settled c, c_prov c)) (credits s') = map (\<lambda>c. (c_provider c, c_settled c, c_prov c)) (credits s) \<Longrightarrow>
   payouts s' = payouts s \<Longrightarrow> ?thesis" by (simp add: funds_of_def unsettled_of_def f)
qed

lemma funds_quarantine: "update_credits P (quarantine_row r) s = Inr s' \<Longrightarrow> funds_of pid s' = funds_of pid s"
  by (drule update_creditsD(1), rule funds_of_cong) (simp_all add: quarantine_row_def)


lemma settled_by_0 [simp]: "settled_by 0 f = f"
  by (simp add: settled_by_def)

lemma settled_by_add: "settled_by m (settled_by n f) = settled_by (n + m) f"
  by (simp add: settled_by_def)

lemma funds_settlement_body:
  assumes "ledger_inv s" "settlement_body cadence mp start fin now s = Inr s'"
  shows "\<exists>n. 0 \<le> n \<and> n \<le> fd_open (funds_of pid s) \<and> funds_of pid s' = settled_by n (funds_of pid s)"
proof -
  define Q where "Q t \<longleftrightarrow> (\<exists>n. 0 \<le> n \<and> funds_of pid t = settled_by n (funds_of pid s))" for t
  have "ledger_inv s' \<and> Q s'"
  proof (rule settlement_induct [where Q = Q, OF assms(1) _ assms(2)])
    show "Q s" unfolding Q_def by (intro exI [of _ 0]) simp
    show "Q t'" if "Q t" "update_credits P (quarantine_row r) t = Inr t'" for P r t t'
      using that(1) funds_quarantine [OF that(2)] by (simp add: Q_def)
  next
    fix ids g t t' assume t: "ledger_inv t" "Q t" "valid_group fin ids g t" "settle_group cadence mp start fin now ids g t = Inr t'"
    obtain n where n: "0 \<le> n" "funds_of pid t = settled_by n (funds_of pid s)" using t(2) by (auto simp: Q_def)
    from funds_settle_group [OF t(1,3,4), of pid] show "Q t'"
    proof
      assume "funds_of pid t' = settled_by (group_share pid g) (funds_of pid t)"
      then show ?thesis unfolding Q_def using n group_share_bounds(1) [OF t(1,3), of pid]
        by (intro exI [of _ "n + group_share pid g"]) (simp add: settled_by_add)
    qed (use n in \<open>auto simp: Q_def\<close>)
  qed
  then obtain n where n: "0 \<le> n" "funds_of pid s' = settled_by n (funds_of pid s)" and inv: "ledger_inv s'" by (auto simp: Q_def)
  have "n \<le> fd_open (funds_of pid s)" using open_nonneg [OF inv, of pid] by (simp add: n(2) settled_by_def)
  then show ?thesis using n by auto
qed


section \<open>Claims\<close>

lemma due_update_ready:
  assumes "ledger_inv s" "p \<in> set (payouts s)" "po_status p = Ready"
    "\<And>q. po_provider (f q) = po_provider q \<and> po_prov (f q) = po_prov q \<and> po_status (f q) = st'"
  shows "due pid st (payouts (update_ready (po_id p) f s)) = due pid st (payouts s)
    - (if po_provider p = pid \<and> Ready = st then po_prov p else 0) + (if po_provider p = pid \<and> st' = st then po_prov p else 0)"
proof -
  have d: "distinct (map po_id (payouts s))" using assms(1) by (simp add: ledger_inv_def core_def payouts_ok_def)
  have "po_status q = Ready" if "q \<in> set (payouts s)" "po_id q = po_id p" for q
    using d that assms(2,3) by (auto simp: distinct_map inj_on_def)
  then have T: "po_id q = po_id p \<and> po_status q = Ready \<longleftrightarrow> po_id q = po_id p" if "q \<in> set (payouts s)" for q
    using that by auto
  have "payouts (update_ready (po_id p) f s) = update_where (\<lambda>q. po_id q = po_id p \<and> po_status q = Ready) f (payouts s)"
    by (simp add: update_ready_def)
  then have "due pid st (payouts (update_ready (po_id p) f s)) = due pid st (payouts s)
     - (if po_provider p = pid \<and> po_status p = st then po_prov p else 0)
     + (if po_provider p = pid \<and> po_status (f p) = st then po_prov (f p) else 0)"
    using due_update [OF d assms(2) _ T] assms(4) by simp
  then show ?thesis using assms(3,4) by simp
qed

definition claim_amount :: "string \<Rightarrow> payout_ready \<Rightarrow> int" where
  "claim_amount pid p = (if po_provider p = pid then po_prov p else 0)"

lemma claim_amount_bounds:
  assumes "ledger_inv s" "p \<in> set (payouts s)" "po_status p = Ready"
  shows "0 \<le> claim_amount pid p" "claim_amount pid p \<le> fd_ready (funds_of pid s)"
proof -
  have pos: "\<And>q. q \<in> set (payouts s) \<Longrightarrow> 0 \<le> po_prov q" using assms(1) by (auto simp: ledger_inv_def core_def payouts_ok_def payout_check_def)
  show "0 \<le> claim_amount pid p" using pos [OF assms(2)] by (simp add: claim_amount_def)
  have "po_prov p \<le> due pid Ready (payouts s)" if "po_provider p = pid"
    unfolding due_def by (rule member_le_sum_list) (use that assms(2,3) pos in auto)
  then show "claim_amount pid p \<le> fd_ready (funds_of pid s)"
    using assms(1) due_nonneg [of s pid Ready] by (simp add: claim_amount_def funds_of_def ledger_inv_def core_def)
qed

lemma funds_claim:
  assumes "ledger_inv s" "claim_body now i expected ext cur s = Inr (s', b)"
  shows "money_step (OpClaim ok now i expected ext cur) (funds_of pid s) (funds_of pid s')"
proof -
  have audit: "funds_of pid (claim_audit p st t) = funds_of pid t" "payouts (claim_audit p st t) = payouts t"
    "unsettled_of pid (claim_audit p st t) = unsettled_of pid t" for p st t
    by (simp_all add: claim_audit_def funds_of_def unsettled_of_def)
  have ready: "unsettled_of pid (update_ready j f t) = unsettled_of pid t" for j f t
    by (simp add: update_ready_def unsettled_of_def)
  show ?thesis using assms
  proof (cases rule: claim_cases)
    case (claimed p)
    note d = due_update_ready [OF assms(1) claimed(2,4), of "consume ext cur" Consumed pid]
    have "funds_of pid s' = (funds_of pid s)\<lparr>fd_ready := fd_ready (funds_of pid s) - claim_amount pid p,
        fd_paid := fd_paid (funds_of pid s) + claim_amount pid p\<rparr>"
      using d claimed(3) by (simp add: claimed audit funds_of_def ready claim_amount_def consume_def)
    then show ?thesis using money_step.pay [OF claim_amount_bounds [OF assms(1) claimed(2,4), of pid]] by simp
  next
    case (voided p)
    note d = due_update_ready [OF assms(1) voided(2,4), of "\<lambda>q. q\<lparr>po_status := Voided\<rparr>" Voided pid]
    have "funds_of pid s' = (funds_of pid s)\<lparr>fd_ready := fd_ready (funds_of pid s) - claim_amount pid p,
        fd_void := fd_void (funds_of pid s) + claim_amount pid p\<rparr>"
      using d voided(3) by (simp add: voided audit funds_of_def ready claim_amount_def)
    then show ?thesis using money_step.void [OF claim_amount_bounds [OF assms(1) voided(2,4), of pid]] by simp
  qed (simp_all add: audit money_step.idle)
qed


section \<open>Refinement\<close>

lemma payouts_sync:
  assumes "syncVerifiedReceiptLedgerCreditForAttemptTx q a p s = Inr (s', r)"
  shows "payouts s' = payouts s"
  using assms
proof (cases rule: sync_cases)
  case (quarantined c reason)
  then show ?thesis
    by (auto simp: quarantine_receipt_def markVerifiedReceiptCacheQuarantinedTx_def markSettlementReceiptCacheQuarantinedTx_def
        bind_err_Inr dest!: update_creditsD(1))
next
  case (rewritten c b)
  then show ?thesis by (auto simp: rewrite_credit_def bind_err_Inr dest!: update_creditsD(1) split: if_splits)
qed simp

lemma payouts_identity: "insertProviderIdentitySnapshotTx i s = Inr s' \<Longrightarrow> payouts s' = payouts s"
  by (auto simp: insertProviderIdentitySnapshotTx_def Let_def split: if_splits)

lemma payouts_operator: "insertOperatorCreditTx n b s = Inr s' \<Longrightarrow> payouts s' = payouts s"
  by (auto simp: insertOperatorCreditTx_def Let_def split: if_splits)

interpretation keep: ledger_writer "\<lambda>s. payouts s = ps" for ps
  by unfold_locales (auto simp: InsertExec_def Let_def payouts_identity payouts_sync payouts_operator
      dest: update_creditsD(1) insert_creditD(1))

lemma same_payouts:
  assumes "payouts s' = payouts s"
  shows "funds_of pid s' = (funds_of pid s)\<lparr>fd_open := fd_open (funds_of pid s')\<rparr>"
  using assms by (simp add: funds_of_def)

lemma Transact_step:
  assumes "\<And>s' r. body s = Inr (s', r) \<Longrightarrow> money_step x (funds_of pid s) (funds_of pid s')"
  shows "money_step x (funds_of pid s) (funds_of pid (fst (Transact ok body s)))"
  by (rule Transact_keeps [where I = "\<lambda>t. money_step x (funds_of pid s) (funds_of pid t)"])
    (use assms in \<open>auto intro: money_step.idle\<close>)

lemma funds_request_log: "funds_of pid (fst (writeRequestLogWithIdentity ok account r i s)) = funds_of pid s"
proof -
  let ?I = "\<lambda>t. credits t = credits s \<and> payouts t = payouts s"
  have "credits t' = credits t \<and> payouts t' = payouts t" if "insertProviderIdentitySnapshotTx i t = Inr t'" for i t t'
    using that by (auto simp: insertProviderIdentitySnapshotTx_def Let_def split: if_splits)
  then have "?I (fst (writeRequestLogWithIdentity ok account r i s))"
    unfolding writeRequestLogWithIdentity_def Let_def
    by (intro Transact_keeps [where I = ?I]) (auto simp: map_sum_unit InsertExec_def Let_def split: if_splits)
  then show ?thesis by (simp add: funds_of_def unsettled_of_def)
qed

lemma money_refines:
  assumes "ledger_inv s"
  shows "money_step x (funds_of pid s) (funds_of pid (exec_ledger sha x s))"
proof -
  have inv: "0 \<le> fd_open (funds_of pid (exec_ledger sha x s))"
    using open_nonneg ledger.step_inv [OF assms, of sha x] by simp
  have step: "(\<And>v. 0 \<le> v \<Longrightarrow> money_step x (funds_of pid s) ((funds_of pid s)\<lparr>fd_open := v\<rparr>)) \<Longrightarrow>
      payouts (exec_ledger sha x s) = payouts s \<Longrightarrow> ?thesis"
    using inv by (subst same_payouts) auto
  show ?thesis
  proof (cases x)
    case (OpHotPath ok now account r i)
    then show ?thesis by (intro step) (simp_all add: money_step.earn keep.write_hot_path)
  next
    case (OpSync ok q a p)
    have "payouts (exec_ledger sha x s) = payouts s"
      unfolding OpSync exec_ledger.simps
      by (rule Transact_keeps [where I = "\<lambda>t. payouts t = payouts s"]) (simp_all add: payouts_sync)
    then show ?thesis by (intro step) (simp_all add: OpSync money_step.sync)
  next
    case (OpRecover ok rec src a b)
    then show ?thesis by (intro step) (simp_all add: money_step.recover keep.recover)
  next
    case (OpSettle ok cadence mp start fin now)
    show ?thesis unfolding OpSettle exec_ledger.simps RunSettlement_def
      by (rule Transact_step) (use funds_settlement_body [OF assms, of cadence mp start fin now _ pid] in
        \<open>auto simp: map_sum_unit settled_by_def intro: money_step.settle\<close>)
  next
    case (OpClaim ok now i expected ext cur)
    show ?thesis unfolding OpClaim exec_ledger.simps ClaimPayoutReady_def
      by (rule Transact_step) (rule funds_claim [OF assms])
  next
    case (OpResolve ok kind op reason now hold cid)
    have "funds_of pid (exec_ledger sha x s) = funds_of pid s"
      by (cases rule: forceResolution_cases [of ok kind op reason now hold cid s])
        (simp_all add: OpResolve funds_of_def unsettled_of_def)
    then show ?thesis by (simp add: money_step.idle)
  next
    case (OpRequestLog ok account r i)
    then show ?thesis by (simp add: funds_request_log money_step.idle)
  qed (simp_all add: funds_of_def unsettled_of_def money_step.idle)
qed


section \<open>Conservation\<close>

lemma sum_key:
  fixes v :: int
  shows "distinct (map k ps) \<Longrightarrow> p \<in> set ps \<Longrightarrow> sum_list (map (\<lambda>q. if k q = k p then v else 0) ps) = v"
proof (induction ps)
  case (Cons q ps)
  show ?case
  proof (cases "q = p")
    case True
    then have "map (\<lambda>q. if k q = k p then v else 0) ps = map (\<lambda>_. 0) ps" using Cons.prems(1) by (auto simp: image_iff)
    then show ?thesis using True by (simp only: list.map sum_list.Cons) simp
  next
    case False
    then have "p \<in> set ps" "k q \<noteq> k p" using Cons.prems by (auto simp: image_iff)
    then show ?thesis using Cons by simp
  qed
qed simp

lemma sum_partition:
  fixes f :: "'a \<Rightarrow> int"
  assumes "distinct (map k ps)" "\<forall>c \<in> set xs. \<exists>p \<in> set ps. key c = Some (k p)"
  shows "sum_list (map (\<lambda>p. sum_list (map f (filter (\<lambda>c. key c = Some (k p)) xs))) ps) = sum_list (map f xs)"
  using assms(2)
proof (induction xs)
  case (Cons c xs)
  then obtain p where p: "p \<in> set ps" "key c = Some (k p)" by auto
  have "sum_list (map (\<lambda>q. sum_list (map f (filter (\<lambda>c. key c = Some (k q)) (c # xs)))) ps) =
    sum_list (map (\<lambda>q. if k q = k p then f c else 0) ps) + sum_list (map (\<lambda>q. sum_list (map f (filter (\<lambda>c. key c = Some (k q)) xs))) ps)"
    by (simp only: sum_list_addf [symmetric]) (rule arg_cong [where f = sum_list], auto simp: p(2))
  then show ?case using Cons sum_key [OF assms(1) p(1)] by simp
qed simp

lemma settled_partition:
  assumes "ledger_inv s"
  shows "sum_list (map po_prov (filter (\<lambda>p. po_provider p = pid) (payouts s))) =
    sum_list (map c_prov (filter (\<lambda>c. c_provider c = pid \<and> c_settled c) (credits s)))"
proof -
  let ?ps = "filter (\<lambda>p. po_provider p = pid) (payouts s)" and ?xs = "filter (\<lambda>c. c_provider c = pid \<and> c_settled c) (credits s)"
  have d: "distinct (map po_id (payouts s))" using assms by (simp add: ledger_inv_def core_def payouts_ok_def)
  have one: "q = p" if "q \<in> set (payouts s)" "p \<in> set (payouts s)" "po_id q = po_id p" for p q
    using d that by (auto simp: distinct_map inj_on_def)
  have l: "link_ok s c" if "c \<in> set (credits s)" for c using assms that by (simp add: ledger_inv_def core_def links_ok_def)
  have "po_prov p = sum_list (map c_prov (filter (\<lambda>c. c_settlement c = Some (po_id p)) ?xs))" if "p \<in> set ?ps" for p
  proof -
    have "filter (\<lambda>c. c_settlement c = Some (po_id p)) ?xs = linked (po_id p) s"
      unfolding linked_def filter_filter by (rule filter_cong) (use l one that in \<open>fastforce simp: link_ok_def split: if_splits\<close>)+
    then show ?thesis using assms that by (auto simp: ledger_inv_def core_def totals_ok_def totals_def sums_of_def)
  qed
  then have m: "map po_prov ?ps = map (\<lambda>p. sum_list (map c_prov (filter (\<lambda>c. c_settlement c = Some (po_id p)) ?xs))) ?ps"
    by (intro map_cong) auto
  have "\<forall>c \<in> set ?xs. \<exists>p \<in> set ?ps. c_settlement c = Some (po_id p)"
    using l by (fastforce simp: link_ok_def split: if_splits)
  then show ?thesis unfolding m by (rule sum_partition [OF distinct_map_filter [OF d]])
qed

lemma due_total: "due pid Ready ps + due pid Consumed ps + due pid Voided ps = sum_list (map po_prov (filter (\<lambda>p. po_provider p = pid) ps))"
proof (induction ps)
  case (Cons p ps)
  then show ?case by (cases "po_status p") (auto simp: due_def)
qed (simp add: due_def)

lemma total_funds: "ledger_inv s \<Longrightarrow> total (funds_of pid s) = sum_list (map c_prov (filter (\<lambda>c. c_provider c = pid) (credits s)))"
  using settled_partition [of s pid] due_total [of pid "payouts s"]
    sum_list_split [of c_prov "filter (\<lambda>c. c_provider c = pid) (credits s)" c_settled]
  by (simp add: total_def funds_of_def unsettled_of_def)

end
