(* ===== verification/Ledger_Writes.thy ===== *)
theory Ledger_Writes
  imports Ledger_Funds
begin

text \<open>
  What one write of the hot path adds to the ledger, and what recovery does with a row it disagrees with.
\<close>

section \<open>The row a write adds\<close>

lemma prompt_of_row: "br_PromptTokens (ComputeCreditsWithCache pr ca co e u f r m sh) \<in> {None, pr}"
  by (auto simp: ComputeCreditsWithCache_def Let_def zeroCredits_def split: option.splits)

lemma prompt_of_credits:
  "br_PromptTokens (plain_credits i) \<in> {None, in_Prompt i}" "br_PromptTokens (cached_credits i) \<in> {None, in_Prompt i}"
  unfolding plain_credits_def ComputeCredits_def cached_credits_def by (rule prompt_of_row)+

lemma fault_of_row: "br_FaultFlag (ComputeCreditsWithCache pr ca co e u FaultNone r m sh) \<noteq> FaultBreakerQualifying"
  by (auto simp: ComputeCreditsWithCache_def Let_def zeroCredits_def split: option.splits)

lemma normalizeCached_keeps:
  assumes "normalizeCachedPromptTokens i = (j, reason)"
  shows "in_RequestID j = in_RequestID i" "in_ProviderID j = in_ProviderID i" "in_Prompt j = in_Prompt i"
    "in_PolicyMode j = in_PolicyMode i" "in_AttemptN j = in_AttemptN i"
  using assms by (auto simp: normalizeCachedPromptTokens_def split: option.splits if_splits)

lemma identity_keeps:
  assumes "insertProviderIdentitySnapshotTx i s = Inr s'"
  shows "credits s' = credits s"
  using assms by (auto simp: insertProviderIdentitySnapshotTx_def Let_def split: if_splits)

definition new_row :: "HotPathInput \<Rightarrow> ledger \<Rightarrow> request_credit \<Rightarrow> bool" where
  "new_row i s c \<longleftrightarrow> c_id c = next_credit s \<and> c_request c = in_RequestID i \<and> c_provider c = in_ProviderID i
     \<and> \<not> c_settled c \<and> c_settlement c = None \<and> c_prompt c \<in> {None, in_Prompt i}
     \<and> (c_quarantined c \<longrightarrow> c_gross c = 0 \<and> c_prov c = 0)"

lemma quarantined_attempt_row:
  assumes "quarantined_attempt i b reason s = Inr s'" "br_PromptTokens b \<in> {None, in_Prompt i}"
  shows "\<exists>c. credits s' = credits s @ [c] \<and> new_row i s c"
proof -
  obtain s1 n where c: "insert_credit (credit_of i (zeroCredits b) True reason) s = Inr (s1, n)"
    and s': "insertProviderIdentitySnapshotTx i s1 = Inr s'"
    using assms(1) by (auto simp: quarantined_attempt_def bind_err_Inr insertRequestCreditTx_def)
  show ?thesis using insert_creditD(1,2) [OF c] identity_keeps [OF s'] assms(2)
    by (auto simp: new_row_def credit_of_def zeroCredits_def Let_def)
qed

lemma sync_none:
  assumes "\<And>c. c \<in> set (credits s) \<Longrightarrow> credit_key c = (q, a, p) \<Longrightarrow> c_mode c \<noteq> Enforce"
  shows "syncVerifiedReceiptLedgerCreditForAttemptTx q a p s = Inr (s, [])"
proof -
  have "sync_target q a p s = None"
  proof (rule ccontr)
    assume "sync_target q a p s \<noteq> None"
    then obtain c x where "sync_target q a p s = Some (c, x)" by auto
    from sync_targetD [OF this] assms show False by blast
  qed
  then show ?thesis by (simp add: syncVerifiedReceiptLedgerCreditForAttemptTx_def)
qed

lemma credit_attempt_row:
  assumes "credit_attempt i s = Inr s'" "settlementPolicyModeOrLegacy (in_PolicyMode i) \<noteq> Enforce"
  shows "\<exists>c. credits s' = credits s @ [c] \<and> new_row i s c"
proof -
  obtain s1 n s2 s3 x where c: "insert_credit (credit_of i (cached_credits i) False []) s = Inr (s1, n)"
    and o: "insertOperatorCreditTx n (cached_credits i) s1 = Inr s2" and li: "insertProviderIdentitySnapshotTx i s2 = Inr s3"
    and y: "syncVerifiedReceiptLedgerCreditForAttemptTx (in_RequestID i) (in_AttemptN i) (in_ProviderID i) s3 = Inr (s', x)"
    using assms(1) by (auto simp: credit_attempt_def bind_err_Inr insertRequestCreditTx_def)
  note d = insert_creditD [OF c]
  have "credits s2 = credits s1" using o by (auto simp: insertOperatorCreditTx_def Let_def split: if_splits)
  then have s3: "credits s3 = credits s @ [(credit_of i (cached_credits i) False [])\<lparr>c_id := n\<rparr>]"
    using identity_keeps [OF li] d(1) by simp
  have "c_mode k \<noteq> Enforce" if "k \<in> set (credits s3)" "credit_key k = (in_RequestID i, in_AttemptN i, in_ProviderID i)" for k
  proof (cases "k \<in> set (credits s)")
    case True
    then show ?thesis using d(4) that(2) imageI [OF True, of credit_key] by (simp add: credit_of_def credit_key_def)
  next
    case False
    then show ?thesis using that(1) assms(2) by (auto simp: s3 credit_of_def)
  qed
  then have "s' = s3" using y sync_none by simp
  then show ?thesis using s3 d(2) prompt_of_credits(2) [of i] by (auto simp: new_row_def credit_of_def)
qed

lemma hot_path_branches:
  assumes "hot_path_body sha now r i s = Inr s'"
  obtains (unassigned) "s' = InsertExec r s"
  | (late) n reason where "quarantined_attempt (with_defaults now ((scoped sha r i)\<lparr>in_AttemptN := n\<rparr>))
      (plain_credits (with_defaults now ((scoped sha r i)\<lparr>in_AttemptN := n\<rparr>))) reason (InsertExec r s) = Inr s'"
  | (quarantined) j reason b why where "normalizeCachedPromptTokens (with_defaults now (scoped sha r i)) = (j, why)"
      "b = plain_credits j \<or> b = cached_credits j" "quarantined_attempt j b reason (InsertExec r s) = Inr s'"
  | (credited) j where "normalizeCachedPromptTokens (with_defaults now (scoped sha r i)) = (j, [])"
      "credit_attempt j (InsertExec r s) = Inr s'"
proof -
  obtain j why where n: "normalizeCachedPromptTokens (with_defaults now (scoped sha r i)) = (j, why)" by fastforce
  define t m where "t = InsertExec r s" and "m = log_count (rl_account r) (in_RequestID (scoped sha r i)) (request_log t) - 1"
  note body = assms [unfolded hot_path_body_def Let_def n prod.case, folded t_def, folded m_def]
  show ?thesis
  proof (cases "in_AssignedID i = []")
    case True
    then show ?thesis using body by (intro unassigned) (simp add: t_def)
  next
    case a: False
    show ?thesis
    proof (cases "m \<ge> 0 \<and> m > in_AttemptN (scoped sha r i)")
      case True
      then show ?thesis using body a by (intro late) (simp add: t_def)
    next
      case False
      then have "(if in_AttemptN j = 1 \<and> rl_retried r = 0 then quarantined_attempt j (plain_credits j) ''ambiguous_attempt_n'' t
          else if why \<noteq> [] then quarantined_attempt j (cached_credits j) why t else credit_attempt j t) = Inr s'"
        using body a by (simp only: if_False if_True simp_thms)
      then show ?thesis using n quarantined credited by (auto simp: t_def split: if_splits)
    qed
  qed
qed

lemma scoped_keeps [simp]:
  "in_RequestID (scoped sha r i) = in_RequestID i" "in_ProviderID (scoped sha r i) = in_ProviderID i"
  "in_Prompt (scoped sha r i) = in_Prompt i"
  by (simp_all add: scoped_def Let_def)

lemma scoped_mode: "in_PolicyMode i \<noteq> ''enforce'' \<Longrightarrow> settlementPolicyModeOrLegacy (in_PolicyMode (scoped sha r i)) \<noteq> Enforce"
  by (simp add: scoped_def Let_def settlementPolicyModeOrLegacy_def)

lemma with_defaults_keeps [simp]:
  "in_RequestID (with_defaults now i) = in_RequestID i" "in_ProviderID (with_defaults now i) = in_ProviderID i"
  "in_Prompt (with_defaults now i) = in_Prompt i" "in_PolicyMode (with_defaults now i) = in_PolicyMode i"
  by (simp_all add: with_defaults_def)

lemma InsertExec_keeps [simp]: "credits (InsertExec r s) = credits s" "next_credit (InsertExec r s) = next_credit s"
  by (simp_all add: InsertExec_def Let_def)

lemma new_row_cong:
  "in_RequestID j = in_RequestID i \<Longrightarrow> in_ProviderID j = in_ProviderID i \<Longrightarrow> in_Prompt j = in_Prompt i \<Longrightarrow>
   next_credit s' = next_credit s \<Longrightarrow> new_row j s' c = new_row i s c"
  by (simp add: new_row_def)

lemma hot_path_row:
  assumes "hot_path_body sha now r i s = Inr s'" "in_PolicyMode i \<noteq> ''enforce''"
  shows "credits s' = credits s \<or> (\<exists>c. credits s' = credits s @ [c] \<and> new_row i s c)"
  using assms(1)
proof (cases rule: hot_path_branches)
  case (late n reason)
  from quarantined_attempt_row [OF late prompt_of_credits(1)] show ?thesis by (simp add: new_row_def)
next
  case (quarantined j reason b why)
  have "br_PromptTokens b \<in> {None, in_Prompt j}"
    using quarantined(2) by (elim disjE) (simp_all only: prompt_of_credits)
  from quarantined_attempt_row [OF quarantined(3) this] show ?thesis
    using new_row_cong [of j i "InsertExec r s" s] normalizeCached_keeps [OF quarantined(1)] by simp
next
  case (credited j)
  have "settlementPolicyModeOrLegacy (in_PolicyMode j) \<noteq> Enforce"
    using normalizeCached_keeps(4) [OF credited(1)] scoped_mode [OF assms(2)] by simp
  from credit_attempt_row [OF credited(2) this] show ?thesis
    using new_row_cong [of j i "InsertExec r s" s] normalizeCached_keeps [OF credited(1)] by simp
qed simp


section \<open>Reconciling a faulted row\<close>

lemma reconcile_breaker:
  assumes "find (\<lambda>c. credit_key c = (in_RequestID i, in_AttemptN i, in_ProviderID i)) (credits s) = Some c"
    "c_fault c = FaultBreakerQualifying" "\<not> c_quarantined c" "c_usage c \<noteq> ''byte_estimated''" "in_Fault i = FaultNone"
  shows "reconcileExistingCreditTx i (cached_credits i) s =
    (if c_settled c \<or> c_settlement c \<noteq> None then Inl SettledMismatch
     else bind_err (update_credits (\<lambda>x. c_id x = c_id c) (quarantine_row ''reconciliation_mismatch'') s)
       (\<lambda>s. Inr (s, \<lparr>rc_actual = c_gross c, rc_expected = 0, rc_exists = True, rc_mismatch = True\<rparr>)))"
proof -
  let ?b = "ComputeCreditsWithCache (in_Prompt i) (in_Cached i) (in_Completion i) (in_Estimated i) (c_usage c) (c_fault c)
    (in_Rate i) (in_Multiplier i) (in_Share i)"
  have "br_FaultFlag (cached_credits i) \<noteq> c_fault c"
    unfolding cached_credits_def assms(2,5) by (rule fault_of_row)
  then have m: "reconcile_mismatch i (cached_credits i) ?b False s c" by (auto simp: reconcile_mismatch_def Let_def)
  have "GrossCredits ?b = 0" by (simp add: assms(2) ComputeCreditsWithCache_def Let_def)
  then show ?thesis using assms m unfolding reconcileExistingCreditTx_def by (simp add: Let_def)
qed

end
