(* ===== verification/Ledger_Properties.thy ===== *)
theory Ledger_Properties
  imports Ledger_Progress Ledger_Writes
begin

text \<open>
  The contracts of the ledger's money path over every history of its operations.
\<close>

section \<open>A sample history\<close>

definition sample_log :: request_log_row where
  "sample_log = \<lparr>rl_id = 0, rl_ts = 5, rl_request = ''r'', rl_account = None, rl_model = ''m'', rl_assigned = Some ''w'',
     rl_prompt = Some 30, rl_cached = None, rl_completion = Some 10, rl_estimated = None, rl_status = 200, rl_error_code = [],
     rl_cache_reason = [], rl_retried = 0, rl_attempt = Some 0\<rparr>"

definition sample_input :: HotPathInput where
  "sample_input = \<lparr>in_RequestID = ''r'', in_AttemptN = 0, in_AssignedID = ''w'', in_ProviderID = ''p'', in_Model = ''m'',
     in_TSUtc = 5, in_Prompt = Some 30, in_PromptBound = Some 20, in_Reported = None, in_Cached = None,
     in_Completion = Some 10, in_Estimated = None, in_ErrorCode = [], in_Fault = [], in_StickyResult = [], in_SnapshotID = 1,
     in_Rate = \<lparr>PromptCreditsPerMtok = 1000000, PromptCacheHitCreditsPerMtok = 0, CompletionCreditsPerMtok = 2000000,
       promptCacheHitRateSet = False\<rparr>, in_Multiplier = 1000000, in_Share = 9000,
     in_ScopeHash = replicate 64 CHR ''a'', in_PolicyMode = [], in_PolicyVersion = []\<rparr>"

definition sample_sha :: "string \<Rightarrow> string" where
  "sample_sha x = replicate 64 CHR ''0''"

definition sample_billed :: "ledger_op list" where
  "sample_billed = [OpHotPath True 9 None sample_log sample_input]"

definition sample_settled :: "ledger_op list" where
  "sample_settled = sample_billed @ [OpSettle True 7 1 0 10 20]"


section \<open>The books balance\<close>

lemma payout_unique: "ledger_inv s \<Longrightarrow> q \<in> set (payouts s) \<Longrightarrow> p \<in> set (payouts s) \<Longrightarrow> po_id q = po_id p \<Longrightarrow> q = p"
  by (auto simp: ledger_inv_def core_def payouts_ok_def distinct_map inj_on_def)

text \<open>C28. In every reachable ledger the books balance: a credit carries a payout link exactly when it is settled,
  it is then linked to one payout, of its own provider and with a period that ends after it, and the count and
  the three totals of every payout are the sums over the credits linked to it, the operator's total being the
  difference of the other two.
\<close>

theorem ledger_double_entry:
  assumes "s = ledger_after sha ops"
  shows "(\<forall>c \<in> set (credits s). if c_settled c
        then \<exists>!p. p \<in> set (payouts s) \<and> c_settlement c = Some (po_id p)
        else c_settlement c = None)
    \<and> (\<forall>p \<in> set (payouts s). let cs = filter (\<lambda>c. c_settlement c = Some (po_id p)) (credits s) in
        (\<forall>c \<in> set cs. c_settled c \<and> c_provider c = po_provider p \<and> c_ts c < po_end p)
        \<and> po_count p = int (length cs) \<and> 0 < po_count p
        \<and> po_gross p = sum_list (map c_gross cs) \<and> po_prov p = sum_list (map c_prov cs) \<and> po_oper p = po_gross p - po_prov p)"
proof -
  have inv: "ledger_inv s" unfolding assms by (rule inv_after)
  have one: "q = p" if "q \<in> set (payouts s)" "p \<in> set (payouts s)" "po_id q = po_id p" for p q
    using payout_unique [OF inv] that by blast
  have l: "link_ok s c" if "c \<in> set (credits s)" for c
    using inv that by (simp add: ledger_inv_def core_def links_ok_def)
  have sub: "sum_list (map (\<lambda>c. c_gross c - c_prov c) cs) = sum_list (map c_gross cs) - sum_list (map c_prov cs)" for cs
    by (induction cs) auto
  have "\<exists>!p. p \<in> set (payouts s) \<and> c_settlement c = Some (po_id p)" if "c \<in> set (credits s)" "c_settled c" for c
    using l [OF that(1)] that(2) one by (auto simp: link_ok_def)
  moreover have "c_settlement c = None" if "c \<in> set (credits s)" "\<not> c_settled c" for c
    using l [OF that(1)] that(2) by (simp add: link_ok_def)
  moreover have "c_settled c \<and> c_provider c = po_provider p \<and> c_ts c < po_end p"
    if "p \<in> set (payouts s)" "c \<in> set (credits s)" "c_settlement c = Some (po_id p)" for p c
    using l [OF that(2)] that one by (auto simp: link_ok_def split: if_splits)
  moreover have "totals p = sums_of (linked (po_id p) s)" "0 < po_count p" if "p \<in> set (payouts s)" for p
    using inv that by (simp_all add: ledger_inv_def core_def totals_ok_def payouts_ok_def payout_check_def)
  ultimately show ?thesis unfolding Let_def by (simp add: totals_def sums_of_def linked_def sub)
qed


lemma sample_payouts:
  "map (\<lambda>p. (po_id p, po_provider p, po_status p, po_gross p, po_prov p)) (payouts (ledger_after sample_sha sample_settled)) =
   [(1, ''p'', Ready, 40, 36)]"
  by code_simp

lemma sample_payout:
  obtains p where "p \<in> set (payouts (ledger_after sample_sha sample_settled))" "po_id p = 1" "po_provider p = ''p''"
    "po_status p = Ready" "po_gross p = 40" "po_prov p = 36"
  using sample_payouts by (auto simp: map_eq_Cons_conv)

theorem ledger_double_entry_witness:
  "sum_list (map c_gross (filter (\<lambda>c. c_settlement c = Some 1) (credits (ledger_after sample_sha sample_settled)))) = 40"
proof -
  obtain p where p: "p \<in> set (payouts (ledger_after sample_sha sample_settled))" "po_id p = 1" "po_gross p = 40"
    by (rule sample_payout)
  show ?thesis using ledger_double_entry [OF refl, of sample_sha sample_settled] p by (auto simp: Let_def)
qed

text \<open>C29. The ledger refines the flow of money between four purses of each provider, open, ready, paid and void:
  every operation on a reachable ledger is one of the moves its kind allows (a write, a receipt or a recovery
  changes what is open, a settlement moves from open to ready, a claim from ready to paid or to void, the others
  move nothing), and the purses always add up to the provider's share of all its credits. Nothing that is ready,
  paid or void is created or lost otherwise.
\<close>

theorem ledger_refines_money_flow:
  "money_step x (funds_of pid (ledger_after sha ops)) (funds_of pid (exec_ledger sha x (ledger_after sha ops)))
   \<and> total (funds_of pid (ledger_after sha ops)) =
       sum_list (map c_prov (filter (\<lambda>c. c_provider c = pid) (credits (ledger_after sha ops))))"
  using money_refines [OF inv_after] total_funds [OF inv_after] by blast


section \<open>Claims\<close>

lemma claim_true:
  assumes "ledger_inv s" "ClaimPayoutReady ok now pid expected ext cur s = (s', Inr True)"
  obtains p where "p \<in> set (payouts s)" "po_id p = pid" "po_status p = Ready" "po_gross p = expected" "sources_ok now p s"
    "po_gross p = sum_list (map c_gross (linked pid s))" "credits s' = credits s" "ledger_inv s'"
    "payouts s' = map (\<lambda>q. if po_id q = pid then consume ext cur p else q) (payouts s)"
proof -
  have c: "claim_body now pid expected ext cur s = Inr (s', True)"
    using assms(2) by (auto simp: ClaimPayoutReady_def Transact_def split: sum.splits if_splits)
  from assms(1) c show ?thesis
  proof (cases rule: claim_cases)
    case (claimed p)
    have one: "q = p" if "q \<in> set (payouts s)" "po_id q = pid" for q
      using payout_unique [OF assms(1) that(1) claimed(2)] that(2) claimed(3) by simp
    have "po_gross p = sum_list (map c_gross (linked pid s))"
      using assms(1) claimed(2,3) by (auto simp: ledger_inv_def core_def totals_ok_def totals_def sums_of_def)
    moreover have "payouts s' = map (\<lambda>q. if po_id q = pid then consume ext cur p else q) (payouts s)"
      unfolding claimed(7) claim_audit_def update_ready_def update_where_def using one claimed(4) by auto
    moreover have "credits s' = credits s" by (simp add: claimed(7) claim_audit_def update_ready_def)
    ultimately show ?thesis using that claimed(2-6) inv_claim_body [OF assms(1) c] by blast
  qed auto
qed

text \<open>C30. A claim of a payout succeeds only when the payout is ready, the expected amount is its gross total and the
  sum over its credits, there is such a credit, and each of them is settled to that payout, of its provider, before
  the end of its period and payable at the time of the claim. Then that payout, and nothing else of the payouts and
  credits, changes: it is consumed, with the external reference.
\<close>

theorem claim_pays_payable_credits:
  assumes "s = ledger_after sha ops" "ClaimPayoutReady ok now pid expected ext cur s = (s', Inr True)"
  shows "\<exists>p \<in> set (payouts s). po_id p = pid \<and> po_status p = Ready \<and> po_gross p = expected
     \<and> (let cs = filter (\<lambda>c. c_settlement c = Some pid) (credits s) in cs \<noteq> [] \<and> expected = sum_list (map c_gross cs)
         \<and> (\<forall>c \<in> set cs. c_settled c \<and> c_provider c = po_provider p \<and> c_ts c < po_end p \<and> payable now c s))
     \<and> credits s' = credits s
     \<and> payouts s' = map (\<lambda>q. if po_id q = pid then consume ext cur p else q) (payouts s)"
proof -
  have "ledger_inv s" unfolding assms(1) by (rule inv_after)
  from this assms(2) show ?thesis
    by (rule claim_true) (rule bexI, auto simp: sources_ok_def source_ok_def linked_def)
qed

theorem claim_pays_payable_credits_witness:
  "\<exists>p \<in> set (payouts (ledger_after sample_sha sample_settled)). po_id p = 1 \<and> po_gross p = 40
     \<and> 40 = sum_list (map c_gross (filter (\<lambda>c. c_settlement c = Some 1) (credits (ledger_after sample_sha sample_settled))))"
proof -
  have "snd (ClaimPayoutReady True 30 1 40 ''x'' ''usd'' (ledger_after sample_sha sample_settled)) = Inr True" by code_simp
  then show ?thesis
    using claim_pays_payable_credits [OF refl, of True 30 1 40 "''x''" "''usd''" sample_sha sample_settled]
    by (cases "ClaimPayoutReady True 30 1 40 ''x'' ''usd'' (ledger_after sample_sha sample_settled)") (auto simp: Let_def)
qed

text \<open>C31. A payout is paid once: after a successful claim, whatever the ledger does next, the payout keeps its amounts,
  its status and its external reference, no later claim of it succeeds, and the credits it paid stay settled to it with
  the same gross and provider amounts.
\<close>

theorem payout_paid_once:
  assumes "s = ledger_after sha ops" "ClaimPayoutReady ok now pid expected ext cur s = (s', Inr True)"
    "t = fold (exec_ledger sha) next_ops s'"
  shows "snd (ClaimPayoutReady ok2 now2 pid expected2 ext2 cur2 t) \<noteq> Inr True
    \<and> (\<exists>p \<in> set (payouts s). po_id p = pid \<and> po_gross p = expected \<and> consume ext cur p \<in> set (payouts t))
    \<and> (\<forall>c \<in> set (credits s). c_settlement c = Some pid \<longrightarrow> (\<exists>c' \<in> set (credits t). c_id c' = c_id c
       \<and> credit_key c' = credit_key c \<and> c_settled c' \<and> c_settlement c' = Some pid \<and> c_gross c' = c_gross c \<and> c_prov c' = c_prov c))"
proof -
  have inv: "ledger_inv s" unfolding assms(1) by (rule inv_after)
  obtain p where p: "p \<in> set (payouts s)" "po_id p = pid" "po_gross p = expected" "sources_ok now p s"
    and s': "credits s' = credits s" "ledger_inv s'" "payouts s' = map (\<lambda>q. if po_id q = pid then consume ext cur p else q) (payouts s)"
    by (rule claim_true [OF inv assms(2)])
  have f: "frozen s' t" unfolding assms(3) by (rule frozen_run [OF s'(2)])
  have t: "ledger_inv t" unfolding assms(3) by (rule ledger.run_inv [OF s'(2)]) simp
  have q: "consume ext cur p \<in> set (payouts s')" using p(1,2) unfolding s'(3) by (auto simp: image_iff intro!: bexI [of _ p])
  then have paid: "consume ext cur p \<in> set (payouts t)" using f by (auto simp: frozen_def consume_def)
  have "\<exists>x \<in> set (credits t). same_credit c x" if "c \<in> set (credits s)" "c_settlement c = Some pid" for c
    using f that p(2,4) s'(1) by (auto simp: frozen_def sources_ok_def source_ok_def linked_def)
  moreover have "snd (ClaimPayoutReady ok2 now2 pid expected2 ext2 cur2 t) \<noteq> Inr True"
  proof
    assume "snd (ClaimPayoutReady ok2 now2 pid expected2 ext2 cur2 t) = Inr True"
    then have "ClaimPayoutReady ok2 now2 pid expected2 ext2 cur2 t = (fst (ClaimPayoutReady ok2 now2 pid expected2 ext2 cur2 t), Inr True)"
      by (metis prod.collapse)
    then obtain q where q: "q \<in> set (payouts t)" "po_id q = pid" "po_status q = Ready" by (rule claim_true [OF t])
    have "q = consume ext cur p" by (rule payout_unique [OF t q(1) paid]) (simp add: q(2) p(2) consume_def)
    then show False using q(3) by (simp add: consume_def)
  qed
  ultimately show ?thesis using p paid by (auto simp: same_credit_def)
qed

theorem payout_paid_once_witness:
  "snd (ClaimPayoutReady True 50 1 40 ''y'' ''usd''
     (fst (RunSettlement True 7 1 0 10 40 (fst (ClaimPayoutReady True 30 1 40 ''x'' ''usd'' (ledger_after sample_sha sample_settled)))))) \<noteq> Inr True"
proof -
  have "snd (ClaimPayoutReady True 30 1 40 ''x'' ''usd'' (ledger_after sample_sha sample_settled)) = Inr True" by code_simp
  then have "ClaimPayoutReady True 30 1 40 ''x'' ''usd'' (ledger_after sample_sha sample_settled) =
      (fst (ClaimPayoutReady True 30 1 40 ''x'' ''usd'' (ledger_after sample_sha sample_settled)), Inr True)" by (metis prod.collapse)
  from payout_paid_once [OF refl this, of _ "[OpSettle True 7 1 0 10 40]"] show ?thesis by simp
qed


text \<open>The credits of a voided payout are never paid: the payout stays void and they stay settled to it, so that no
  settlement selects them again.\<close>

lemma voided_credits_stranded:
  assumes "ledger_inv s" "p \<in> set (payouts s)" "po_status p = Voided" "c \<in> set (credits s)" "c_settlement c = Some (po_id p)"
    "t = fold (exec_ledger sha) next_ops s"
  shows "p \<in> set (payouts t) \<and> (\<exists>c' \<in> set (credits t). same_credit c c' \<and> \<not> eligible now start fin c' t)"
proof -
  have "c_settled c" using assms(1,4,5) by (auto simp: ledger_inv_def core_def links_ok_def link_ok_def split: if_splits)
  moreover have f: "frozen s t" unfolding assms(6) by (rule frozen_run [OF assms(1)])
  ultimately obtain c' where "c' \<in> set (credits t)" "same_credit c c'" using assms(4) by (auto simp: frozen_def)
  then show ?thesis using f assms(2,3) by (auto simp: frozen_def eligible_def same_credit_def)
qed


section \<open>Settlement\<close>

text \<open>C32. A settlement that commits succeeds and settles everything that is due: with a positive cadence, a minimum that is
  not negative and sums within 64 bits, it returns without an error on every reachable ledger, and the credits that
  are settled afterwards are those settled before and the eligible ones whose provider's eligible total reaches the
  minimum and whose payout for the period is not already paid or void.
\<close>

theorem settlement_settles_what_is_due:
  assumes "s = ledger_after sha ops" "0 < cadence" "0 \<le> min_payout"
    and "rows = filter (\<lambda>c. eligible now start fin c s) (credits s)"
    and "\<forall>c \<in> set rows. sums_fit (group_of rows (c_provider c))"
    and "RunSettlement True cadence min_payout start fin now s = (s', r)"
  shows "r = Inr () \<and> map (\<lambda>c. (c_id c, c_settled c)) (credits s') =
    map (\<lambda>c. (c_id c, c_settled c \<or> (eligible now start fin c s
       \<and> min_payout \<le> sum_list (map c_prov (filter (\<lambda>x. c_provider x = c_provider c) rows))
       \<and> \<not> (\<exists>p \<in> set (payouts s). payout_key p = (c_provider c, start, fin) \<and> po_status p \<noteq> Ready)))) (credits s)"
proof -
  have inv: "ledger_inv s" unfolding assms(1) by (rule inv_after)
  have rows: "rows = eligible_rows now start fin s" by (simp add: assms(4) eligible_rows_def)
  obtain t where t: "settlement_body cadence min_payout start fin now s = Inr t"
    and f: "settled_flags (credits t) = settle_flags (\<lambda>i q. due_provider min_payout rows q \<and> \<not> blocked start fin q s
      \<and> i \<in> set (map c_id rows)) (settled_flags (credits s))"
    using settlement_result [OF inv assms(2,3) rows] assms(5) by auto
  have s': "s' = t" "r = Inr ()" using assms(6) t by (simp_all add: RunSettlement_def Transact_def)
  have e: "c_id c \<in> set (map c_id rows) \<longleftrightarrow> eligible now start fin c s" if "c \<in> set (credits s)" for c
    using inv that by (auto simp: assms(4) ledger_inv_def core_def rows_ok_def distinct_map inj_on_def)
  have "map (\<lambda>(i, q, b). (i, b)) (settled_flags (credits t)) = map (\<lambda>c. (c_id c, c_settled c \<or> (due_provider min_payout rows (c_provider c)
      \<and> \<not> blocked start fin (c_provider c) s \<and> c_id c \<in> set (map c_id rows)))) (credits s)"
    unfolding f by (simp add: settle_flags_def settled_flags_def)
  also have "\<dots> = map (\<lambda>c. (c_id c, c_settled c \<or> (eligible now start fin c s
       \<and> min_payout \<le> sum_list (map c_prov (filter (\<lambda>x. c_provider x = c_provider c) rows)) \<and> \<not> blocked start fin (c_provider c) s))) (credits s)"
    by (rule map_cong [OF refl]) (use e in \<open>auto simp: due_provider_def assms(4)\<close>)
  finally show ?thesis by (simp add: s' settled_flags_def blocked_def comp_def)
qed

theorem settlement_settles_what_is_due_witness:
  "map (\<lambda>c. (c_id c, c_settled c)) (credits (fst (RunSettlement True 7 1 0 10 20 (ledger_after sample_sha sample_billed)))) = [(1, True)]"
proof -
  let ?s = "ledger_after sample_sha sample_billed"
  have fit: "\<forall>c \<in> set (filter (\<lambda>c. eligible 20 0 10 c ?s) (credits ?s)).
      sums_fit (group_of (filter (\<lambda>c. eligible 20 0 10 c ?s) (credits ?s)) (c_provider c))" by code_simp
  have rhs: "map (\<lambda>c. (c_id c, c_settled c \<or> (eligible 20 0 10 c ?s
       \<and> 1 \<le> sum_list (map c_prov (filter (\<lambda>x. c_provider x = c_provider c) (filter (\<lambda>c. eligible 20 0 10 c ?s) (credits ?s))))
       \<and> \<not> (\<exists>p \<in> set (payouts ?s). payout_key p = (c_provider c, 0, 10) \<and> po_status p \<noteq> Ready)))) (credits ?s) = [(1, True)]" by code_simp
  show ?thesis
    using settlement_settles_what_is_due [OF refl _ _ refl fit prod.collapse [symmetric], of 7 1] unfolding rhs by simp
qed



section \<open>Rows\<close>

text \<open>C33. Every reachable ledger is well typed: credits and payouts satisfy the schema's checks and have distinct ids and
  distinct keys (so an attempt is billed at most once per provider), a provider's share is never more than the gross
  amount, each credit that is not quarantined has exactly one operator row and the two shares add up to the gross
  amount, and a credit has at most two resolutions, of different kinds.
\<close>

theorem ledger_rows_well_typed:
  assumes "s = ledger_after sha ops"
  shows "distinct (map c_id (credits s)) \<and> distinct (map credit_key (credits s)) \<and> list_all credit_check (credits s)
    \<and> distinct (map po_id (payouts s)) \<and> distinct (map payout_key (payouts s)) \<and> list_all payout_check (payouts s)
    \<and> (\<forall>c \<in> set (credits s). 0 \<le> c_prov c \<and> c_prov c \<le> c_gross c
        \<and> (\<not> c_quarantined c \<longrightarrow> (\<exists>x. filter (\<lambda>x. oc_credit x = c_id c) (operators s) = [x] \<and> oc_credits x + c_prov c = c_gross c)))
    \<and> (\<forall>i. map qr_kind (filter (\<lambda>r. qr_credit r = i) (resolutions s)) \<in> {[], [ForceVoid], [ForceCredit],
        [ForceVoid, ForceCredit], [ForceCredit, ForceVoid]})"
proof -
  have inv: "ledger_inv s" unfolding assms by (rule inv_after)
  then have rows: "rows_ok s" and pays: "payouts_ok s" and split: "split_ok s" and res: "resolutions_ok s"
    by (simp_all add: ledger_inv_def core_def)
  have one: "\<exists>x. os = [x] \<and> oc_credits x + p = g" if "\<not> (length os \<noteq> 1 \<or> sum_list (map oc_credits os) + p \<noteq> g)" for os p g
    using that by (cases os) auto
  have "\<exists>x. filter (\<lambda>x. oc_credit x = c_id c) (operators s) = [x] \<and> oc_credits x + c_prov c = c_gross c"
    if "c \<in> set (credits s)" "\<not> c_quarantined c" for c
    by (rule one) (use split that in \<open>simp add: split_ok_def split_mismatch_def Let_def\<close>)
  moreover have kinds: "ks \<in> {[], [ForceVoid], [ForceCredit], [ForceVoid, ForceCredit], [ForceCredit, ForceVoid]}"
    if "length ks \<le> 2" "distinct ks" for ks
    using that by (cases ks; cases "tl ks"; cases "hd ks"; cases "hd (tl ks)") auto
  have "map qr_kind (filter (\<lambda>r. qr_credit r = i) (resolutions s)) \<in> {[], [ForceVoid], [ForceCredit],
        [ForceVoid, ForceCredit], [ForceCredit, ForceVoid]}" for i
    by (rule kinds) (use res in \<open>auto simp: resolutions_ok_def resolutions_of_def\<close>)
  moreover have "0 \<le> c_prov c \<and> c_prov c \<le> c_gross c" if "c \<in> set (credits s)" for c
    using split that prov_nonneg [OF inv that] by (simp add: split_ok_def)
  ultimately show ?thesis using rows pays by (simp add: rows_ok_def payouts_ok_def list_all_iff)
qed

theorem ledger_rows_well_typed_witness:
  "\<exists>c cs. credits (ledger_after sample_sha sample_settled) = c # cs \<and> 0 \<le> c_prov c \<and> c_prov c \<le> c_gross c"
proof -
  have "credits (ledger_after sample_sha sample_settled) \<noteq> []" by code_simp
  then obtain c cs where "credits (ledger_after sample_sha sample_settled) = c # cs" by (meson neq_Nil_conv)
  then show ?thesis using ledger_rows_well_typed [OF refl, of sample_sha sample_settled] by simp
qed

text \<open>C34. A write of the hot path bills at most what the coordinator counted: when it has bounded the prompt and the
  attempt is not under enforced receipts, a committed write leaves the credits as they are or appends one unsettled
  credit, for the request and provider of the input, whose prompt tokens do not exceed the bound whatever the provider
  reported, and which carries no money when it is quarantined.
\<close>

theorem hot_path_prompt_bounded:
  assumes "writeHotPath sha ok now account r i s = (s', Inr ())" "in_PromptBound i = Some b" "in_PolicyMode i \<noteq> ''enforce''"
  shows "credits s' = credits s \<or> (\<exists>c. credits s' = credits s @ [c] \<and> c_id c = next_credit s
     \<and> c_request c = in_RequestID i \<and> c_provider c = in_ProviderID i \<and> \<not> c_settled c \<and> c_settlement c = None
     \<and> (\<forall>n. c_prompt c = Some n \<longrightarrow> n \<le> max b 0) \<and> (c_quarantined c \<longrightarrow> c_gross c = 0 \<and> c_prov c = 0))"
proof -
  define j where "j = boundProviderReportedPromptTokens i"
  have j: "in_RequestID j = in_RequestID i" "in_ProviderID j = in_ProviderID i" "in_PolicyMode j = in_PolicyMode i"
    by (simp_all add: j_def boundProviderReportedPromptTokens_def Let_def split: option.splits)
  have p: "\<forall>n. in_Prompt j = Some n \<longrightarrow> n \<le> max b 0"
    using assms(2) by (auto simp: j_def boundProviderReportedPromptTokens_def Let_def split: option.splits if_splits)
  obtain r' where "hot_path_body sha now r' j s = Inr s'"
    using assms(1) by (auto simp: writeHotPath_def Let_def j_def Transact_def map_sum_unit split: sum.splits if_splits)
  from hot_path_row [OF this] assms(3) have "credits s' = credits s \<or> (\<exists>c. credits s' = credits s @ [c] \<and> new_row j s c)"
    by (simp add: j)
  then show ?thesis using p by (auto simp: new_row_def j)
qed

theorem hot_path_prompt_bounded_witness:
  "\<exists>c. credits (fst (writeHotPath sample_sha True 9 None sample_log sample_input empty_ledger)) = [c]
     \<and> in_Prompt sample_input = Some 30 \<and> (\<forall>n. c_prompt c = Some n \<longrightarrow> n \<le> 20)"
proof -
  have ok: "snd (writeHotPath sample_sha True 9 None sample_log sample_input empty_ledger) = Inr ()" by code_simp
  have row: "credits (fst (writeHotPath sample_sha True 9 None sample_log sample_input empty_ledger)) \<noteq> []" by code_simp
  have "in_PromptBound sample_input = Some 20" "in_PolicyMode sample_input \<noteq> ''enforce''" "in_Prompt sample_input = Some 30"
    by (simp_all add: sample_input_def)
  then show ?thesis
    using hot_path_prompt_bounded [of sample_sha True 9 None sample_log sample_input empty_ledger _ 20] ok row
    by (cases "writeHotPath sample_sha True 9 None sample_log sample_input empty_ledger") (auto simp: empty_ledger_def)
qed

text \<open>C35. Recovery never accepts a credit that carries a provider's fault: it recomputes the expected row without one, so
  a stored credit flagged as breaker qualifying that is neither quarantined nor estimated from bytes always mismatches.
  It is quarantined while it is open, and once it is settled the reconciliation fails.
\<close>

theorem breaker_row_fails_reconciliation:
  assumes "s = ledger_after sha ops" "c \<in> set (credits s)" "credit_key c = (in_RequestID i, in_AttemptN i, in_ProviderID i)"
    "c_fault c = ''breaker_qualifying''" "\<not> c_quarantined c" "c_usage c \<noteq> ''byte_estimated''" "in_Fault i = ''none''"
  shows "if c_settled c then reconcileExistingCreditTx i (cached_credits i) s = Inl SettledMismatch
    else \<exists>s' res. reconcileExistingCreditTx i (cached_credits i) s = Inr (s', res) \<and> rc_mismatch res
      \<and> quarantine_row ''reconciliation_mismatch'' c \<in> set (credits s')"
proof -
  have inv: "ledger_inv s" unfolding assms(1) by (rule inv_after)
  have one: "x = c" if "x \<in> set (credits s)" "credit_key x = credit_key c" for x
    using inv that assms(2) by (auto simp: ledger_inv_def core_def rows_ok_def distinct_map inj_on_def)
  obtain x where x: "find (\<lambda>c. credit_key c = (in_RequestID i, in_AttemptN i, in_ProviderID i)) (credits s) = Some x"
    using assms(2,3) by (cases "find (\<lambda>c. credit_key c = (in_RequestID i, in_AttemptN i, in_ProviderID i)) (credits s)")
      (auto simp: find_None_iff)
  have "x = c" using one find_key [OF x] assms(3) by simp
  note r = reconcile_breaker [OF x [unfolded \<open>x = c\<close>] _ assms(5,6), unfolded assms(4,7)]
  have l: "link_ok s c" "credit_check c" using inv assms(2) by (simp_all add: ledger_inv_def core_def links_ok_def rows_ok_def)
  show ?thesis
  proof (cases "c_settled c")
    case True
    then show ?thesis using r by simp
  next
    case False
    have guard: "settled_guard y (quarantine_row q y)" "credit_check (quarantine_row q y) = credit_check y" for y q
      by (simp_all add: quarantine_row_def settled_guard_def money_of_def credit_check_def)
    have "update_credits (\<lambda>y. c_id y = c_id c) (quarantine_row ''reconciliation_mismatch'') s =
        Inr (s\<lparr>credits := update_where (\<lambda>y. c_id y = c_id c) (quarantine_row ''reconciliation_mismatch'') (credits s)\<rparr>)"
      using inv by (simp add: update_credits_def guard ledger_inv_def core_def rows_ok_def)
    moreover have "c_settlement c = None" using l(1) False by (simp add: link_ok_def)
    ultimately show ?thesis using False r assms(2) by (auto simp: set_update_where)
  qed
qed


definition faulted_input :: HotPathInput where
  "faulted_input = sample_input\<lparr>in_Fault := ''breaker_qualifying''\<rparr>"

definition faulted_settled :: "ledger_op list" where
  "faulted_settled = [OpSnapshot \<lparr>cs_id = 1, cs_effective = 1, cs_share = 9000, cs_multiplier = 1000000,
     cs_card = Some [(''m'', in_Rate sample_input)]\<rparr>, OpHotPath True 9 None sample_log faulted_input, OpSettle True 7 0 0 10 20]"

theorem breaker_row_fails_reconciliation_witness:
  "reconcileExistingCreditTx (sample_input\<lparr>in_Fault := ''none''\<rparr>) (cached_credits (sample_input\<lparr>in_Fault := ''none''\<rparr>))
     (ledger_after sample_sha faulted_settled) = Inl SettledMismatch"
proof -
  have "map (\<lambda>c. (credit_key c, c_fault c, c_quarantined c, c_usage c = ''byte_estimated'', c_settled c))
      (credits (ledger_after sample_sha faulted_settled)) = [((''r'', 0, ''p''), ''breaker_qualifying'', False, False, True)]"
    by code_simp
  then obtain c where "c \<in> set (credits (ledger_after sample_sha faulted_settled))" "credit_key c = (''r'', 0, ''p'')"
    "c_fault c = ''breaker_qualifying''" "\<not> c_quarantined c" "c_usage c \<noteq> ''byte_estimated''" "c_settled c"
    by (auto simp: map_eq_Cons_conv)
  then show ?thesis
    using breaker_row_fails_reconciliation [OF refl, of c sample_sha faulted_settled "sample_input\<lparr>in_Fault := ''none''\<rparr>"]
    by (simp add: sample_input_def)
qed

text \<open>The whole recovery run then fails and is rolled back.\<close>

lemma faulted_row_blocks_recovery:
  "snd (RecoverLedger sample_sha True True [] 0 100 (ledger_after sample_sha faulted_settled)) = Inl SettledMismatch"
  by code_simp

end
