(* ===== verification/Payout_RLP.thy ===== *)
theory Payout_RLP
  imports Go_Prelude
begin

text \<open>
  Byte-level encoding of the payout transactions (the encoder and the two decoders at the end of
  \<open>internal/payout/evm.go\<close>). Bytes are \<open>8 word\<close>, \<open>uint64\<close> is \<open>64 word\<close>, lengths are Go \<open>int\<close>s with their
  wrap-around. A function that can index or slice out of range returns \<open>Panic\<close> there, which is
  different from returning an error.
\<close>

unbundle bit_operations_syntax

type_synonym byte = "8 word"

datatype 'a outcome = Done 'a | Fail | Panic

primrec bind_outcome :: "'a outcome \<Rightarrow> ('a \<Rightarrow> 'b outcome) \<Rightarrow> 'b outcome" where
  "bind_outcome (Done x) f = f x"
| "bind_outcome Fail f = Fail"
| "bind_outcome Panic f = Panic"

text \<open>\<open>b[lo:hi]\<close>, for \<open>hi\<close> up to the length.\<close>

definition slice :: "'a list \<Rightarrow> int \<Rightarrow> int \<Rightarrow> 'a list outcome" where
  "slice b lo hi = (if 0 \<le> lo \<and> lo \<le> hi \<and> hi \<le> int (length b) then Done (take (nat (hi - lo)) (drop (nat lo) b)) else Panic)"


section \<open>Integers as bytes\<close>

definition trimLeadingZeros :: "byte list \<Rightarrow> byte list" where
  "trimLeadingZeros b = dropWhile (\<lambda>x. x = 0) b"

definition binaryBigEndianPutUint64 :: "64 word \<Rightarrow> byte list" where
  "binaryBigEndianPutUint64 v = map (\<lambda>i. ucast (drop_bit i v)) [56, 48, 40, 32, 24, 16, 8, 0]"

definition bigEndianLen :: "64 word \<Rightarrow> byte list" where
  "bigEndianLen v = trimLeadingZeros (binaryBigEndianPutUint64 v)"

definition bigEndianRead :: "byte list \<Rightarrow> 64 word" where
  "bigEndianRead b = foldl (\<lambda>v x. push_bit 8 v OR ucast x) 0 b"

definition rlpItemUint :: "byte list \<Rightarrow> 64 word outcome" where
  "rlpItemUint b = (if length b > 8 then Fail else Done (foldl (\<lambda>v x. push_bit 8 v OR ucast x) 0 b))"

text \<open>\<open>big.Int\<close>: \<open>Bytes\<close> is the absolute value without leading zeros, \<open>SetBytes\<close> reads it back.\<close>

fun be_bytes :: "nat \<Rightarrow> byte list" where
  "be_bytes n = (if n = 0 then [] else be_bytes (n div 256) @ [of_nat (n mod 256)])"

declare be_bytes.simps [simp del]

definition be_value :: "byte list \<Rightarrow> nat" where
  "be_value b = foldl (\<lambda>v x. 256 * v + unat x) 0 b"

definition Bytes :: "int \<Rightarrow> byte list" where
  "Bytes i = be_bytes (nat \<bar>i\<bar>)"

definition SetBytes :: "byte list \<Rightarrow> int" where
  "SetBytes b = int (be_value b)"


section \<open>Encoder\<close>

definition rlpBytes :: "byte list \<Rightarrow> byte list" where
  "rlpBytes b =
    (if b = [] then [0x80]
     else if length b = 1 \<and> hd b < 0x80 then [hd b]
     else if length b \<le> 55 then (0x80 + of_nat (length b)) # b
     else let lenBytes = bigEndianLen (of_nat (length b)) in (0xb7 + of_nat (length lenBytes)) # lenBytes @ b)"

definition rlpUint :: "64 word \<Rightarrow> byte list" where
  "rlpUint v = (if v = 0 then [0x80] else rlpBytes (trimLeadingZeros (binaryBigEndianPutUint64 v)))"

text \<open>\<open>None\<close> is the nil pointer.\<close>

definition rlpBigInt :: "int option \<Rightarrow> byte list" where
  "rlpBigInt v = (case v of None \<Rightarrow> [0x80] | Some i \<Rightarrow> if i = 0 then [0x80] else rlpBytes (trimLeadingZeros (Bytes i)))"

definition rlpList :: "byte list list \<Rightarrow> byte list" where
  "rlpList items =
    (let total = length (concat items) in
     if total = 0 then [0xc0]
     else if total \<le> 55 then (0xc0 + of_nat total) # concat items
     else let lenBytes = bigEndianLen (of_nat total) in (0xf7 + of_nat (length lenBytes)) # lenBytes @ concat items)"


section \<open>Decoders\<close>

datatype rlpKind = rlpKindString | rlpKindList

definition rlpDecodeItemWithKind :: "byte list \<Rightarrow> (byte list \<times> int \<times> rlpKind) outcome" where
  "rlpDecodeItemWithKind b = (case b of [] \<Rightarrow> Fail | prefix # _ \<Rightarrow>
     let n = int (length b) in
     if prefix < 0x80 then Done ([prefix], 1, rlpKindString)
     else if prefix = 0x80 then Done ([], 1, rlpKindString)
     else if prefix \<le> 0xb7 then
       (let l = uint (prefix - 0x80) in
        if n < 1 + l then Fail
        else bind_outcome (slice b 1 (1 + l)) (\<lambda>x. Done (x, 1 + l, rlpKindString)))
     else if prefix \<le> 0xbf then
       (let ll = uint (prefix - 0xb7) in
        if n < 1 + ll then Fail
        else bind_outcome (slice b 1 (1 + ll)) (\<lambda>lenBytes.
          let l = sint (bigEndianRead lenBytes); end = i64 (1 + ll + l) in
          if n < end then Fail
          else bind_outcome (slice b (1 + ll) end) (\<lambda>x. Done (x, end, rlpKindString))))
     else if prefix = 0xc0 then Done ([], 1, rlpKindList)
     else Fail)"

text \<open>Payload length and header length of a list, and the payload.\<close>

definition list_payload :: "byte list \<Rightarrow> (byte list \<times> int) outcome" where
  "list_payload b = (case b of [] \<Rightarrow> Fail | prefix # _ \<Rightarrow>
     let n = int (length b) in
     if prefix < 0xc0 then Fail
     else bind_outcome
       (if prefix \<le> 0xf7 then Done (uint (prefix - 0xc0), 1)
        else let ll = uint (prefix - 0xf7) in
          if n < 1 + ll then Fail
          else bind_outcome (slice b 1 (1 + ll)) (\<lambda>lenBytes. Done (sint (bigEndianRead lenBytes), 1 + ll)))
       (\<lambda>(payloadLen, headerLen).
          let end = i64 (headerLen + payloadLen) in
          if n < end then Fail
          else bind_outcome (slice b headerLen end) (\<lambda>payload. Done (payload, end))))"

lemma slice_Done: "slice b lo hi = Done x \<Longrightarrow> lo \<le> hi \<and> hi \<le> int (length b) \<and> x = take (nat (hi - lo)) (drop (nat lo) b)"
  by (auto simp: slice_def split: if_splits)

lemma bind_outcome_Done: "bind_outcome x f = Done z \<longleftrightarrow> (\<exists>y. x = Done y \<and> f y = Done z)"
  by (cases x) auto

lemma item_used:
  assumes "rlpDecodeItemWithKind b = Done (x, used, k)"
  shows "1 \<le> used \<and> used \<le> int (length b)"
proof (cases b)
  case Nil
  then show ?thesis using assms by (simp add: rlpDecodeItemWithKind_def)
next
  case (Cons p t)
  have pos: "0 \<le> uint (w :: byte)" for w by simp
  show ?thesis using assms Cons
    by (auto simp: rlpDecodeItemWithKind_def Let_def bind_outcome_Done split: if_splits dest!: slice_Done)
      (use pos order_trans [of 1 "1 + uint (p - 183)"] in force)+
qed

function decode_items :: "byte list \<Rightarrow> (byte list \<times> rlpKind) list outcome" where
  "decode_items payload =
    (if payload = [] then Done []
     else case rlpDecodeItemWithKind payload of
         Fail \<Rightarrow> Fail | Panic \<Rightarrow> Panic
       | Done (item, used, kind) \<Rightarrow> bind_outcome (decode_items (drop (nat used) payload)) (\<lambda>rest. Done ((item, kind) # rest)))"
  by auto
termination
proof (relation "measure length", simp)
  fix payload :: "byte list" and x used k and y z :: "int \<times> rlpKind"
  show "\<And>x xa y xb ya. payload \<noteq> [] \<Longrightarrow> rlpDecodeItemWithKind payload = Done x \<Longrightarrow> (xa, y) = x \<Longrightarrow> (xb, ya) = y
    \<Longrightarrow> (drop (nat xb) payload, payload) \<in> measure length"
    using item_used by fastforce
qed

declare decode_items.simps [simp del]

definition rlpDecodeListWithKinds :: "byte list \<Rightarrow> (byte list list \<times> int \<times> rlpKind list) outcome" where
  "rlpDecodeListWithKinds b = bind_outcome (list_payload b) (\<lambda>(payload, consumed).
     bind_outcome (decode_items payload) (\<lambda>items. Done (map fst items, consumed, map snd items)))"



text \<open>The decoder without kinds, which the signer uses, is a second copy of the code.\<close>

definition rlpDecodeItem :: "byte list \<Rightarrow> (byte list \<times> int) outcome" where
  "rlpDecodeItem b = (case b of [] \<Rightarrow> Fail | prefix # _ \<Rightarrow>
     let n = int (length b) in
     if prefix < 0x80 then Done ([prefix], 1)
     else if prefix = 0x80 then Done ([], 1)
     else if prefix \<le> 0xb7 then
       (let l = uint (prefix - 0x80) in
        if n < 1 + l then Fail else bind_outcome (slice b 1 (1 + l)) (\<lambda>x. Done (x, 1 + l)))
     else if prefix \<le> 0xbf then
       (let ll = uint (prefix - 0xb7) in
        if n < 1 + ll then Fail
        else bind_outcome (slice b 1 (1 + ll)) (\<lambda>lenBytes.
          let l = sint (bigEndianRead lenBytes); end = i64 (1 + ll + l) in
          if n < end then Fail else bind_outcome (slice b (1 + ll) end) (\<lambda>x. Done (x, end))))
     else if prefix = 0xc0 then Done ([], 1)
     else Fail)"

lemma item_without_kind: "rlpDecodeItem b = bind_outcome (rlpDecodeItemWithKind b) (\<lambda>(x, used, k). Done (x, used))"
proof -
  have assoc: "bind_outcome (bind_outcome x f) g = bind_outcome x (\<lambda>y. bind_outcome (f y) g)"
    for x :: "'c outcome" and f :: "'c \<Rightarrow> 'd outcome" and g :: "'d \<Rightarrow> 'e outcome" by (cases x) auto
  show ?thesis
    by (auto simp: rlpDecodeItem_def rlpDecodeItemWithKind_def Let_def assoc split: list.splits)
      (auto simp: assoc intro!: arg_cong [where f = "bind_outcome _"])
qed

function plain_items :: "byte list \<Rightarrow> byte list list outcome" where
  "plain_items payload =
    (if payload = [] then Done []
     else case rlpDecodeItem payload of
         Fail \<Rightarrow> Fail | Panic \<Rightarrow> Panic
       | Done (item, used) \<Rightarrow> bind_outcome (plain_items (drop (nat used) payload)) (\<lambda>rest. Done (item # rest)))"
  by auto
termination
proof (relation "measure length", simp)
  show "\<And>payload x xa y. payload \<noteq> [] \<Longrightarrow> rlpDecodeItem payload = Done x \<Longrightarrow> (xa, y) = x
    \<Longrightarrow> (drop (nat y) payload, payload) \<in> measure length"
    using item_used by (fastforce simp: item_without_kind bind_outcome_Done)
qed

declare plain_items.simps [simp del]

definition rlpDecodeList :: "byte list \<Rightarrow> (byte list list \<times> int) outcome" where
  "rlpDecodeList b = bind_outcome (list_payload b) (\<lambda>(payload, consumed).
     bind_outcome (plain_items payload) (\<lambda>items. Done (items, consumed)))"

lemma plain_items_eq: "plain_items p = bind_outcome (decode_items p) (\<lambda>items. Done (map fst items))"
proof (induction p rule: decode_items.induct)
  case (1 p)
  show ?case
  proof (cases "p = []")
    case False
    show ?thesis
    proof (cases "rlpDecodeItemWithKind p")
      case (Done r)
      obtain x used k where r: "r = (x, used, k)" by (cases r)
      have "plain_items (drop (nat used) p) = bind_outcome (decode_items (drop (nat used) p)) (\<lambda>items. Done (map fst items))"
        using 1 [OF False Done] r by blast
      then show ?thesis using False Done r
        by (subst plain_items.simps, subst decode_items.simps) (cases "decode_items (drop (nat used) p)"; simp add: item_without_kind)
    qed (use False in \<open>simp_all add: plain_items.simps decode_items.simps item_without_kind\<close>)
  qed (simp add: plain_items.simps decode_items.simps)
qed

lemma list_without_kinds: "rlpDecodeList b = bind_outcome (rlpDecodeListWithKinds b) (\<lambda>(items, consumed, kinds). Done (items, consumed))"
proof (cases "list_payload b")
  case (Done r)
  obtain p c where "r = (p, c)" by (cases r)
  then show ?thesis using Done by (cases "decode_items p") (simp_all add: rlpDecodeList_def rlpDecodeListWithKinds_def plain_items_eq)
qed (simp_all add: rlpDecodeList_def rlpDecodeListWithKinds_def)


section \<open>Round trips\<close>

lemma be_value_Nil [simp]: "be_value [] = 0"
  by (simp add: be_value_def)

lemma be_value_snoc [simp]: "be_value (b @ [x]) = 256 * be_value b + unat x"
  by (simp add: be_value_def)

lemma be_value_Cons: "be_value (x # b) = unat x * 256 ^ length b + be_value b"
  by (induction b rule: rev_induct) (simp_all add: be_value_snoc [of "x # _", simplified] algebra_simps, simp add: be_value_def)

lemma be_value_trim [simp]: "be_value (trimLeadingZeros b) = be_value b"
  by (induction b) (auto simp: trimLeadingZeros_def be_value_Cons)

lemma be_bytes_value [simp]: "be_value (be_bytes n) = n"
proof (induction n rule: be_bytes.induct)
  case (1 n)
  have "unat (of_nat (n mod 256) :: byte) = n mod 256" by (simp add: unat_of_nat)
  then show ?case using 1 by (subst be_bytes.simps) simp
qed

lemma be_bytes_trim: "trimLeadingZeros (be_bytes n) = be_bytes n"
proof (induction n rule: be_bytes.induct)
  case (1 n)
  show ?case
  proof (cases "n < 256")
    case True
    then have "unat (of_nat n :: byte) = n" by (simp add: unat_of_nat)
    then have "n \<noteq> 0 \<Longrightarrow> (of_nat n :: byte) \<noteq> 0" by auto
    then show ?thesis using True by (simp add: be_bytes.simps [of n] be_bytes.simps [of 0] trimLeadingZeros_def)
  next
    case False
    then have ne: "be_bytes (n div 256) \<noteq> []" by (subst be_bytes.simps) auto
    have ih: "dropWhile (\<lambda>x. x = 0) (be_bytes (n div 256)) = be_bytes (n div 256)" using 1 False by (simp add: trimLeadingZeros_def)
    then have "\<exists>x\<in>set (be_bytes (n div 256)). x \<noteq> 0" using ne by (metis (full_types) dropWhile_eq_Nil_conv)
    then have "dropWhile (\<lambda>x. x = 0) (be_bytes (n div 256) @ y) = be_bytes (n div 256) @ y" for y
      using ih by (auto simp: dropWhile_append)
    then show ?thesis using False by (simp add: be_bytes.simps [of n] trimLeadingZeros_def)
  qed
qed

lemma SetBytes_Bytes [simp]: "0 \<le> i \<Longrightarrow> SetBytes (Bytes i) = i"
  by (simp add: SetBytes_def Bytes_def)

lemma shift_in: "(push_bit 8 v OR ucast x :: 64 word) = 256 * v + ucast (x :: byte)"
proof -
  have "push_bit 8 v AND ucast x = (0 :: 64 word)"
    by (rule bit_eqI) (auto simp: bit_and_iff bit_push_bit_iff bit_ucast_iff dest: bit_imp_le_length)
  then have "push_bit 8 v OR ucast x = push_bit 8 v + (ucast x :: 64 word)" using word_plus_and_or [of "push_bit 8 v" "ucast x"] by simp
  then show ?thesis by (simp add: push_bit_eq_mult)
qed

lemma read_value: "bigEndianRead b = of_nat (be_value b)"
proof (induction b rule: rev_induct)
  case (snoc x b)
  have "(ucast x :: 64 word) = of_nat (unat x)" by simp
  then show ?case using snoc by (simp add: bigEndianRead_def shift_in be_value_def [symmetric])
qed (simp add: bigEndianRead_def)

lemma digits_value:
  "be_value (map (\<lambda>i. of_nat (n div 256 ^ i)) (rev [0..<k])) = n mod 256 ^ k"
proof (induction k)
  case (Suc k)
  have "unat (of_nat (n div 256 ^ k) :: byte) = n div 256 ^ k mod 256" by (simp add: unat_of_nat)
  moreover have "n mod 256 ^ Suc k = 256 ^ k * (n div 256 ^ k mod 256) + n mod 256 ^ k"
    unfolding power_Suc2 by (rule mod_mult2_eq)
  ultimately show ?case using Suc by (simp add: be_value_Cons mult.commute)
qed simp

lemma put_digits: "binaryBigEndianPutUint64 v = map (\<lambda>i. of_nat (unat v div 256 ^ i)) (rev [0..<8])"
proof -
  have "(ucast (drop_bit i v) :: byte) = of_nat (unat v div 2 ^ i)" for i
  proof -
    have "unat v div 2 ^ i = unat (drop_bit i v)" unfolding unat_drop_bit_eq by (rule drop_bit_eq_div [symmetric])
    then show ?thesis by simp
  qed
  moreover have "rev [0..<8] = [7, 6, 5, 4, 3, 2, 1, 0 :: nat]" by (simp add: upt_rec)
  ultimately show ?thesis by (simp add: binaryBigEndianPutUint64_def)
qed

lemma put_value: "be_value (binaryBigEndianPutUint64 v) = unat v"
  proof -
  have "unat v < 2 ^ LENGTH(64)" by (rule unsigned_less)
  then show ?thesis unfolding put_digits digits_value by simp
qed

lemma put_length [simp]: "length (binaryBigEndianPutUint64 v) = 8"
  by (simp add: binaryBigEndianPutUint64_def)

lemma trim_length: "length (trimLeadingZeros b) \<le> length b"
  by (simp add: trimLeadingZeros_def length_dropWhile_le)

lemma read_len [simp]: "bigEndianRead (bigEndianLen v) = v"
  by (simp add: bigEndianLen_def read_value put_value)

lemma len_bounds: "length (bigEndianLen v) \<le> 8" "v \<noteq> 0 \<Longrightarrow> bigEndianLen v \<noteq> []"
proof -
  show "length (bigEndianLen v) \<le> 8" using trim_length [of "binaryBigEndianPutUint64 v"] by (simp add: bigEndianLen_def)
  show "v \<noteq> 0 \<Longrightarrow> bigEndianLen v \<noteq> []" using read_len [of v] by (auto simp: bigEndianRead_def)
qed


lemma slice_mid: "lo = int (length a) \<Longrightarrow> hi = int (length a + length x) \<Longrightarrow> slice (a @ x @ c) lo hi = Done x"
  by (simp add: slice_def)

lemma byte_offset:
  assumes "c + n < 256"
  shows "unat (of_nat c + of_nat n :: byte) = c + n" "(of_nat c + of_nat n :: byte) - of_nat c = of_nat n" "uint (of_nat n :: byte) = int n"
proof -
  show "unat (of_nat c + of_nat n :: byte) = c + n" using assms by (simp add: unat_of_nat flip: of_nat_add)
  show "uint (of_nat n :: byte) = int n" using assms by (simp add: uint_nat unat_of_nat)
qed simp

lemma byte_ne: "unat (w :: byte) \<noteq> 128 \<Longrightarrow> w \<noteq> 0x80"
  by auto

lemma sint_length:
  assumes "n < 2 ^ 62"
  shows "sint (of_nat n :: 64 word) = int n"
proof -
  have "sint (of_nat n :: 64 word) = signed_take_bit 63 (int n)" by (simp add: signed_of_nat)
  also have "\<dots> = int n" using assms by (intro signed_take_bit_int_eq_self) auto
  finally show ?thesis .
qed

lemma i64_length: "0 \<le> x \<Longrightarrow> x < 2 ^ 62 \<Longrightarrow> 0 \<le> y \<Longrightarrow> y \<le> 9 \<Longrightarrow> i64 (y + x) = y + x"
  by (intro i64_id) (simp add: fits_i64_def min_i64_def max_i64_def)

lemma decode_bytes:
  assumes "length b < 2 ^ 62"
  shows "rlpDecodeItemWithKind (rlpBytes b @ rest) = Done (b, int (length (rlpBytes b)), rlpKindString)"
proof -
  consider "b = []" | x where "b = [x]" "x < 0x80" | (short) "b \<noteq> []" "length b \<le> 55" "\<not> (length b = 1 \<and> hd b < 0x80)" | (long) "55 < length b"
    by (cases b; cases "tl b"; cases "length b \<le> 55") auto
  then show ?thesis
  proof cases
    case short
    let ?n = "length b" and ?p = "0x80 + of_nat (length b) :: byte"
    have n: "1 \<le> ?n" using short(1) by (cases b) auto
    note o = byte_offset [of 128 ?n, simplified]
    have p: "unat ?p = 128 + ?n" "?p - 0x80 = of_nat ?n" "uint (of_nat ?n :: byte) = int ?n" using o short(2) by simp_all
    have le: "\<not> ?p < 0x80" "?p \<noteq> 0x80" "?p \<le> 0xb7" using p(1) n short(2) by (auto simp: word_less_nat_alt word_le_nat_alt)
    have e: "rlpBytes b = ?p # b" using short by (auto simp: rlpBytes_def)
    have "slice (?p # b @ rest) 1 (1 + int ?n) = Done b" using slice_mid [of 1 "[?p]" "1 + int ?n" b rest] by simp
    then show ?thesis using le by (simp add: e rlpDecodeItemWithKind_def p(2,3))
  next
    case long
    define lb where "lb = bigEndianLen (of_nat (length b))"
    let ?p = "0xb7 + of_nat (length lb) :: byte"
    have nz: "(of_nat (length b) :: 64 word) \<noteq> 0" using sint_length [OF assms] long by (metis less_nat_zero_code of_nat_eq_0_iff signed_0)
    have lb: "1 \<le> length lb" "length lb \<le> 8" using len_bounds(2) [OF nz] len_bounds(1) [of "of_nat (length b)"] by (cases lb; simp add: lb_def)+
    have p: "unat ?p = 183 + length lb" "?p - 0xb7 = of_nat (length lb)" "uint (of_nat (length lb) :: byte) = int (length lb)"
      using byte_offset [of 183 "length lb", simplified] lb by simp_all
    have le: "\<not> ?p < 0x80" "\<not> ?p \<le> 0xb7" "?p \<le> 0xbf" using p(1) lb by (auto simp: word_less_nat_alt word_le_nat_alt)
    have ne: "?p \<noteq> 0x80" by (rule byte_ne) (use p(1) in simp)
    have e: "rlpBytes b = ?p # lb @ b" using long by (auto simp: rlpBytes_def lb_def Let_def)
    have s1: "slice (?p # lb @ b @ rest) 1 (1 + int (length lb)) = Done lb" using slice_mid [of 1 "[?p]" "1 + int (length lb)" lb "b @ rest"] by simp
    have s2: "slice (?p # lb @ b @ rest) (1 + int (length lb)) (1 + int (length lb) + int (length b)) = Done b"
      using slice_mid [of "1 + int (length lb)" "?p # lb" "1 + int (length lb) + int (length b)" b rest] by simp
    have r: "sint (bigEndianRead lb) = int (length b)" using sint_length [OF assms] by (simp add: lb_def)
    have i: "i64 (1 + int (length lb) + int (length b)) = 1 + int (length lb) + int (length b)"
      using i64_length [of "int (length b)" "1 + int (length lb)"] assms lb by simp
    show ?thesis using le ne by (simp add: e rlpDecodeItemWithKind_def p(2,3) s1 r i s2)
  qed (auto simp: rlpBytes_def rlpDecodeItemWithKind_def)
qed

lemma decode_empty_list: "rlpDecodeItemWithKind (rlpList [] @ rest) = Done ([], int (length (rlpList [])), rlpKindList)"
  by (simp add: rlpList_def rlpDecodeItemWithKind_def)

lemma decode_items_Cons:
  assumes "rlpDecodeItemWithKind (e @ rest) = Done (x, int (length e), k)" "e \<noteq> []" "decode_items rest = Done ys"
  shows "decode_items (e @ rest) = Done ((x, k) # ys)"
  using assms by (subst decode_items.simps) simp

lemma decode_items_Nil [simp]: "decode_items [] = Done []"
  by (simp add: decode_items.simps)

lemma rlp_nonempty [simp]: "rlpBytes b \<noteq> []" "rlpList items \<noteq> []" "rlpUint v \<noteq> []" "rlpBigInt i \<noteq> []"
  by (simp_all add: rlpBytes_def rlpList_def rlpUint_def rlpBigInt_def Let_def split: option.splits)

lemma payload_list:
  assumes "length (concat items) < 2 ^ 62"
  shows "list_payload (rlpList items) = Done (concat items, int (length (rlpList items)))"
proof -
  let ?c = "concat items"
  consider "?c = []" | (short) "?c \<noteq> []" "length ?c \<le> 55" | (long) "55 < length ?c" by force
  then show ?thesis
  proof cases
    case 1
    then show ?thesis using i64_length [of 0 1] by (simp add: rlpList_def list_payload_def slice_def Let_def)
  next
    case short
    let ?n = "length ?c" and ?p = "0xc0 + of_nat (length ?c) :: byte"
    have p: "unat ?p = 192 + ?n" "?p - 0xc0 = of_nat ?n" "uint (of_nat ?n :: byte) = int ?n"
      using byte_offset [of 192 ?n, simplified] short(2) by simp_all
    have le: "\<not> ?p < 0xc0" "?p \<le> 0xf7" using p(1) short(2) by (auto simp: word_less_nat_alt word_le_nat_alt)
    have e: "rlpList items = ?p # ?c" using short by (auto simp: rlpList_def Let_def)
    have "slice (?p # ?c) 1 (1 + int ?n) = Done ?c" using slice_mid [of 1 "[?p]" "1 + int ?n" ?c "[]"] by simp
    moreover have "i64 (1 + int ?n) = 1 + int ?n" using i64_length [of "int ?n" 1] assms by simp
    ultimately show ?thesis using le by (simp add: e list_payload_def p(2,3))
  next
    case long
    define lb where "lb = bigEndianLen (of_nat (length ?c))"
    let ?p = "0xf7 + of_nat (length lb) :: byte"
    have nz: "(of_nat (length ?c) :: 64 word) \<noteq> 0" using sint_length [OF assms] long by (metis less_nat_zero_code of_nat_eq_0_iff signed_0)
    have lb: "1 \<le> length lb" "length lb \<le> 8" using len_bounds(2) [OF nz] len_bounds(1) [of "of_nat (length ?c)"] by (cases lb; simp add: lb_def)+
    have p: "unat ?p = 247 + length lb" "?p - 0xf7 = of_nat (length lb)" "uint (of_nat (length lb) :: byte) = int (length lb)"
      using byte_offset [of 247 "length lb", simplified] lb by simp_all
    have le: "\<not> ?p < 0xc0" "\<not> ?p \<le> 0xf7" using p(1) lb by (auto simp: word_less_nat_alt word_le_nat_alt)
    have "length ?c \<noteq> 0" "\<not> length ?c \<le> 55" using long by linarith+
    then have e: "rlpList items = ?p # lb @ ?c" unfolding rlpList_def lb_def Let_def by (simp only: if_False)
    have s1: "slice (?p # lb @ ?c) 1 (1 + int (length lb)) = Done lb" using slice_mid [of 1 "[?p]" "1 + int (length lb)" lb ?c] by simp
    have s2: "slice (?p # lb @ ?c) (1 + int (length lb)) (1 + int (length lb) + int (length ?c)) = Done ?c"
      using slice_mid [of "1 + int (length lb)" "?p # lb" "1 + int (length lb) + int (length ?c)" ?c "[]"] by simp
    have r: "sint (bigEndianRead lb) = int (length ?c)" using sint_length [OF assms] by (simp add: lb_def)
    have i: "i64 (1 + int (length lb) + int (length ?c)) = 1 + int (length lb) + int (length ?c)"
      using i64_length [of "int (length ?c)" "1 + int (length lb)"] assms lb by simp
    show ?thesis using le by (simp add: e list_payload_def p(2,3) s1 r i s2)
  qed
qed


text \<open>A whole list of strings and empty lists.\<close>

definition enc :: "byte list \<times> rlpKind \<Rightarrow> byte list" where
  "enc x = (case snd x of rlpKindList \<Rightarrow> rlpList [] | rlpKindString \<Rightarrow> rlpBytes (fst x))"

lemma decode_items_enc:
  assumes "list_all (\<lambda>(b, k). length b < 2 ^ 62 \<and> (k = rlpKindList \<longrightarrow> b = [])) xs"
  shows "decode_items (concat (map enc xs)) = Done xs"
  using assms
proof (induction xs)
  case (Cons x xs)
  obtain b k where x: "x = (b, k)" by (cases x)
  have "rlpDecodeItemWithKind (enc x @ concat (map enc xs)) = Done (b, int (length (enc x)), k)"
    using Cons.prems x by (cases k) (simp_all add: enc_def decode_bytes decode_empty_list)
  moreover have "enc x \<noteq> []" using x by (cases k) (simp_all add: enc_def)
  ultimately show ?case using decode_items_Cons Cons x by fastforce
qed simp

lemma enc_longer: "length b \<le> length (enc (b, rlpKindString))"
  by (simp add: enc_def rlpBytes_def Let_def)

lemma decode_list_enc:
  assumes "length (concat (map enc xs)) < 2 ^ 62" "list_all (\<lambda>(b, k). k = rlpKindList \<longrightarrow> b = []) xs"
  shows "rlpDecodeListWithKinds (rlpList (map enc xs)) = Done (map fst xs, int (length (rlpList (map enc xs))), map snd xs)"
proof -
  have "length b < 2 ^ 62" if "(b, k) \<in> set xs" for b k
  proof (cases k)
    case rlpKindString
    have "length (enc (b, k)) \<le> length (concat (map enc xs))"
      using that by (auto simp: length_concat comp_def intro!: member_le_sum_list)
    then show ?thesis using enc_longer [of b] rlpKindString assms(1) by simp
  next
    case rlpKindList
    then show ?thesis using that assms(2) by (auto simp: list_all_iff)
  qed
  then have "decode_items (concat (map enc xs)) = Done xs"
    using assms(2) by (intro decode_items_enc) (auto simp: list_all_iff)
  then show ?thesis using payload_list [OF assms(1)] by (simp add: rlpDecodeListWithKinds_def)
qed

lemma rlpUint_enc: "rlpUint v = enc (bigEndianLen v, rlpKindString)"
proof (cases "v = 0")
  case True
  have "bigEndianLen 0 = []" by (simp add: bigEndianLen_def trimLeadingZeros_def binaryBigEndianPutUint64_def)
  then show ?thesis using True by (simp add: rlpUint_def enc_def rlpBytes_def)
qed (simp add: rlpUint_def enc_def bigEndianLen_def)

lemma rlpBigInt_enc: "rlpBigInt (Some i) = enc (Bytes i, rlpKindString)"
  by (simp add: rlpBigInt_def enc_def Bytes_def be_bytes_trim) (simp add: be_bytes.simps rlpBytes_def)

lemma rlpItemUint_len [simp]: "rlpItemUint (bigEndianLen v) = Done v"
  using len_bounds(1) [of v] read_len [of v] by (simp add: rlpItemUint_def bigEndianRead_def)

lemma rlpDecode_crashes: "rlpDecodeListWithKinds [0xff, 0xff, 0xff, 0xff, 0xff, 0xff, 0xff, 0xff, 0xff] = Panic"
  by code_simp

end
