(* ===== verification/Payout_Envelope.thy ===== *)
theory Payout_Envelope
  imports Payout_RLP
begin

text \<open>
  Addresses (\<open>internal/payout/eip55.go\<close>), the EIP-1559 envelope of a payout (\<open>evm.go\<close>), the local signer
  (\<open>signer.go\<close>) and the check of a signed envelope before it is broadcast (\<open>runner.go\<close>, \<open>abandon.go\<close>).
  Keccak-256, the secp256k1 signature and the recovery of its key are libraries and appear as
  parameters: \<open>keccak\<close>, \<open>sign\<close> (\<open>ecdsa.SignCompact\<close>) and \<open>recover_key\<close> (\<open>ecrecover\<close>).
\<close>

type_synonym hash_fun = "byte list \<Rightarrow> byte list"


section \<open>Addresses\<close>

definition upper_char :: "char \<Rightarrow> char" where
  "upper_char c = (if of_char c \<in> {97..(122::nat)} then char_of (of_char c - (32::nat)) else c)"

definition ToUpper :: "string \<Rightarrow> string" where
  "ToUpper s = map upper_char s"

definition isHexAlphabet :: "string \<Rightarrow> bool" where
  "isHexAlphabet s \<longleftrightarrow> list_all (\<lambda>c. let n = of_char c :: nat in (48 \<le> n \<and> n \<le> 57) \<or> (97 \<le> n \<and> n \<le> 102) \<or> (65 \<le> n \<and> n \<le> 70)) s"

definition checksum_char :: "byte list \<Rightarrow> nat \<Rightarrow> char \<Rightarrow> char" where
  "checksum_char digest i c =
    (let nibble = (if i mod 2 = 0 then drop_bit 4 (digest ! (i div 2)) else digest ! (i div 2)) AND 0x0f in
     if nibble \<ge> 8 \<and> 97 \<le> (of_char c :: nat) \<and> (of_char c :: nat) \<le> 102 then char_of (of_char c - (32::nat)) else c)"

definition applyEIP55Checksum :: "hash_fun \<Rightarrow> string \<Rightarrow> string" where
  "applyEIP55Checksum keccak lowerHex =
    (let digest = keccak (map of_char lowerHex) in map (\<lambda>(i, c). checksum_char digest i c) (enumerate 0 lowerHex))"

datatype address_error = ErrBadFormat | ErrChecksumMismatch

definition ParseAndCanonicalizeEIP55 :: "hash_fun \<Rightarrow> string \<Rightarrow> address_error + string" where
  "ParseAndCanonicalizeEIP55 keccak input =
    (if length input \<noteq> 42 then Inl ErrBadFormat
     else if \<not> HasPrefix input ''0x'' \<and> \<not> HasPrefix input ''0X'' then Inl ErrBadFormat
     else let hexBody = drop 2 input in
     if \<not> isHexAlphabet hexBody then Inl ErrBadFormat
     else let lower = ToLower hexBody; canonical = ''0x'' @ applyEIP55Checksum keccak lower in
     if hexBody = lower \<or> hexBody = ToUpper hexBody then Inr canonical
     else if ''0x'' @ hexBody \<noteq> canonical then Inl ErrChecksumMismatch
     else Inr canonical)"

definition NormalizeAddress :: "hash_fun \<Rightarrow> string \<Rightarrow> address_error + string" where
  "NormalizeAddress keccak input = map_sum id ToLower (ParseAndCanonicalizeEIP55 keccak input)"

definition hex_value :: "char \<Rightarrow> nat" where
  "hex_value c = (let n = of_char c in if n \<le> 57 then n - 48 else if n \<le> 70 then n - 55 else n - 87)"

fun hex_decode :: "string \<Rightarrow> byte list" where
  "hex_decode (a # b # r) = of_nat (16 * hex_value a + hex_value b) # hex_decode r"
| "hex_decode _ = []"

definition hex_digit :: "nat \<Rightarrow> char" where
  "hex_digit n = char_of (if n < 10 then 48 + n else 87 + n)"

definition EncodeToString :: "byte list \<Rightarrow> string" where
  "EncodeToString b = concat (map (\<lambda>x. [hex_digit (unat x div 16), hex_digit (unat x mod 16)]) b)"

definition AddressBytes :: "hash_fun \<Rightarrow> string \<Rightarrow> address_error + byte list" where
  "AddressBytes keccak input = map_sum id (\<lambda>canonical. hex_decode (drop 2 canonical)) (ParseAndCanonicalizeEIP55 keccak input)"

definition addressEqualFold :: "hash_fun \<Rightarrow> string \<Rightarrow> string \<Rightarrow> bool" where
  "addressEqualFold keccak a b = (case (NormalizeAddress keccak a, NormalizeAddress keccak b) of
     (Inr x, Inr y) \<Rightarrow> x = y | _ \<Rightarrow> False)"

definition PadAddressTopic :: "hash_fun \<Rightarrow> string \<Rightarrow> address_error + byte list" where
  "PadAddressTopic keccak addr = map_sum id (\<lambda>b. replicate 12 0 @ b) (AddressBytes keccak addr)"

lemma upper_char_cases: "(of_char (upper_char c) :: nat) = (if 97 \<le> (of_char c :: nat) \<and> (of_char c :: nat) \<le> 122 then of_char c - 32 else of_char c)"
  by (auto simp: upper_char_def of_char_of)

lemma lower_char_cases: "(of_char (lower_char c) :: nat) = (if 65 \<le> (of_char c :: nat) \<and> (of_char c :: nat) \<le> 90 then of_char c + 32 else of_char c)"
  by (auto simp: lower_char_def of_char_of)

lemma hex_lower: "isHexAlphabet s \<Longrightarrow> isHexAlphabet (ToLower s)"
  by (auto simp: isHexAlphabet_def ToLower_def list_all_iff Let_def lower_char_cases)

lemma checksum_length [simp]: "length (applyEIP55Checksum keccak s) = length s"
  by (simp add: applyEIP55Checksum_def)

text \<open>The canonical form, and with it the bytes, depends on the address only up to case.\<close>

lemma parse_lower:
  assumes "ParseAndCanonicalizeEIP55 keccak s = Inr c"
  shows "ParseAndCanonicalizeEIP55 keccak (ToLower s) = Inr c"
proof -
  have l: "length s = 42" and px: "HasPrefix s ''0x'' \<or> HasPrefix s ''0X''" and hx: "isHexAlphabet (drop 2 s)"
    and c: "c = ''0x'' @ applyEIP55Checksum keccak (ToLower (drop 2 s))"
    using assms by (auto simp: ParseAndCanonicalizeEIP55_def Let_def split: if_splits)
  have d: "drop 2 (ToLower s) = ToLower (drop 2 s)" by (simp add: ToLower_def drop_map)
  have t: "take 2 (ToLower s) = ToLower (take 2 s)" by (simp add: ToLower_def take_map)
  have "ToLower ''0x'' = ''0x''" "ToLower ''0X'' = ''0x''" by code_simp+
  then have "HasPrefix (ToLower s) ''0x''" using px t by (auto simp: HasPrefix_def numeral_2_eq_2)
  moreover have "length (ToLower s) = 42" using l by (simp add: ToLower_def)
  ultimately show ?thesis using hex_lower [OF hx] by (simp add: ParseAndCanonicalizeEIP55_def d c Let_def)
qed

lemma AddressBytes_lower: "AddressBytes keccak s = Inr b \<Longrightarrow> AddressBytes keccak (ToLower s) = Inr b"
  by (cases "ParseAndCanonicalizeEIP55 keccak s") (auto simp: AddressBytes_def dest: parse_lower)

lemma hex_decode_length: "length (hex_decode s) = length s div 2"
  by (induction s rule: hex_decode.induct) auto

lemma AddressBytes_length: "AddressBytes keccak s = Inr b \<Longrightarrow> length b = 20"
  by (cases "ParseAndCanonicalizeEIP55 keccak s")
    (auto simp: AddressBytes_def ParseAndCanonicalizeEIP55_def Let_def hex_decode_length ToLower_def split: if_splits)

lemma hex_digit_value: "n < 16 \<Longrightarrow> hex_value (hex_digit n) = n"
  by (auto simp: hex_value_def hex_digit_def of_char_of Let_def)

lemma hex_round_trip: "hex_decode (EncodeToString b) = b"
proof (induction b)
  case (Cons x b)
  have "unat x < 2 ^ LENGTH(8)" by (rule unsigned_less)
  then have lt: "unat x < 256" by simp
  then have "16 * (unat x div 16) + unat x mod 16 = unat x" "unat x div 16 < 16" by auto
  then show ?case using Cons by (simp add: EncodeToString_def hex_digit_value)
qed (simp add: EncodeToString_def)


section \<open>The envelope\<close>

definition BaseMainnetChainID :: "64 word" where "BaseMainnetChainID = 8453"

definition USDCContractAddressBase :: string where
  "USDCContractAddressBase = ''0x833589fCD6eDb6E08f4c7C32D4f71b54bdA02913''"

definition transferSelector :: "byte list" where "transferSelector = [0xa9, 0x05, 0x9c, 0xbb]"

text \<open>\<open>FillBytes\<close> into a 32-byte array.\<close>

definition fill32 :: "byte list \<Rightarrow> byte list" where
  "fill32 b = replicate (32 - length b) 0 @ b"

definition USDCTransferCalldata :: "hash_fun \<Rightarrow> string \<Rightarrow> int \<Rightarrow> byte list outcome" where
  "USDCTransferCalldata keccak toAddress amount =
    (if amount \<le> 0 then Fail
     else case AddressBytes keccak toAddress of Inl e \<Rightarrow> Fail
       | Inr addrBytes \<Rightarrow> let out = transferSelector @ fill32 addrBytes @ fill32 (Bytes amount) in
           if length out \<noteq> 68 then Fail else Done out)"

record EIP1559Tx =
  ChainID :: "64 word"
  Nonce :: "64 word"
  MaxPriorityFeePerGas :: "int option"
  MaxFeePerGas :: "int option"
  GasLimit :: "64 word"
  tx_To :: "byte list"
  tx_Value :: "int option"
  Data :: "byte list"

definition Validate :: "EIP1559Tx \<Rightarrow> bool" where
  "Validate t \<longleftrightarrow> ChainID t = BaseMainnetChainID
     \<and> (case MaxPriorityFeePerGas t of None \<Rightarrow> False | Some p \<Rightarrow> p \<ge> 0)
     \<and> (case MaxFeePerGas t of None \<Rightarrow> False | Some f \<Rightarrow> f \<ge> 0)
     \<and> the (MaxFeePerGas t) \<ge> the (MaxPriorityFeePerGas t)
     \<and> GasLimit t \<noteq> 0 \<and> tx_Value t \<noteq> None"

definition common_fields :: "EIP1559Tx \<Rightarrow> byte list list" where
  "common_fields t = [rlpUint (ChainID t), rlpUint (Nonce t), rlpBigInt (MaxPriorityFeePerGas t), rlpBigInt (MaxFeePerGas t),
     rlpUint (GasLimit t), rlpBytes (tx_To t), rlpBigInt (tx_Value t), rlpBytes (Data t), rlpList []]"

definition UnsignedRLP :: "EIP1559Tx \<Rightarrow> byte list outcome" where
  "UnsignedRLP t = (if \<not> Validate t then Fail
     else Done (0x02 # rlpList (common_fields t @ [rlpUint 0, rlpBytes [], rlpBytes []])))"

definition SignedRLP :: "EIP1559Tx \<Rightarrow> byte \<Rightarrow> byte list \<Rightarrow> byte list \<Rightarrow> byte list outcome" where
  "SignedRLP t yParity r s =
    (if \<not> Validate t then Fail
     else if yParity > 1 then Fail
     else if length r = 0 \<or> length r > 32 \<or> length s = 0 \<or> length s > 32 then Fail
     else Done (0x02 # rlpList (common_fields t @ [rlpUint (ucast yParity), rlpBytes (trimLeadingZeros r), rlpBytes (trimLeadingZeros s)])))"

definition TxHash :: "hash_fun \<Rightarrow> byte list \<Rightarrow> string" where
  "TxHash keccak b = ''0x'' @ EncodeToString (keccak b)"

definition DecodeSignedEIP1559 :: "byte list \<Rightarrow> (EIP1559Tx \<times> byte \<times> byte list \<times> byte list) outcome" where
  "DecodeSignedEIP1559 b =
    (if length b < 2 then Fail
     else if hd b \<noteq> 0x02 then Fail
     else bind_outcome (rlpDecodeListWithKinds (tl b)) (\<lambda>(items, consumed, kinds).
       if consumed \<noteq> int (length (tl b)) then Fail
       else if length items \<noteq> 12 then Fail
       else bind_outcome (rlpItemUint (items ! 0)) (\<lambda>chainID.
         bind_outcome (rlpItemUint (items ! 1)) (\<lambda>nonce.
         bind_outcome (rlpItemUint (items ! 4)) (\<lambda>gasLimit.
           if length (items ! 5) \<noteq> 20 then Fail
           else if kinds ! 8 \<noteq> rlpKindList then Fail
           else if items ! 8 \<noteq> [] then Fail
           else bind_outcome (rlpItemUint (items ! 9)) (\<lambda>parity.
             if parity > 1 then Fail
             else if length (items ! 10) = 0 \<or> length (items ! 10) > 32 \<or> length (items ! 11) = 0 \<or> length (items ! 11) > 32 then Fail
             else Done (\<lparr>ChainID = chainID, Nonce = nonce, MaxPriorityFeePerGas = Some (SetBytes (items ! 2)),
                 MaxFeePerGas = Some (SetBytes (items ! 3)), GasLimit = gasLimit, tx_To = items ! 5,
                 tx_Value = Some (SetBytes (items ! 6)), Data = items ! 7\<rparr>,
               ucast parity, fill32 (items ! 10), fill32 (items ! 11))))))))"

definition SigningHash :: "hash_fun \<Rightarrow> EIP1559Tx \<Rightarrow> byte list outcome" where
  "SigningHash keccak t = bind_outcome (UnsignedRLP t) (\<lambda>u. Done (keccak u))"

definition ecrecover :: "hash_fun \<Rightarrow> (byte list \<Rightarrow> byte list \<Rightarrow> byte list option) \<Rightarrow> byte list \<Rightarrow> byte list \<Rightarrow> string outcome" where
  "ecrecover keccak recover_key digest sig = (case recover_key sig digest of None \<Rightarrow> Fail
     | Some uncompressed \<Rightarrow>
         if length uncompressed \<noteq> 65 \<or> hd uncompressed \<noteq> 0x04 then Fail
         else let digestPub = keccak (tl uncompressed) in Done (''0x'' @ EncodeToString (drop (length digestPub - 20) digestPub)))"

definition RecoverTxSender :: "hash_fun \<Rightarrow> (byte list \<Rightarrow> byte list \<Rightarrow> byte list option) \<Rightarrow> byte list \<Rightarrow> string outcome" where
  "RecoverTxSender keccak recover_key b =
    bind_outcome (DecodeSignedEIP1559 b) (\<lambda>(tx, yParity, r, s).
    bind_outcome (SigningHash keccak tx) (\<lambda>digest. ecrecover keccak recover_key digest ((27 + yParity) # r @ s)))"


section \<open>Signing\<close>

definition decodeUnsignedForSigning :: "byte list list \<Rightarrow> EIP1559Tx outcome" where
  "decodeUnsignedForSigning items =
    (if length items \<noteq> 12 then Fail
     else bind_outcome (rlpItemUint (items ! 0)) (\<lambda>chainID.
       bind_outcome (rlpItemUint (items ! 1)) (\<lambda>nonce.
       bind_outcome (rlpItemUint (items ! 4)) (\<lambda>gasLimit.
         if length (items ! 5) \<noteq> 20 then Fail
         else Done \<lparr>ChainID = chainID, Nonce = nonce, MaxPriorityFeePerGas = Some (SetBytes (items ! 2)),
           MaxFeePerGas = Some (SetBytes (items ! 3)), GasLimit = gasLimit, tx_To = items ! 5,
           tx_Value = Some (SetBytes (items ! 6)), Data = items ! 7\<rparr>))))"

text \<open>\<open>canceled\<close>: the context is done at the call; \<open>late\<close>: the signature took longer than its deadline.\<close>

definition SignTx :: "hash_fun \<Rightarrow> (byte list \<Rightarrow> byte list) \<Rightarrow> bool \<Rightarrow> bool \<Rightarrow> byte list \<Rightarrow> (byte list \<times> string) outcome" where
  "SignTx keccak sign canceled late envelope =
    (if canceled then Fail
     else if length envelope < 2 \<or> hd envelope \<noteq> 0x02 then Fail
     else bind_outcome (rlpDecodeList (tl envelope)) (\<lambda>(items, _).
       if length items < 1 then Fail
       else bind_outcome (rlpItemUint (items ! 0)) (\<lambda>chainID.
         if chainID \<noteq> BaseMainnetChainID then Fail
         else let compact = sign (keccak envelope); yParity = compact ! 0 - 27;
                  r = take 32 (drop 1 compact); s = take 32 (drop 33 compact) in
         bind_outcome (decodeUnsignedForSigning items) (\<lambda>tx.
         bind_outcome (SignedRLP tx yParity r s) (\<lambda>bytes.
           if late then Fail else Done (bytes, TxHash keccak bytes))))))"

definition buildEIP1559 :: "hash_fun \<Rightarrow> int \<Rightarrow> string \<Rightarrow> int \<Rightarrow> EIP1559Tx outcome" where
  "buildEIP1559 keccak nonce effectiveAddress amount =
    bind_outcome (USDCTransferCalldata keccak effectiveAddress amount) (\<lambda>calldata.
      case AddressBytes keccak USDCContractAddressBase of Inl e \<Rightarrow> Fail
      | Inr usdcBytes \<Rightarrow> Done \<lparr>ChainID = BaseMainnetChainID, Nonce = of_int nonce, MaxPriorityFeePerGas = Some 2000000000,
          MaxFeePerGas = Some 50000000000, GasLimit = 80000, tx_To = usdcBytes, tx_Value = Some 0, Data = calldata\<rparr>)"

text \<open>The error of a second call to \<open>USDCTransferCalldata\<close> is ignored: its result is then nil.\<close>

definition verifySignedTx ::
  "hash_fun \<Rightarrow> (byte list \<Rightarrow> byte list \<Rightarrow> byte list option) \<Rightarrow> string \<Rightarrow> EIP1559Tx \<Rightarrow> byte list \<Rightarrow> string \<Rightarrow> int \<Rightarrow> string \<Rightarrow> unit outcome" where
  "verifySignedTx keccak recover_key hotWallet tx bytes returnedTxHash amount effectiveAddress =
    bind_outcome (DecodeSignedEIP1559 bytes) (\<lambda>(decoded, _, _, _).
      if Nonce decoded \<noteq> Nonce tx then Fail
      else if ChainID decoded \<noteq> BaseMainnetChainID then Fail
      else if tx_To decoded \<noteq> tx_To tx then Fail
      else if tx_Value decoded = None \<or> tx_Value decoded \<noteq> Some 0 then Fail
      else let wantData = (case USDCTransferCalldata keccak effectiveAddress amount of Done d \<Rightarrow> d | _ \<Rightarrow> []) in
      if Data decoded \<noteq> wantData then Fail
      else if \<not> EqualFold (TxHash keccak bytes) returnedTxHash then Fail
      else bind_outcome (RecoverTxSender keccak recover_key bytes) (\<lambda>recovered.
        if \<not> addressEqualFold keccak recovered hotWallet then Fail else Done ()))"

text \<open>\<open>tip\<close> is the base tip times the multiplier, converted to an integer.\<close>

definition buildCancelTx :: "hash_fun \<Rightarrow> string \<Rightarrow> int \<Rightarrow> int \<Rightarrow> EIP1559Tx outcome" where
  "buildCancelTx keccak hotWallet nonce tip =
    (case AddressBytes keccak hotWallet of Inl e \<Rightarrow> Fail
     | Inr hotBytes \<Rightarrow> Done \<lparr>ChainID = BaseMainnetChainID, Nonce = of_int nonce, MaxPriorityFeePerGas = Some tip,
         MaxFeePerGas = Some (i64 (tip + 20000000000)), GasLimit = 21000, tx_To = hotBytes, tx_Value = Some 1, Data = []\<rparr>)"

definition verifyCancelEnvelope ::
  "hash_fun \<Rightarrow> (byte list \<Rightarrow> byte list \<Rightarrow> byte list option) \<Rightarrow> EIP1559Tx \<Rightarrow> byte list \<Rightarrow> string \<Rightarrow> string \<Rightarrow> unit outcome" where
  "verifyCancelEnvelope keccak recover_key tx bytes returnedHash hotWallet =
    bind_outcome (DecodeSignedEIP1559 bytes) (\<lambda>(decoded, _, _, _).
      if Nonce decoded \<noteq> Nonce tx then Fail
      else if ChainID decoded \<noteq> BaseMainnetChainID then Fail
      else let hotBytes = (case AddressBytes keccak hotWallet of Inr b \<Rightarrow> b | Inl e \<Rightarrow> replicate 20 0) in
      if tx_To decoded \<noteq> hotBytes then Fail
      else if tx_Value decoded = None \<or> the (tx_Value decoded) \<le> 0 \<or> i64 (the (tx_Value decoded)) \<noteq> 1 then Fail
      else if Data decoded \<noteq> [] then Fail
      else if TxHash keccak bytes \<noteq> returnedHash then Fail
      else bind_outcome (RecoverTxSender keccak recover_key bytes) (\<lambda>recovered.
        if \<not> addressEqualFold keccak recovered hotWallet then Fail else Done ()))"



section \<open>Round trips\<close>

lemma trim_split: "b = replicate (length b - length (trimLeadingZeros b)) 0 @ trimLeadingZeros b"
proof (induction b)
  case (Cons x b)
  show ?case
  proof (cases "x = 0")
    case True
    have "length (trimLeadingZeros b) \<le> length b" by (rule trim_length)
    then show ?thesis using Cons True by (simp add: trimLeadingZeros_def Suc_diff_le)
  qed (simp add: trimLeadingZeros_def)
qed (simp add: trimLeadingZeros_def)

lemma fill32_trim:
  assumes "length b \<le> 32"
  shows "fill32 (trimLeadingZeros b) = fill32 b"
proof -
  have le: "length (trimLeadingZeros b) \<le> length b" by (rule trim_length)
  have "fill32 b = replicate (32 - length b) 0 @ replicate (length b - length (trimLeadingZeros b)) 0 @ trimLeadingZeros b"
    unfolding fill32_def by (rule arg_cong [OF trim_split])
  also have "\<dots> = fill32 (trimLeadingZeros b)" using assms le by (simp add: fill32_def flip: replicate_add append_assoc)
  finally show ?thesis ..
qed

lemma trim_Nil: "trimLeadingZeros b = [] \<longleftrightarrow> be_value b = 0"
proof
  assume "be_value b = 0"
  then have "\<forall>x\<in>set b. x = 0" by (induction b) (auto simp: be_value_Cons unat_eq_0)
  then show "trimLeadingZeros b = []" by (simp add: trimLeadingZeros_def)
qed (metis be_value_Nil be_value_trim)

text \<open>What the twelve items of an envelope are.\<close>

definition tx_items :: "EIP1559Tx \<Rightarrow> byte list \<Rightarrow> byte list \<Rightarrow> byte list \<Rightarrow> (byte list \<times> rlpKind) list" where
  "tx_items t y r s = [(bigEndianLen (ChainID t), rlpKindString), (bigEndianLen (Nonce t), rlpKindString),
     (Bytes (the (MaxPriorityFeePerGas t)), rlpKindString), (Bytes (the (MaxFeePerGas t)), rlpKindString),
     (bigEndianLen (GasLimit t), rlpKindString), (tx_To t, rlpKindString), (Bytes (the (tx_Value t)), rlpKindString),
     (Data t, rlpKindString), ([], rlpKindList), (y, rlpKindString), (r, rlpKindString), (s, rlpKindString)]"

lemma items_enc:
  assumes "Validate t"
  shows "common_fields t @ [rlpUint v, rlpBytes r, rlpBytes s] = map enc (tx_items t (bigEndianLen v) r s)"
proof -
  obtain p f x where "MaxPriorityFeePerGas t = Some p" "MaxFeePerGas t = Some f" "tx_Value t = Some x"
    using assms by (auto simp: Validate_def split: option.splits)
  then show ?thesis by (simp add: common_fields_def tx_items_def rlpUint_enc rlpBigInt_enc) (simp add: enc_def)
qed

lemma rlpList_length: "length (concat xs) \<le> length (rlpList xs)"
  by (simp add: rlpList_def Let_def del: concat_eq_Nil_conv length_0_conv)

lemma decode_tx_items:
  assumes "length (rlpList (map enc (tx_items t y r s))) < 2 ^ 62"
  shows "rlpDecodeListWithKinds (rlpList (map enc (tx_items t y r s)))
    = Done (map fst (tx_items t y r s), int (length (rlpList (map enc (tx_items t y r s)))), map snd (tx_items t y r s))"
proof (rule decode_list_enc)
  show "length (concat (map enc (tx_items t y r s))) < 2 ^ 62" using assms rlpList_length [of "map enc (tx_items t y r s)"] by linarith
  show "list_all (\<lambda>(b, k). k = rlpKindList \<longrightarrow> b = []) (tx_items t y r s)" by (simp add: tx_items_def)
qed

text \<open>The value fields a decoded transaction can have.\<close>

definition proper_tx :: "EIP1559Tx \<Rightarrow> bool" where
  "proper_tx t \<longleftrightarrow> Validate t \<and> length (tx_To t) = 20 \<and> 0 \<le> the (tx_Value t)"

lemma proper_values:
  assumes "proper_tx t"
  shows "Some (SetBytes (Bytes (the (MaxPriorityFeePerGas t)))) = MaxPriorityFeePerGas t"
    "Some (SetBytes (Bytes (the (MaxFeePerGas t)))) = MaxFeePerGas t" "Some (SetBytes (Bytes (the (tx_Value t)))) = tx_Value t"
  using assms by (auto simp: proper_tx_def Validate_def split: option.splits)

lemma rlpList_Cons_length: "1 \<le> length (rlpList xs)"
  using rlp_nonempty(2) [of xs] by (cases "rlpList xs") auto

lemma parity_values: "\<not> (1 < (y :: byte)) \<Longrightarrow> y = 0 \<or> y = 1"
  by (auto simp: word_less_nat_alt word_unat_eq_iff)


lemma decode_signed:
  assumes "proper_tx t" "SignedRLP t y r s = Done b" "0 < be_value r" "0 < be_value s" "length b < 2 ^ 62"
  shows "DecodeSignedEIP1559 b = Done (t, y, fill32 r, fill32 s)"
proof -
  let ?y = "bigEndianLen (ucast y)" and ?r = "trimLeadingZeros r" and ?s = "trimLeadingZeros s"
  let ?items = "tx_items t ?y ?r ?s"
  have v: "Validate t" and to: "length (tx_To t) = 20" using assms(1) by (simp_all add: proper_tx_def)
  have y: "\<not> 1 < y" and len: "length r \<le> 32" "length s \<le> 32" and b: "b = 0x02 # rlpList (map enc ?items)"
    using assms(2) v items_enc [OF v, of "ucast y" ?r ?s] by (auto simp: SignedRLP_def split: if_splits)
  have ne: "?r \<noteq> []" "?s \<noteq> []" using assms(3,4) by (simp_all add: trim_Nil)
  have le: "length ?r \<le> 32" "length ?s \<le> 32" using len trim_length [of r] trim_length [of s] by linarith+
  have dec: "rlpDecodeListWithKinds (tl b) = Done (map fst ?items, int (length (tl b)), map snd ?items)"
    using decode_tx_items [of t ?y ?r ?s] assms(5) b by simp
  have l2: "\<not> length b < 2" "hd b = 0x02" using b rlpList_Cons_length [of "map enc ?items"] by (auto simp: not_less)
  have yy: "\<not> 1 < (ucast y :: 64 word)" "(ucast (ucast y :: 64 word) :: byte) = y" using parity_values [OF y] by auto
  show ?thesis using proper_values [OF assms(1)] to ne le l2 yy fill32_trim [OF len(1)] fill32_trim [OF len(2)]
    unfolding DecodeSignedEIP1559_def dec by (simp add: tx_items_def)
qed

lemma decode_unsigned:
  assumes "proper_tx t" "UnsignedRLP t = Done u" "length u < 2 ^ 62"
  shows "length u \<ge> 2" "hd u = 0x02"
    "\<exists>items n. rlpDecodeList (tl u) = Done (items, n) \<and> length items = 12 \<and> rlpItemUint (items ! 0) = Done (ChainID t)
       \<and> decodeUnsignedForSigning items = Done t"
proof -
  let ?items = "tx_items t (bigEndianLen 0) [] []"
  have v: "Validate t" and to: "length (tx_To t) = 20" using assms(1) by (simp_all add: proper_tx_def)
  have u: "u = 0x02 # rlpList (map enc ?items)"
    using assms(2) v items_enc [OF v, of 0 "[]" "[]"] by (auto simp: UnsignedRLP_def)
  then show "length u \<ge> 2" "hd u = 0x02" using rlpList_Cons_length [of "map enc ?items"] by auto
  have "rlpDecodeListWithKinds (tl u) = Done (map fst ?items, int (length (tl u)), map snd ?items)"
    using decode_tx_items [of t "bigEndianLen 0" "[]" "[]"] assms(3) u by simp
  then have "rlpDecodeList (tl u) = Done (map fst ?items, int (length (tl u)))" by (simp add: list_without_kinds)
  moreover have "decodeUnsignedForSigning (map fst ?items) = Done t"
    using proper_values [OF assms(1)] to by (simp add: decodeUnsignedForSigning_def tx_items_def)
  ultimately show "\<exists>items n. rlpDecodeList (tl u) = Done (items, n) \<and> length items = 12 \<and> rlpItemUint (items ! 0) = Done (ChainID t)
       \<and> decodeUnsignedForSigning items = Done t" by (auto simp: tx_items_def)
qed

text \<open>What the code relies on of the curve library: the signature of a digest is 65 bytes, starts with 27 or 28, has a
  non-zero \<open>r\<close> and \<open>s\<close>, and recovering the key from it gives the key of the wallet.\<close>

definition signs_for :: "hash_fun \<Rightarrow> (byte list \<Rightarrow> byte list) \<Rightarrow> (byte list \<Rightarrow> byte list \<Rightarrow> byte list option) \<Rightarrow> string \<Rightarrow> byte list \<Rightarrow> bool" where
  "signs_for keccak sign recover_key wallet digest \<longleftrightarrow>
     length (sign digest) = 65 \<and> (sign digest ! 0 = 27 \<or> sign digest ! 0 = 28)
     \<and> 0 < be_value (take 32 (drop 1 (sign digest))) \<and> 0 < be_value (take 32 (drop 33 (sign digest)))
     \<and> (case ecrecover keccak recover_key digest (sign digest) of Done a \<Rightarrow> addressEqualFold keccak a wallet | _ \<Rightarrow> False)"

lemma sign_tx:
  assumes "proper_tx t" "UnsignedRLP t = Done u" "length u < 2 ^ 62" "SignTx keccak sign canceled late u = Done (b, h)"
    and "signs_for keccak sign recover_key wallet (keccak u)" "length b < 2 ^ 62"
  shows "h = TxHash keccak b" "DecodeSignedEIP1559 b = Done (t, sign (keccak u) ! 0 - 27, take 32 (drop 1 (sign (keccak u))), take 32 (drop 33 (sign (keccak u))))"
    "RecoverTxSender keccak recover_key b = ecrecover keccak recover_key (keccak u) (sign (keccak u))"
proof -
  let ?c = "sign (keccak u)"
  let ?r = "take 32 (drop 1 ?c)" and ?s = "take 32 (drop 33 ?c)"
  have c: "length ?c = 65" "?c ! 0 = 27 \<or> ?c ! 0 = 28" "0 < be_value ?r" "0 < be_value ?s" using assms(5) by (auto simp: signs_for_def)
  obtain items n where d: "rlpDecodeList (tl u) = Done (items, n)" "length items = 12" "rlpItemUint (items ! 0) = Done (ChainID t)"
    "decodeUnsignedForSigning items = Done t" using decode_unsigned(3) [OF assms(1-3)] by blast
  have "SignedRLP t (?c ! 0 - 27) ?r ?s = Done b \<and> h = TxHash keccak b"
    using assms(4) d decode_unsigned(1,2) [OF assms(1-3)] by (auto simp: SignTx_def Let_def bind_outcome_Done split: if_splits)
  then have b: "SignedRLP t (?c ! 0 - 27) ?r ?s = Done b" and h: "h = TxHash keccak b" by auto
  show "h = TxHash keccak b" by (rule h)
  have l: "length ?r = 32" "length ?s = 32" using c(1) by auto
  have f: "fill32 ?r = ?r" "fill32 ?s = ?s" using l by (simp_all add: fill32_def)
  show dec: "DecodeSignedEIP1559 b = Done (t, ?c ! 0 - 27, ?r, ?s)" using decode_signed [OF assms(1) b c(3,4) assms(6)] f by simp
  have "?c = ?c ! 0 # ?r @ ?s"
  proof -
    have "?c = take 1 ?c @ drop 1 ?c" by simp
    moreover have "drop 1 ?c = ?r @ drop 32 (drop 1 ?c)" by (rule append_take_drop_id [symmetric])
    moreover have "drop 32 (drop 1 ?c) = ?s" using c(1) by simp
    moreover have "take 1 ?c = [?c ! 0]" using c(1) by (cases ?c) auto
    ultimately show ?thesis by (metis append_Cons append_Nil)
  qed
  then have "(27 + (?c ! 0 - 27)) # ?r @ ?s = ?c" by simp
  then show "RecoverTxSender keccak recover_key b = ecrecover keccak recover_key (keccak u) ?c"
    using assms(2) by (simp add: RecoverTxSender_def dec SigningHash_def)
qed


lemma sign_tx_returns:
  assumes "proper_tx t" "UnsignedRLP t = Done u" "length u < 2 ^ 62"
    and "signs_for keccak sign recover_key wallet (keccak u)"
  shows "\<exists>b h. SignTx keccak sign False False u = Done (b, h) \<and> (\<exists>y r s. SignedRLP t y r s = Done b)"
proof -
  let ?c = "sign (keccak u)"
  let ?y = "?c ! 0 - 27" and ?r = "take 32 (drop 1 ?c)" and ?s = "take 32 (drop 33 ?c)"
  have c: "length ?c = 65" "?c ! 0 = 27 \<or> ?c ! 0 = 28" using assms(4) by (auto simp: signs_for_def)
  obtain items n where d: "rlpDecodeList (tl u) = Done (items, n)" "length items = 12" "rlpItemUint (items ! 0) = Done (ChainID t)"
    "decodeUnsignedForSigning items = Done t" using decode_unsigned(3) [OF assms(1-3)] by blast
  have v: "Validate t" "ChainID t = BaseMainnetChainID" using assms(1) by (auto simp: proper_tx_def Validate_def)
  have y: "\<not> 1 < ?y" using c(2) by auto
  have l: "length ?r = 32" "length ?s = 32" using c(1) by auto
  obtain b where b: "SignedRLP t ?y ?r ?s = Done b" using v(1) y l by (simp add: SignedRLP_def)
  have ne: "items \<noteq> []" using d(2) by auto
  have "SignTx keccak sign False False u = Done (b, TxHash keccak b)"
    using decode_unsigned(1,2) [OF assms(1-3)] d v(2) b ne by (simp add: SignTx_def Let_def)
  then show ?thesis using b by blast
qed

text \<open>A transfer envelope is short.\<close>

lemma rlpBytes_length: "length (rlpBytes b) \<le> length b + 9"
  using len_bounds(1) [of "of_nat (length b)"] by (simp add: rlpBytes_def Let_def)

lemma enc_length: "length (enc (b, k)) \<le> length b + 9"
  using rlpBytes_length [of b] by (cases k) (simp_all add: enc_def rlpList_def)

lemma rlpList_upper: "length (rlpList xs) \<le> length (concat xs) + 9"
  using len_bounds(1) [of "of_nat (length (concat xs))"]
  by (simp add: rlpList_def Let_def del: concat_eq_Nil_conv length_0_conv)

lemma concat_enc_length: "length (concat (map enc xs)) \<le> sum_list (map (\<lambda>x. length (fst x) + 9) xs)"
proof (induction xs)
  case (Cons x xs)
  then show ?case using enc_length [of "fst x" "snd x"] by simp
qed simp

lemma be_bytes_length: "n < 256 ^ k \<Longrightarrow> length (be_bytes n) \<le> k"
proof (induction k arbitrary: n)
  case (Suc k)
  then have "n div 256 < 256 ^ k" by (simp add: less_mult_imp_div_less mult.commute)
  then show ?case using Suc.IH by (subst be_bytes.simps) simp
qed (simp add: be_bytes.simps)

lemma calldata_shape:
  assumes "USDCTransferCalldata keccak a amount = Done d"
  shows "\<exists>x. AddressBytes keccak a = Inr x \<and> d = transferSelector @ fill32 x @ fill32 (Bytes amount)" "0 < amount" "length d = 68"
  using assms by (auto simp: USDCTransferCalldata_def Let_def split: if_splits sum.splits)

lemma built_tx:
  assumes "buildEIP1559 keccak nonce a amount = Done t"
  shows "\<exists>usdc. AddressBytes keccak USDCContractAddressBase = Inr usdc \<and> tx_To t = usdc" "USDCTransferCalldata keccak a amount = Done (Data t)"
    "proper_tx t" "Nonce t = of_int nonce" "ChainID t = BaseMainnetChainID" "tx_Value t = Some 0"
    "MaxPriorityFeePerGas t = Some 2000000000" "MaxFeePerGas t = Some 50000000000"
proof -
  obtain usdc d where u: "AddressBytes keccak USDCContractAddressBase = Inr usdc" "USDCTransferCalldata keccak a amount = Done d"
    and t: "t = \<lparr>ChainID = BaseMainnetChainID, Nonce = of_int nonce, MaxPriorityFeePerGas = Some 2000000000,
      MaxFeePerGas = Some 50000000000, GasLimit = 80000, tx_To = usdc, tx_Value = Some 0, Data = d\<rparr>"
    using assms by (cases "AddressBytes keccak USDCContractAddressBase") (auto simp: buildEIP1559_def bind_outcome_Done)
  show "\<exists>usdc. AddressBytes keccak USDCContractAddressBase = Inr usdc \<and> tx_To t = usdc" "USDCTransferCalldata keccak a amount = Done (Data t)"
    "Nonce t = of_int nonce" "ChainID t = BaseMainnetChainID" "tx_Value t = Some 0"
    "MaxPriorityFeePerGas t = Some 2000000000" "MaxFeePerGas t = Some 50000000000" using u by (simp_all add: t)
  show "proper_tx t" using AddressBytes_length [OF u(1)] by (simp add: t proper_tx_def Validate_def)
qed

lemma built_items_short:
  assumes "buildEIP1559 keccak nonce a amount = Done t" "length y \<le> 8" "length r \<le> 32" "length s \<le> 32"
  shows "length (rlpList (map enc (tx_items t y r s))) < 1000"
proof -
  note t = built_tx [OF assms(1)]
  have d: "length (Data t) = 68" using calldata_shape(3) [OF t(2)] .
  have b: "length (Bytes 2000000000) \<le> 4" "length (Bytes 50000000000) \<le> 5" "length (Bytes 0) \<le> 0"
    by (simp_all add: Bytes_def be_bytes_length del: le_zero_eq)
  have "sum_list (map (\<lambda>x. length (fst x) + 9) (tx_items t y r s)) \<le> 400"
    using assms(2-4) d t(3) b len_bounds(1) [of "ChainID t"] len_bounds(1) [of "Nonce t"] len_bounds(1) [of "GasLimit t"]
    by (simp add: tx_items_def t(6-8) proper_tx_def)
  then show ?thesis using rlpList_upper [of "map enc (tx_items t y r s)"] concat_enc_length [of "tx_items t y r s"] by linarith
qed

lemma built_unsigned_short:
  assumes "buildEIP1559 keccak nonce a amount = Done t" "UnsignedRLP t = Done u"
  shows "length u < 2 ^ 62"
proof -
  have v: "Validate t" using built_tx(3) [OF assms(1)] by (simp add: proper_tx_def)
  then have "u = 0x02 # rlpList (map enc (tx_items t (bigEndianLen 0) [] []))"
    using assms(2) items_enc [OF v, of 0 "[]" "[]"] by (auto simp: UnsignedRLP_def)
  then show ?thesis using built_items_short [OF assms(1), of "bigEndianLen 0" "[]" "[]"] len_bounds(1) [of 0] by simp
qed

lemma built_signed_short:
  assumes "buildEIP1559 keccak nonce a amount = Done t" "SignedRLP t y r s = Done b"
  shows "length b < 2 ^ 62"
proof -
  let ?items = "tx_items t (bigEndianLen (ucast y)) (trimLeadingZeros r) (trimLeadingZeros s)"
  have v: "Validate t" using built_tx(3) [OF assms(1)] by (simp add: proper_tx_def)
  then have b: "b = 0x02 # rlpList (map enc ?items)" "length r \<le> 32" "length s \<le> 32"
    using assms(2) items_enc [OF v, of "ucast y" "trimLeadingZeros r" "trimLeadingZeros s"] by (auto simp: SignedRLP_def split: if_splits)
  then have "length (trimLeadingZeros r) \<le> 32" "length (trimLeadingZeros s) \<le> 32" using trim_length [of r] trim_length [of s] by linarith+
  then have "length (rlpList (map enc ?items)) < 1000" by (intro built_items_short [OF assms(1)] len_bounds(1))
  then show ?thesis using b by simp
qed



lemma honest_accepted:
  assumes "buildEIP1559 keccak nonce a amount = Done t" "UnsignedRLP t = Done u"
    and "signs_for keccak sign recover_key hotWallet (keccak u)"
  shows "\<exists>b h. SignTx keccak sign False False u = Done (b, h)
    \<and> verifySignedTx keccak recover_key hotWallet t b h amount a = Done ()"
proof -
  note t = built_tx [OF assms(1)]
  note us = built_unsigned_short [OF assms(1,2)]
  note st = sign_tx_returns [OF t(3) assms(2) us assms(3)]
  obtain b h where bh: "SignTx keccak sign False False u = Done (b, h)" and sg: "\<exists>y r s. SignedRLP t y r s = Done b" using st by blast
  then have bs: "length b < 2 ^ 62" using built_signed_short [OF assms(1)] by blast
  note sgn = sign_tx [OF t(3) assms(2) us bh assms(3) bs]
  obtain sender where "ecrecover keccak recover_key (keccak u) (sign (keccak u)) = Done sender" "addressEqualFold keccak sender hotWallet"
    using assms(3) by (auto simp: signs_for_def split: outcome.splits)
  then have "verifySignedTx keccak recover_key hotWallet t b h amount a = Done ()" using sgn t by (simp add: verifySignedTx_def Let_def)
  then show ?thesis using bh by blast
qed


text \<open>A cancel that passes its check moves no token: it is a native transfer of the hot wallet to itself. The amount is
  compared through \<open>Int64\<close>, so it is one wei only modulo \<open>2 ^ 64\<close>.\<close>

lemma verified_cancel_is_self_transfer:
  assumes "buildCancelTx keccak hotWallet nonce tip = Done t"
    and "verifyCancelEnvelope keccak recover_key t b h hotWallet = Done ()"
  shows "\<exists>d y r s hot v. DecodeSignedEIP1559 b = Done (d, y, r, s) \<and> Nonce d = of_int nonce \<and> AddressBytes keccak hotWallet = Inr hot
    \<and> tx_To d = hot \<and> Data d = [] \<and> tx_Value d = Some v \<and> 0 < v \<and> v mod 2 ^ 64 = 1"
proof -
  obtain hot where hot: "AddressBytes keccak hotWallet = Inr hot" and n: "Nonce t = of_int nonce"
    using assms(1) by (auto simp: buildCancelTx_def split: sum.splits)
  obtain d y r s where d: "DecodeSignedEIP1559 b = Done (d, y, r, s)"
    using assms(2) by (auto simp: verifyCancelEnvelope_def bind_outcome_Done)
  have v: "Nonce d = Nonce t" "tx_To d = hot" "Data d = []" "tx_Value d \<noteq> None" "0 < the (tx_Value d)" "i64 (the (tx_Value d)) = 1"
    using assms(2) d hot by (auto simp: verifyCancelEnvelope_def Let_def not_le split: if_splits)
  have "take_bit 64 (i64 x) = take_bit 64 x" for x by (simp add: i64_def take_bit_signed_take_bit)
  then have "the (tx_Value d) mod 2 ^ 64 = i64 (the (tx_Value d)) mod 2 ^ 64" by (metis take_bit_eq_mod)
  then show ?thesis using v n d hot by auto
qed


section \<open>Properties\<close>

text \<open>C40. The envelope that \<open>SignedRLP\<close> writes for a well-formed transaction reads back as that transaction: decoding it
  gives every field and the parity unchanged and the two halves of the signature padded to 32 bytes, for every size of
  the integers and of the data.\<close>

theorem signed_envelope_round_trip:
  assumes "SignedRLP t y r s = Done b" "length b < 2 ^ 62"
    and "length (tx_To t) = 20" "0 \<le> the (tx_Value t)" "0 < be_value r" "0 < be_value s"
  shows "DecodeSignedEIP1559 b = Done (t, y, fill32 r, fill32 s)"
proof -
  have "Validate t" using assms(1) by (simp add: SignedRLP_def split: if_splits)
  then show ?thesis using decode_signed [of t y r s b] assms by (simp add: proper_tx_def)
qed

text \<open>C38. Whatever a signer returns, an envelope that passes the check before the broadcast is a transfer of exactly the
  payout: it decodes to a call on Base, at the nonce of the attempt, of the token contract, without native value, whose
  data is a transfer of exactly the amount to exactly the bytes of the provider's address, and its signature recovers to
  the hot wallet.\<close>

theorem verified_envelope_pays_exactly:
  assumes "buildEIP1559 keccak nonce a amount = Done t"
    and "verifySignedTx keccak recover_key hotWallet t b h amount a = Done ()"
  shows "\<exists>d y r s to usdc sender. DecodeSignedEIP1559 b = Done (d, y, r, s) \<and> ChainID d = 8453 \<and> Nonce d = of_int nonce
    \<and> AddressBytes keccak USDCContractAddressBase = Inr usdc \<and> tx_To d = usdc \<and> tx_Value d = Some 0
    \<and> AddressBytes keccak a = Inr to \<and> length (Data d) = 68 \<and> take 4 (Data d) = transferSelector
    \<and> drop 16 (take 36 (Data d)) = to \<and> SetBytes (drop 36 (Data d)) = amount
    \<and> RecoverTxSender keccak recover_key b = Done sender \<and> addressEqualFold keccak sender hotWallet"
proof -
  note t = built_tx [OF assms(1)]
  obtain d y r s where d: "DecodeSignedEIP1559 b = Done (d, y, r, s)"
    using assms(2) by (auto simp: verifySignedTx_def bind_outcome_Done)
  have v: "Nonce d = Nonce t" "ChainID d = BaseMainnetChainID" "tx_To d = tx_To t" "tx_Value d = Some 0" "Data d = Data t"
    using assms(2) d t(2) by (auto simp: verifySignedTx_def Let_def split: if_splits)
  obtain sender where sender: "RecoverTxSender keccak recover_key b = Done sender" "addressEqualFold keccak sender hotWallet"
    using assms(2) d by (auto simp: verifySignedTx_def Let_def bind_outcome_Done split: if_splits)
  obtain to where to: "AddressBytes keccak a = Inr to" "Data t = transferSelector @ fill32 to @ fill32 (Bytes amount)"
    using calldata_shape(1) [OF t(2)] by blast
  have l: "length to = 20" "length (Data t) = 68" "0 < amount" using AddressBytes_length [OF to(1)] calldata_shape(2,3) [OF t(2)] by auto
  have f: "fill32 to = replicate 12 0 @ to" using l(1) by (simp add: fill32_def)
  have "be_value (replicate n 0 @ x) = be_value x" for n x by (induction n) (simp_all add: be_value_Cons)
  then have "SetBytes (fill32 (Bytes amount)) = amount" using l(3) by (simp add: SetBytes_def fill32_def Bytes_def)
  then have "take 4 (Data t) = transferSelector" "drop 16 (take 36 (Data t)) = to" "SetBytes (drop 36 (Data t)) = amount"
    using l(1) by (simp_all add: to(2) f transferSelector_def)
  then show ?thesis using d v sender to(1) l(2) t(1,4) by (auto simp: BaseMainnetChainID_def)
qed

text \<open>C39. An honest signer is never refused: if the curve library signs for the hot wallet, the local signer returns an
  envelope for every payout that was built, unless its call is canceled or late, and the envelope passes the check
  before the broadcast.\<close>

theorem honest_signature_accepted:
  assumes "buildEIP1559 keccak nonce a amount = Done t" "UnsignedRLP t = Done u"
    and "signs_for keccak sign recover_key hotWallet (keccak u)"
  shows "\<exists>b h. SignTx keccak sign False False u = Done (b, h)
    \<and> verifySignedTx keccak recover_key hotWallet t b h amount a = Done ()"
  by (rule honest_accepted [OF assms])


subsection \<open>Witnesses\<close>

definition demo_keccak :: hash_fun where
  "demo_keccak b = (if b = map of_char ''833589fcd6edb6e08f4c7c32d4f71b54bda02913''
     then [0, 0, 0, 0x08, 0x80, 0x08, 0, 0x80, 0, 0, 0x08, 0, 0x80, 0, 0, 0, 0, 0x80, 0, 0, 0, 0, 0, 0, 0, 0, 0, 0, 0, 0, 0, 0]
     else replicate 32 0x11)"

definition demo_wallet :: string where "demo_wallet = ''0x1111111111111111111111111111111111111111''"
definition demo_provider :: string where "demo_provider = ''0x2222222222222222222222222222222222222222''"
definition demo_sign :: "byte list \<Rightarrow> byte list" where "demo_sign d = 28 # replicate 32 3 @ replicate 32 5"
definition demo_recover :: "byte list \<Rightarrow> byte list \<Rightarrow> byte list option" where
  "demo_recover sig d = (if sig = demo_sign d then Some (0x04 # replicate 64 7) else None)"

definition demo_tx :: EIP1559Tx where
  "demo_tx = \<lparr>ChainID = 8453, Nonce = 7, MaxPriorityFeePerGas = Some 2000000000, MaxFeePerGas = Some 50000000000, GasLimit = 80000,
     tx_To = [0x83, 0x35, 0x89, 0xfc, 0xd6, 0xed, 0xb6, 0xe0, 0x8f, 0x4c, 0x7c, 0x32, 0xd4, 0xf7, 0x1b, 0x54, 0xbd, 0xa0, 0x29, 0x13],
     tx_Value = Some 0, Data = transferSelector @ replicate 12 0 @ replicate 20 0x22 @ replicate 29 0 @ [0x0f, 0x42, 0x40]\<rparr>"

lemma demo_built: "buildEIP1559 demo_keccak 7 demo_provider 1000000 = Done demo_tx"
proof -
  have "AddressBytes demo_keccak demo_provider = Inr (replicate 20 0x22)" by code_simp
  moreover have "AddressBytes demo_keccak USDCContractAddressBase = Inr (tx_To demo_tx)" by code_simp
  moreover have "Bytes 1000000 = [0x0f, 0x42, 0x40]" by (simp add: Bytes_def be_bytes.simps)
  ultimately show ?thesis
    by (simp add: buildEIP1559_def USDCTransferCalldata_def fill32_def Let_def demo_tx_def BaseMainnetChainID_def transferSelector_def)
qed

lemma be_value_replicate: "x \<noteq> 0 \<Longrightarrow> 0 < n \<Longrightarrow> 0 < be_value (replicate n x)"
  by (cases n) (simp_all add: be_value_Cons unat_gt_0)

lemma demo_signs_for: "signs_for demo_keccak demo_sign demo_recover demo_wallet d"
proof -
  have "length (demo_sign d) = 65" "demo_sign d ! 0 = 28" "take 32 (drop 1 (demo_sign d)) = replicate 32 3"
    "take 32 (drop 33 (demo_sign d)) = replicate 32 5" by (simp_all add: demo_sign_def)
  moreover have "0 < be_value (replicate 32 3)" "0 < be_value (replicate 32 5)" by (rule be_value_replicate; simp)+
  moreover have "ecrecover demo_keccak demo_recover d (demo_sign d) = Done demo_wallet"
  proof -
    have "(let p = demo_keccak (replicate 64 7) in ''0x'' @ EncodeToString (drop (length p - 20) p)) = demo_wallet" by code_simp
    then show ?thesis by (simp add: ecrecover_def demo_recover_def Let_def)
  qed
  moreover have "addressEqualFold demo_keccak demo_wallet demo_wallet" by code_simp
  ultimately show ?thesis by (simp add: signs_for_def)
qed

lemma demo_unsigned: "\<exists>u. UnsignedRLP demo_tx = Done u"
  using built_tx(3) [OF demo_built] by (simp add: UnsignedRLP_def proper_tx_def)

theorem honest_signature_accepted_witness:
  "\<exists>u b h. UnsignedRLP demo_tx = Done u \<and> SignTx demo_keccak demo_sign False False u = Done (b, h)
    \<and> verifySignedTx demo_keccak demo_recover demo_wallet demo_tx b h 1000000 demo_provider = Done ()"
proof -
  obtain u where u: "UnsignedRLP demo_tx = Done u" using demo_unsigned by blast
  then show ?thesis using honest_signature_accepted [OF demo_built u demo_signs_for] by blast
qed

lemma demo_signed:
  obtains b where "SignedRLP demo_tx 1 [3] [5] = Done b" "length b < 2 ^ 62"
proof -
  obtain b where b: "SignedRLP demo_tx 1 [3] [5] = Done b" using built_tx(3) [OF demo_built] by (simp add: SignedRLP_def proper_tx_def)
  then show ?thesis using that built_signed_short [OF demo_built b] by blast
qed

theorem signed_envelope_round_trip_witness:
  "\<exists>b. SignedRLP demo_tx 1 [3] [5] = Done b \<and> DecodeSignedEIP1559 b = Done (demo_tx, 1, fill32 [3], fill32 [5])"
proof -
  obtain b where b: "SignedRLP demo_tx 1 [3] [5] = Done b" "length b < 2 ^ 62" by (rule demo_signed)
  have "length (tx_To demo_tx) = 20" "0 \<le> the (tx_Value demo_tx)" by (simp_all add: demo_tx_def)
  moreover have "0 < be_value [3]" "0 < be_value [5]" by (simp_all add: be_value_Cons)
  ultimately show ?thesis using signed_envelope_round_trip [OF b] b(1) by blast
qed

lemma demo_verified:
  obtains b h where "verifySignedTx demo_keccak demo_recover demo_wallet demo_tx b h 1000000 demo_provider = Done ()"
  using honest_accepted [OF demo_built _ demo_signs_for] demo_unsigned by blast

theorem verified_envelope_pays_exactly_witness:
  "\<exists>b d y r s. DecodeSignedEIP1559 b = Done (d, y, r, s) \<and> ChainID d = 8453 \<and> Nonce d = 7 \<and> tx_Value d = Some 0
    \<and> SetBytes (drop 36 (Data d)) = 1000000"
proof -
  obtain b h where "verifySignedTx demo_keccak demo_recover demo_wallet demo_tx b h 1000000 demo_provider = Done ()" by (rule demo_verified)
  then show ?thesis using verified_envelope_pays_exactly [OF demo_built] by fastforce
qed

end
