(* ===== verification/Spec2Isabelle.thy ===== *)
theory Spec2Isabelle
  imports Capacity_Clamp Version_Floor Billing_Formula Registry_Contracts Mismatch_Limiter
    Streaming_Downgrade Forward_Loop Ledger_Properties Payout_Envelope
begin

text \<open>
  Verification of the macprovider coordinator.
\<close>

end
